(* ===== verification/BesPrelude.thy ===== *)
theory BesPrelude
  imports Main "HOL-Library.Word"
begin

text \<open>
  Shared material of the development: the C integer types at their width, the bits of a register, the two
  array-moving loops that the record tables of \<open>apps/nv_section\<close> are written with (a
  sequence of \<open>memcpy\<close> calls, one element at a time), their closed forms, and a few facts
  on lists. Collections: \<open>arr_simps\<close> holds the closed forms of the loops.
\<close>

named_theorems arr_simps \<open>closed forms of the array-moving loops\<close>

section \<open>C types\<close>

type_synonym u8 = "8 word"
type_synonym u16 = "16 word"
type_synonym u32 = "32 word"
type_synonym bytes = "u8 list"

text \<open>
  The result of code that may dereference a null pointer before it has checked it: either
  the access faults or the function returns.
\<close>

datatype 'a c_result = NullDeref | Ret 'a

lemma unat_ucast_8_32 [simp]: "unat (ucast (v :: u8) :: u32) = unat v"
  by (simp add: unsigned_ucast_eq take_bit_nat_eq_self unsigned_less [THEN order.strict_trans])

section \<open>Bits of a register\<close>

unbundle bit_operations_syntax

text \<open>\<^verbatim>\<open>(1 << n)\<close>\<close>

definition BIT :: "nat \<Rightarrow> u32" where
  "BIT n = push_bit n 1"

lemma bit_BIT [simp]: "bit (BIT i) n \<longleftrightarrow> n = i \<and> i < 32"
  by (auto simp: BIT_def bit_simps)

lemma mask_bit [simp]: "(r AND BIT n = 0) = (\<not> bit r n)"
  using bit_iff_and_push_bit_not_eq_0 [of r n] by (simp add: BIT_def)

section \<open>Array-moving loops\<close>

text \<open>
  \<^verbatim>\<open>for (k = 0; k < cnt; k++) memcpy(&a[hi - k], &a[hi - 1 - k], sizeof(a[0]));\<close>
  moves the \<open>cnt\<close> elements below \<open>hi\<close> up by one slot, from the top down.
\<close>

definition shift_up :: "nat \<Rightarrow> nat \<Rightarrow> 'a list \<Rightarrow> 'a list" where
  "shift_up hi cnt a = fold (\<lambda>k a. a[hi - k := a ! (hi - 1 - k)]) [0..<cnt] a"

text \<open>
  \<^verbatim>\<open>for (k = 0; k < cnt; k++) memcpy(&a[lo + k], &a[lo + 1 + k], sizeof(a[0]));\<close>
  moves the \<open>cnt\<close> elements above \<open>lo\<close> down by one slot, from the bottom up.
\<close>

definition shift_down :: "nat \<Rightarrow> nat \<Rightarrow> 'a list \<Rightarrow> 'a list" where
  "shift_down lo cnt a = fold (\<lambda>k a. a[lo + k := a ! (lo + 1 + k)]) [0..<cnt] a"

lemma shift_up_Suc:
  "shift_up hi (Suc cnt) a =
     (shift_up hi cnt a)[hi - cnt := shift_up hi cnt a ! (hi - 1 - cnt)]"
  by (simp add: shift_up_def)

lemma shift_down_Suc:
  "shift_down lo (Suc cnt) a =
     (shift_down lo cnt a)[lo + cnt := shift_down lo cnt a ! (lo + 1 + cnt)]"
  by (simp add: shift_down_def)

lemma shift_up_0 [simp]: "shift_up hi 0 a = a"
  by (simp add: shift_up_def)

lemma shift_down_0 [simp]: "shift_down lo 0 a = a"
  by (simp add: shift_down_def)

lemma length_shift_up [simp]: "length (shift_up hi cnt a) = length a"
  by (induction cnt) (simp_all add: shift_up_Suc)

lemma length_shift_down [simp]: "length (shift_down lo cnt a) = length a"
  by (induction cnt) (simp_all add: shift_down_Suc)

lemma nth_shift_up:
  assumes "cnt \<le> hi" and "hi < length a" and "i < length a"
  shows "shift_up hi cnt a ! i = (if hi - cnt < i \<and> i \<le> hi then a ! (i - 1) else a ! i)"
  using assms
proof (induction cnt arbitrary: i)
  case 0
  then show ?case by auto
next
  case (Suc cnt)
  have src: "shift_up hi cnt a ! (hi - 1 - cnt) = a ! (hi - 1 - cnt)"
    using Suc.prems by (subst Suc.IH) auto
  show ?case
  proof (cases "i = hi - cnt")
    case True
    with Suc.prems src show ?thesis by (simp add: shift_up_Suc diff_right_commute)
  next
    case False
    have "shift_up hi cnt a ! i = (if hi - cnt < i \<and> i \<le> hi then a ! (i - 1) else a ! i)"
      using Suc.prems by (intro Suc.IH) auto
    with False Suc.prems show ?thesis by (auto simp: shift_up_Suc)
  qed
qed

lemma nth_shift_down:
  assumes "lo + cnt < length a" and "i < length a"
  shows "shift_down lo cnt a ! i = (if lo \<le> i \<and> i < lo + cnt then a ! Suc i else a ! i)"
  using assms
proof (induction cnt arbitrary: i)
  case 0
  then show ?case by auto
next
  case (Suc cnt)
  have src: "shift_down lo cnt a ! (lo + 1 + cnt) = a ! (lo + 1 + cnt)"
    using Suc.prems by (subst Suc.IH) auto
  show ?case
  proof (cases "i = lo + cnt")
    case True
    with Suc.prems src show ?thesis by (simp add: shift_down_Suc)
  next
    case False
    have "shift_down lo cnt a ! i = (if lo \<le> i \<and> i < lo + cnt then a ! Suc i else a ! i)"
      using Suc.prems by (intro Suc.IH) auto
    with False Suc.prems show ?thesis by (auto simp: shift_down_Suc)
  qed
qed

text \<open>
  The closed forms: opening slot 0 of an array, closing the slot of a deleted element, and
  moving one element to another place.
\<close>

lemma shift_up_open [arr_simps]:
  assumes "n < length a"
  shows "(shift_up n n a)[0 := x] = x # take n a @ drop (Suc n) a"
proof (rule nth_equalityI)
  show "length ((shift_up n n a)[0 := x]) = length (x # take n a @ drop (Suc n) a)"
    using assms by simp
next
  fix i
  assume "i < length ((shift_up n n a)[0 := x])"
  then have i: "i < length a" by simp
  show "(shift_up n n a)[0 := x] ! i = (x # take n a @ drop (Suc n) a) ! i"
  proof (cases i)
    case 0
    with i show ?thesis by simp
  next
    case (Suc j)
    with i assms show ?thesis by (auto simp: nth_shift_up nth_append)
  qed
qed

lemma shift_down_close [arr_simps]:
  assumes "lo + cnt < length a"
  shows "shift_down lo cnt a = take lo a @ take cnt (drop (Suc lo) a) @ drop (lo + cnt) a"
proof (rule nth_equalityI)
  show "length (shift_down lo cnt a) =
      length (take lo a @ take cnt (drop (Suc lo) a) @ drop (lo + cnt) a)"
    using assms by simp
next
  fix i
  assume "i < length (shift_down lo cnt a)"
  with assms show "shift_down lo cnt a ! i =
      (take lo a @ take cnt (drop (Suc lo) a) @ drop (lo + cnt) a) ! i"
    by (auto simp: nth_shift_down nth_append)
qed

section \<open>Lists\<close>

text \<open>\<open>drop_nth i xs\<close> is \<open>xs\<close> without its element \<open>i\<close>.\<close>

definition drop_nth :: "nat \<Rightarrow> 'a list \<Rightarrow> 'a list" where
  "drop_nth i xs = take i xs @ drop (Suc i) xs"

lemma drop_nth_0 [simp]: "drop_nth 0 (x # xs) = xs"
  by (simp add: drop_nth_def)

lemma drop_nth_Suc [simp]: "drop_nth (Suc i) (x # xs) = x # drop_nth i xs"
  by (simp add: drop_nth_def)

lemma length_drop_nth: "i < length xs \<Longrightarrow> length (drop_nth i xs) = length xs - 1"
  by (simp add: drop_nth_def)

lemma set_drop_nth: "set (drop_nth i xs) \<subseteq> set xs"
  by (auto simp: drop_nth_def dest: in_set_takeD in_set_dropD)

lemma map_drop_nth: "map f (drop_nth i xs) = drop_nth i (map f xs)"
  by (simp add: drop_nth_def take_map drop_map)

text \<open>With distinct keys, dropping an element is filtering its key out.\<close>

lemma drop_nth_filter:
  "i < length xs \<Longrightarrow> distinct (map f xs) \<Longrightarrow>
     drop_nth i xs = filter (\<lambda>r. f r \<noteq> f (xs ! i)) xs"
proof (induction xs arbitrary: i)
  case Nil
  then show ?case by simp
next
  case (Cons x xs)
  show ?case
  proof (cases i)
    case 0
    with Cons.prems have "\<forall>r \<in> set xs. f r \<noteq> f x" by (metis distinct.simps(2) image_eqI list.simps(9) set_map)
    with 0 show ?thesis by simp
  next
    case (Suc j)
    with Cons.prems have j: "j < length xs" and d: "distinct (map f xs)" by auto
    have "f x \<noteq> f (xs ! j)" using Cons.prems(2) j by auto
    with Suc Cons.IH [OF j d] show ?thesis by simp
  qed
qed

text \<open>
  The same loops on the used part \<open>take n a\<close> of a table: opening slot 0, moving entry \<open>i\<close> to
  the head, closing entry \<open>i\<close>.
\<close>

lemma table_open: "n < length a \<Longrightarrow> take (Suc n) ((shift_up n n a)[0 := x]) = x # take n a"
  by (simp add: shift_up_open)

lemma table_move:
  assumes "i < n" and "n \<le> length a"
  shows "take n ((shift_up i i a)[0 := x]) = x # drop_nth i (take n a)"
proof -
  obtain m where m: "n = Suc m" "i \<le> m" using assms(1) by (cases n) auto
  have "take n ((shift_up i i a)[0 := x]) = x # take m (take i a @ drop (Suc i) a)"
    using assms m by (simp add: shift_up_open)
  also have "\<dots> = x # take i a @ take (m - i) (drop (Suc i) a)"
    using assms m by (simp add: min_absorb1 min_absorb2)
  also have "\<dots> = x # drop_nth i (take n a)"
    using assms m by (simp add: drop_nth_def min_absorb1 drop_take)
  finally show ?thesis .
qed

lemma table_close:
  assumes "i < n" and "n \<le> length a"
  shows "take (n - 1) (shift_down i (n - i - 1) a) = drop_nth i (take n a)"
proof -
  obtain m where m: "n = Suc m" "i \<le> m" using assms(1) by (cases n) auto
  have "i + (m - i) < length a" using assms m by simp
  then have "take m (shift_down i (m - i) a) = take i a @ take (m - i) (drop (Suc i) a)"
    using assms m by (simp add: shift_down_close min_absorb1 min_absorb2)
  also have "\<dots> = drop_nth i (take n a)"
    using assms m by (simp add: drop_nth_def min_absorb1 drop_take)
  finally show ?thesis using m by simp
qed

lemma filter_absent:
  "k \<notin> f ` set xs \<Longrightarrow> filter (\<lambda>r. f r \<noteq> k) xs = xs"
  by (rule filter_True) auto

lemma distinct_map_filter_keys: "distinct (map f xs) \<Longrightarrow> distinct (map f (filter P xs))"
  by (rule distinct_map_filter)

lemma distinct_map_take: "distinct (map f xs) \<Longrightarrow> distinct (map f (take n xs))"
  by (metis distinct_take take_map)

lemma take_append_same: "length xs = n \<Longrightarrow> take n (xs @ ys) = xs"
  by simp

end
