(* ===== verification/RecordTable.thy ===== *)
theory RecordTable
  imports BesPrelude
begin

text \<open>
  The contract that both paired-device tables of the user-data section keep (classic
  Bluetooth: \<open>nvrecord_bt.c\<close>, BLE: \<open>nvrecord_ble.c\<close>): a bounded table of records with
  distinct keys, latest change first. \<open>touch\<close> is adding or refreshing a record,
  \<open>remove\<close> deleting one by key. The consequences a client relies on are proved once here,
  from the laws alone, and reach the two tables through interpretations in \<open>NvBt\<close> and
  \<open>NvBle\<close>.
\<close>

section \<open>The abstract table: a list of keys, most recent first\<close>

definition mru_touch :: "nat \<Rightarrow> 'k \<Rightarrow> 'k list \<Rightarrow> 'k list" where
  "mru_touch cap k ks = k # take (cap - 1) (filter (\<lambda>x. x \<noteq> k) ks)"

datatype 'k table_op = Touch 'k | Remove 'k

fun mru_step :: "nat \<Rightarrow> 'k table_op \<Rightarrow> 'k list \<Rightarrow> 'k list" where
  "mru_step cap (Touch k) ks = mru_touch cap k ks"
| "mru_step cap (Remove k) ks = filter (\<lambda>x. x \<noteq> k) ks"

lemma mru_touch_keeps_prefix:
  assumes "ks = xs @ k # ys" and "k \<noteq> j" and "length (filter (\<lambda>x. x \<noteq> j) xs) < cap - 1"
  shows "\<exists>zs. mru_touch cap j ks = (j # filter (\<lambda>x. x \<noteq> j) xs) @ k # zs"
proof -
  let ?n = "cap - 1 - length (filter (\<lambda>x. x \<noteq> j) xs)"
  obtain m where m: "?n = Suc m"
    using assms(3) by (metis Suc_diff_Suc)
  have "mru_touch cap j ks =
      j # filter (\<lambda>x. x \<noteq> j) xs @ take ?n (k # filter (\<lambda>x. x \<noteq> j) ys)"
    using assms by (simp add: mru_touch_def)
  then show ?thesis using m by simp
qed

section \<open>The contract\<close>

text \<open>
  \<open>moves p s\<close> tells whether a touch brings the record to the front; a touch that does not leaves
  the table as it is, and the key is already there.
\<close>

locale keyed_table =
  fixes key :: "'r \<Rightarrow> 'k"
    and pkey :: "'p \<Rightarrow> 'k"
    and cap :: nat
    and view :: "'s \<Rightarrow> 'r list"
    and invar :: "'s \<Rightarrow> bool"
    and touch :: "'p \<Rightarrow> 's \<Rightarrow> 's"
    and remove :: "'k \<Rightarrow> 's \<Rightarrow> 's"
    and moves :: "'p \<Rightarrow> 's \<Rightarrow> bool"
  assumes cap_pos: "0 < cap"
    and invar_distinct: "invar s \<Longrightarrow> distinct (map key (view s))"
    and invar_bounded: "invar s \<Longrightarrow> length (view s) \<le> cap"
    and invar_touch: "invar s \<Longrightarrow> invar (touch p s)"
    and view_touch: "invar s \<Longrightarrow> moves p s \<Longrightarrow>
      map key (view (touch p s)) = mru_touch cap (pkey p) (map key (view s))"
    and view_stay: "invar s \<Longrightarrow> \<not> moves p s \<Longrightarrow>
      view (touch p s) = view s \<and> pkey p \<in> key ` set (view s)"
    and invar_remove: "invar s \<Longrightarrow> invar (remove k s)"
    and view_remove: "invar s \<Longrightarrow> view (remove k s) = filter (\<lambda>r. key r \<noteq> k) (view s)"
begin

lemma keys_remove:
  "invar s \<Longrightarrow> map key (view (remove k s)) = mru_step cap (Remove k) (map key (view s))"
  by (simp add: view_remove filter_map o_def)

text \<open>A touched key is in the table, first when the touch moves it; a removed key is gone.\<close>

lemma touch_first:
  "invar s \<Longrightarrow> moves p s \<Longrightarrow> \<exists>r rs. view (touch p s) = r # rs \<and> key r = pkey p"
  using view_touch [of s p] by (cases "view (touch p s)") (auto simp: mru_touch_def)

lemma touch_present: "invar s \<Longrightarrow> pkey p \<in> key ` set (view (touch p s))"
  using touch_first [of s p] view_stay [of s p] by (cases "moves p s") force+

lemma removed_absent: "invar s \<Longrightarrow> k \<notin> key ` set (view (remove k s))"
  by (auto simp: view_remove)

text \<open>Touches keep the invariant, whatever their number.\<close>

lemma invar_touches: "invar s \<Longrightarrow> invar (fold touch ps s)"
  by (induction ps arbitrary: s) (auto intro: invar_touch)

text \<open>
  Retention: a key that is in the table with the keys \<open>xs\<close> before it stays there as long as
  the keys touched since, together with \<open>xs\<close>, are fewer than the capacity. \<open>D\<close> collects the
  keys that can stand before it.
\<close>

lemma retained_step:
  assumes inv: "invar s" and split: "map key (view s) = xs @ k # ys"
    and D: "set xs \<subseteq> D" "finite D" "k \<notin> D" "card D < cap" and p: "pkey p \<in> insert k D"
  shows "\<exists>xs' ys'. map key (view (touch p s)) = xs' @ k # ys' \<and> set xs' \<subseteq> D"
proof (cases "moves p s"; cases "pkey p = k")
  assume "\<not> moves p s"
  then show ?thesis using view_stay [OF inv] split D(1) by auto
next
  assume "\<not> moves p s"
  then show ?thesis using view_stay [OF inv] split D(1) by auto
next
  assume mv: "moves p s" and True: "pkey p = k"
  then have "map key (view (touch p s)) = [] @ k # take (cap - 1) (filter (\<lambda>x. x \<noteq> k) (map key (view s)))"
    using view_touch [OF inv mv] by (simp add: mru_touch_def)
  then show ?thesis by fastforce
next
  assume mv: "moves p s" and False: "pkey p \<noteq> k"
  let ?xs = "filter (\<lambda>x. x \<noteq> pkey p) xs"
  have "distinct xs" using invar_distinct [OF inv] split by simp
  then have "length ?xs = card (set ?xs)" by (metis distinct_card distinct_filter)
  also have "\<dots> \<le> card (D - {pkey p})" using D by (intro card_mono) auto
  also have "\<dots> < cap - 1"
  proof -
    have "pkey p \<in> D" using p False by simp
    then have "0 < card D" using D(2) by (auto simp: card_gt_0_iff)
    then show ?thesis using \<open>pkey p \<in> D\<close> D(4) by (simp add: card_Diff_singleton)
  qed
  finally obtain zs where "mru_touch cap (pkey p) (map key (view s)) = (pkey p # ?xs) @ k # zs"
    using mru_touch_keeps_prefix [OF split not_sym [OF False], of cap] by blast
  then have "map key (view (touch p s)) = (pkey p # ?xs) @ k # zs"
    using view_touch [OF inv mv] by simp
  moreover have "set (pkey p # ?xs) \<subseteq> D" using D p False by auto
  ultimately show ?thesis by blast
qed

lemma retained_run:
  assumes "invar s" and "map key (view s) = xs @ k # ys"
    and "set xs \<subseteq> D" "finite D" "k \<notin> D" "card D < cap" and "pkey ` set ps \<subseteq> insert k D"
  shows "k \<in> key ` set (view (fold touch ps s))"
  using assms
proof (induction ps arbitrary: s xs ys)
  case Nil
  then have "k \<in> set (map key (view s))" by simp
  then show ?case by (metis fold_simps(1) set_map)
next
  case (Cons p ps)
  from Cons.prems have "pkey p \<in> insert k D" by simp
  then obtain xs' ys' where
    v: "map key (view (touch p s)) = xs' @ k # ys'" "set xs' \<subseteq> D"
    using retained_step [OF Cons.prems(1-6)] by blast
  have "k \<in> key ` set (view (fold touch ps (touch p s)))"
    using Cons.IH [OF invar_touch [OF Cons.prems(1)] v(1) v(2)] Cons.prems by simp
  then show ?case by simp
qed

lemma touched_retained:
  assumes "invar s" and "moves p s" and "card (pkey ` set ps - {pkey p}) < cap"
  shows "pkey p \<in> key ` set (view (fold touch ps (touch p s)))"
proof -
  have "map key (view (touch p s)) =
      [] @ pkey p # take (cap - 1) (filter (\<lambda>x. x \<noteq> pkey p) (map key (view s)))"
    using view_touch [OF assms(1,2)] by (simp add: mru_touch_def)
  from retained_run [OF invar_touch [OF assms(1)] this, of "pkey ` set ps - {pkey p}" ps]
  show ?thesis using assms(3) by auto
qed

end

text \<open>A table in which every touch moves to the front.\<close>

locale mru_table = keyed_table key pkey cap view invar touch remove "\<lambda>p s. True"
  for key :: "'r \<Rightarrow> 'k" and pkey :: "'p \<Rightarrow> 'k" and cap view and invar :: "'s \<Rightarrow> bool"
    and touch remove
begin

lemma latest_first: "invar s \<Longrightarrow> \<exists>r rs. view (touch p s) = r # rs \<and> key r = pkey p"
  by (rule touch_first) simp_all

lemma recent_retained:
  "invar s \<Longrightarrow> card (pkey ` set ps - {pkey p}) < cap \<Longrightarrow>
     pkey p \<in> key ` set (view (fold touch ps (touch p s)))"
  by (rule touched_retained) simp_all

end

end
