(* ===== verification/Volume.thy ===== *)
theory Volume
  imports BesPrelude
begin

text \<open>
  The volume scales: \<open>unsigned_range_value_map\<close> of \<open>cmsis.h\<close>, the default volume index of
  \<open>hal_codec_common.c\<close> and the conversions between the local volume levels and the scales of
  A2DP and HFP. The map is shown to round to the nearest target value, to stay in its range
  and to be monotone, as long as its 32-bit intermediate product does not wrap.
\<close>

section \<open>Definitions\<close>

text \<open>
  \<open>unsigned_range_value_map\<close> (\<open>cmsis.h\<close>), \<open>hal_codec_get_default_dac_volume_index\<close>
  (\<open>hal_codec_common.c\<close>, with \<open>AUDIO_OUTPUT_VOLUME_DEFAULT\<close> = 16 from the build) and
  \<open>a2dp_convert_local_vol_to_bt_vol\<close> (\<open>bescommon.c\<close>), at the width of the code.
\<close>

definition TGT_VOLUME_LEVEL_MUTE :: u32 where
  "TGT_VOLUME_LEVEL_MUTE = 0"

definition TGT_VOLUME_LEVEL_MAX :: u32 where
  "TGT_VOLUME_LEVEL_MAX = 16"

definition MAX_A2DP_VOL :: u32 where
  "MAX_A2DP_VOL = 127"

definition AUDIO_OUTPUT_VOLUME_DEFAULT :: u32 where
  "AUDIO_OUTPUT_VOLUME_DEFAULT = 16"

definition unsigned_range_value_map :: "u32 \<Rightarrow> u32 \<Rightarrow> u32 \<Rightarrow> u32 \<Rightarrow> u32 \<Rightarrow> u32" where
  "unsigned_range_value_map from_val from_min from_max to_min to_max =
     (if from_val \<le> from_min then to_min
      else if from_max \<le> from_val then to_max
      else ((from_val - from_min) * (to_max - to_min) + (from_max - from_min) div 2)
             div (from_max - from_min) + to_min)"

definition hal_codec_get_default_dac_volume_index :: u32 where
  "hal_codec_get_default_dac_volume_index =
     (if TGT_VOLUME_LEVEL_MUTE \<le> AUDIO_OUTPUT_VOLUME_DEFAULT \<and>
         AUDIO_OUTPUT_VOLUME_DEFAULT \<le> TGT_VOLUME_LEVEL_MAX
      then AUDIO_OUTPUT_VOLUME_DEFAULT else TGT_VOLUME_LEVEL_MAX)"

definition a2dp_convert_local_vol_to_bt_vol :: "u8 \<Rightarrow> u8" where
  "a2dp_convert_local_vol_to_bt_vol localVol =
     ucast (unsigned_range_value_map (ucast localVol) TGT_VOLUME_LEVEL_MUTE TGT_VOLUME_LEVEL_MAX
       0 MAX_A2DP_VOL)"

definition a2dp_convert_bt_vol_to_local_vol :: "u8 \<Rightarrow> u8" where
  "a2dp_convert_bt_vol_to_local_vol btVol =
     ucast (unsigned_range_value_map (ucast btVol) 0 MAX_A2DP_VOL
       TGT_VOLUME_LEVEL_MUTE TGT_VOLUME_LEVEL_MAX)"

definition MAX_HFP_VOL :: u32 where
  "MAX_HFP_VOL = 15"

definition hfp_convert_local_vol_to_bt_vol :: "u8 \<Rightarrow> u8" where
  "hfp_convert_local_vol_to_bt_vol localVol =
     ucast (unsigned_range_value_map (ucast localVol) TGT_VOLUME_LEVEL_MUTE TGT_VOLUME_LEVEL_MAX
       0 MAX_HFP_VOL)"

definition hfp_convert_bt_vol_to_local_vol :: "u8 \<Rightarrow> u8" where
  "hfp_convert_bt_vol_to_local_vol btVol =
     ucast (unsigned_range_value_map (ucast btVol) 0 MAX_HFP_VOL
       TGT_VOLUME_LEVEL_MUTE TGT_VOLUME_LEVEL_MAX)"

section \<open>The map on natural numbers\<close>

definition range_map :: "nat \<Rightarrow> nat \<Rightarrow> nat \<Rightarrow> nat \<Rightarrow> nat \<Rightarrow> nat" where
  "range_map v a b c d =
     (if v \<le> a then c else if b \<le> v then d
      else ((v - a) * (d - c) + (b - a) div 2) div (b - a) + c)"

lemma range_map_bounds:
  assumes "a < b" and "c \<le> d"
  shows "c \<le> range_map v a b c d" and "range_map v a b c d \<le> d"
proof -
  show "c \<le> range_map v a b c d" using assms by (simp add: range_map_def)
  have "((v - a) * (d - c) + (b - a) div 2) div (b - a) \<le> d - c" if v: "a < v" "v < b"
  proof -
    let ?n = "b - a"
    have "(v - a) * (d - c) + ?n div 2 < ?n * (d - c) + ?n"
    proof -
      have "(v - a) * (d - c) \<le> ?n * (d - c)" using v by (intro mult_right_mono) auto
      moreover have "?n div 2 < ?n" using assms(1) by simp
      ultimately show ?thesis by linarith
    qed
    then have "((v - a) * (d - c) + ?n div 2) div ?n < d - c + 1"
      using assms(1) by (simp add: div_less_iff_less_mult algebra_simps)
    then show ?thesis by simp
  qed
  then show "range_map v a b c d \<le> d" using assms by (simp add: range_map_def le_diff_conv2)
qed

lemma range_map_mono:
  assumes "a < b" and "c \<le> d" and "v \<le> w"
  shows "range_map v a b c d \<le> range_map w a b c d"
proof (cases "v \<le> a \<or> b \<le> w")
  case True
  then show ?thesis using range_map_bounds [OF assms(1,2)] assms by (auto simp: range_map_def)
next
  case False
  then have "(v - a) * (d - c) + (b - a) div 2 \<le> (w - a) * (d - c) + (b - a) div 2"
    using assms(3) by (intro add_right_mono mult_right_mono) auto
  then show ?thesis using False assms by (auto simp: range_map_def div_le_mono)
qed

lemma abs_round: "(A::int) \<le> X + H \<Longrightarrow> X + H < A + N \<Longrightarrow> N - 1 \<le> 2 * H \<Longrightarrow> 2 * H \<le> N \<Longrightarrow> 2 * \<bar>A - X\<bar> \<le> N"
  by (simp add: abs_if)

lemma round_div:
  assumes "0 < (n::nat)"
  shows "2 * \<bar>int ((x + n div 2) div n) * int n - int x\<bar> \<le> int n"
proof -
  let ?q = "(x + n div 2) div n"
  have "?q * n \<le> x + n div 2" by (rule div_times_less_eq_dividend)
  moreover have "x + n div 2 < ?q * n + n"
    using dividend_less_div_times [OF assms] by (simp add: add.commute)
  ultimately have "int ?q * int n \<le> int x + int (n div 2)" "int x + int (n div 2) < int ?q * int n + int n"
    by (metis of_nat_add of_nat_le_iff of_nat_mult, metis of_nat_add of_nat_less_iff of_nat_mult)
  moreover have "int n - 1 \<le> 2 * int (n div 2)" "2 * int (n div 2) \<le> int n" by linarith+
  ultimately show ?thesis by (rule abs_round)
qed

lemma range_map_round:
  assumes "a < b" and "c \<le> d" and "a \<le> v" and "v \<le> b"
  shows "2 * \<bar>(int (range_map v a b c d) - int c) * (int b - int a) -
     (int v - int a) * (int d - int c)\<bar> \<le> int b - int a"
proof -
  consider "v = a" | "v = b" | "a < v" "v < b" using assms by linarith
  then show ?thesis
  proof cases
    case 1
    then show ?thesis using assms by (simp add: range_map_def)
  next
    case 2
    then show ?thesis using assms by (simp add: range_map_def)
  next
    case 3
    then have "int ((v - a) * (d - c)) = (int v - int a) * (int d - int c)"
      "int (b - a) = int b - int a" using assms by (simp_all add: of_nat_diff)
    with 3 round_div [of "b - a" "(v - a) * (d - c)"] show ?thesis
      using assms by (simp add: range_map_def)
  qed
qed

lemma unat_range_value_map:
  assumes ab: "from_min < from_max" and cd: "to_min \<le> to_max"
    and fit: "(unat from_max - unat from_min) * (unat to_max - unat to_min) +
       (unat from_max - unat from_min) div 2 < 2 ^ 32"
  shows "unat (unsigned_range_value_map from_val from_min from_max to_min to_max) =
    range_map (unat from_val) (unat from_min) (unat from_max) (unat to_min) (unat to_max)"
proof (cases "from_val \<le> from_min \<or> from_max \<le> from_val")
  case True
  then show ?thesis by (auto simp: unsigned_range_value_map_def range_map_def word_le_nat_alt)
next
  case False
  let ?v = "unat from_val" and ?a = "unat from_min" and ?b = "unat from_max"
    and ?c = "unat to_min" and ?d = "unat to_max"
  have lt: "?a < ?v" "?v < ?b" "?c \<le> ?d"
    using False cd by (auto simp: word_le_nat_alt)
  have sub: "unat (from_val - from_min) = ?v - ?a" "unat (to_max - to_min) = ?d - ?c"
      "unat (from_max - from_min) = ?b - ?a"
    using False ab cd by (auto intro!: unat_sub)
  have le: "(?v - ?a) * (?d - ?c) \<le> (?b - ?a) * (?d - ?c)"
    using lt by (intro mult_right_mono) auto
  have mul: "unat ((from_val - from_min) * (to_max - to_min)) = (?v - ?a) * (?d - ?c)"
    using order.strict_trans1 [OF le add_lessD1 [OF fit]] by (simp add: unat_word_ariths sub)
  have half: "unat ((from_max - from_min) div 2) = (?b - ?a) div 2"
    by (simp add: unat_div_distrib sub)
  have fit': "(?v - ?a) * (?d - ?c) + (?b - ?a) div 2 < 2 ^ 32"
    using add_right_mono [OF le, of "(?b - ?a) div 2"] fit by (rule order.strict_trans1)
  have add: "unat ((from_val - from_min) * (to_max - to_min) + (from_max - from_min) div 2) =
      (?v - ?a) * (?d - ?c) + (?b - ?a) div 2"
    using fit' by (simp add: unat_word_ariths(1) mul half)
  have quot: "unat (((from_val - from_min) * (to_max - to_min) + (from_max - from_min) div 2)
        div (from_max - from_min)) = ((?v - ?a) * (?d - ?c) + (?b - ?a) div 2) div (?b - ?a)"
    by (simp add: unat_div_distrib add sub)
  have "((?v - ?a) * (?d - ?c) + (?b - ?a) div 2) div (?b - ?a) + ?c \<le> ?d"
    using range_map_bounds(2) [of ?a ?b ?c ?d ?v] lt by (simp add: range_map_def)
  also have "\<dots> < 2 ^ 32" using unsigned_less [of to_max] by simp
  finally have "unat (((from_val - from_min) * (to_max - to_min) + (from_max - from_min) div 2)
        div (from_max - from_min) + to_min) =
      ((?v - ?a) * (?d - ?c) + (?b - ?a) div 2) div (?b - ?a) + ?c"
    by (simp add: unat_word_ariths(1) quot)
  then show ?thesis
    using False lt by (simp add: unsigned_range_value_map_def range_map_def)
qed

section \<open>Properties\<close>

text \<open>
  C40: \<open>unsigned_range_value_map\<close> between two proper ranges whose scaled product fits 32 bits
  stays in the target range, is monotone, and inside the source range is the exact linear value
  rounded to the nearest integer (the error times the source width is at most half the width).
\<close>

theorem range_value_map_correct:
  assumes "from_min < from_max" and "to_min \<le> to_max"
    and "(unat from_max - unat from_min) * (unat to_max - unat to_min) +
       (unat from_max - unat from_min) div 2 < 2 ^ 32"
    and "v \<le> w"
  shows "to_min \<le> unsigned_range_value_map v from_min from_max to_min to_max \<and>
    unsigned_range_value_map v from_min from_max to_min to_max \<le> to_max \<and>
    unsigned_range_value_map v from_min from_max to_min to_max \<le>
      unsigned_range_value_map w from_min from_max to_min to_max \<and>
    (from_min \<le> v \<and> v \<le> from_max \<longrightarrow>
      2 * \<bar>(uint (unsigned_range_value_map v from_min from_max to_min to_max) - uint to_min) *
             (uint from_max - uint from_min) -
           (uint v - uint from_min) * (uint to_max - uint to_min)\<bar>
        \<le> uint from_max - uint from_min)"
proof -
  note m = unat_range_value_map [OF assms(1-3)]
  have ab: "unat from_min < unat from_max" and cd: "unat to_min \<le> unat to_max"
    and vw: "unat v \<le> unat w" using assms by (simp_all add: word_le_nat_alt word_less_nat_alt)
  have "2 * \<bar>(int (unat (unsigned_range_value_map v from_min from_max to_min to_max)) - int (unat to_min)) *
             (int (unat from_max) - int (unat from_min)) -
           (int (unat v) - int (unat from_min)) * (int (unat to_max) - int (unat to_min))\<bar>
        \<le> int (unat from_max) - int (unat from_min)" if "from_min \<le> v" "v \<le> from_max"
    using range_map_round [OF ab cd, of "unat v"] that by (simp add: word_le_nat_alt flip: m)
  then show ?thesis
    using range_map_bounds [OF ab cd, of "unat v"] range_map_mono [OF ab cd vw]
    by (simp add: word_le_nat_alt flip: m)
qed

theorem range_value_map_correct_witness:
  "unsigned_range_value_map 7 0 16 0 127 \<le> unsigned_range_value_map 8 0 16 0 127 \<and>
   unsigned_range_value_map 7 0 16 0 127 = 56"
  using range_value_map_correct [of 0 16 0 127 7 8] by (simp add: unsigned_range_value_map_def)

text \<open>
  The A2DP scale loses nothing: every local volume level from mute to the maximum comes back
  after conversion to the 0..127 scale of AVRCP and back; a level above the maximum is
  saturated.
\<close>

theorem a2dp_volume_roundtrip:
  "a2dp_convert_bt_vol_to_local_vol (a2dp_convert_local_vol_to_bt_vol v) =
     (if v \<le> 16 then v else 16)"
proof (cases "v < 16")
  case True
  then have "unat v < 16" by (simp add: word_less_nat_alt)
  then have "unat v \<in> set [0..<16]" by simp
  then have "v \<in> set (map of_nat [0..<16])" by (force simp: image_iff intro: bexI [of _ "unat v"])
  then have "v \<in> {0, 1, 2, 3, 4, 5, 6, 7, 8, 9, 10, 11, 12, 13, 14, 15}"
    by (simp add: upt_rec)
  moreover have "v \<le> 16" using True by simp
  ultimately show ?thesis
    by (auto simp: word_le_nat_alt a2dp_convert_bt_vol_to_local_vol_def a2dp_convert_local_vol_to_bt_vol_def
        unsigned_range_value_map_def TGT_VOLUME_LEVEL_MUTE_def TGT_VOLUME_LEVEL_MAX_def MAX_A2DP_VOL_def)
next
  case False
  then have "(16::u32) \<le> ucast v" by (simp add: word_le_nat_alt word_less_nat_alt)
  moreover from this have "\<not> (ucast v :: u32) \<le> 0" by (auto simp: word_le_nat_alt)
  ultimately have "a2dp_convert_local_vol_to_bt_vol v = 127"
    by (simp add: a2dp_convert_local_vol_to_bt_vol_def unsigned_range_value_map_def
        TGT_VOLUME_LEVEL_MUTE_def TGT_VOLUME_LEVEL_MAX_def MAX_A2DP_VOL_def)
  then show ?thesis using False
    by (auto simp: a2dp_convert_bt_vol_to_local_vol_def unsigned_range_value_map_def
        TGT_VOLUME_LEVEL_MUTE_def TGT_VOLUME_LEVEL_MAX_def MAX_A2DP_VOL_def)
qed

end
