(* ===== verification/NvTypes.thy ===== *)
theory NvTypes
  imports BesPrelude Volume
begin

text \<open>
  The data of the user-data section (\<open>nvrecord_extension.h\<close>, \<open>ble_device_info.h\<close>,
  \<open>me_common_define.h\<close>, \<open>dip_common_define.h\<close>), the state that its components share, and
  the write protocol of the RAM mirror (\<open>nv_record_pre_write_operation\<close> and
  \<open>nv_record_post_write_operation\<close> of \<open>nvrecord_extension.c\<close>). The build of
  \<open>src/build.log\<close> fixes the conditional fields: \<open>TWS_SYSTEM_ENABLED\<close> and \<open>BT_DIP_SUPPORT\<close>
  are on, \<open>GFPS_ENABLED\<close>, \<open>BISTO_ENABLED\<close>, \<open>AI_OTA\<close>, \<open>BLE_AUDIO_ENABLED\<close> and
  \<open>RAM_NV_RECORD\<close> are off.

  C arrays are lists; a pointer into the device table is an index of it.
\<close>

named_theorems nv_ops \<open>definitions of the small state updates of the mirror\<close>

section \<open>Classic Bluetooth device records\<close>

datatype bt_status_t = BT_STS_SUCCESS | BT_STS_FAILED

record btif_device_record_t =
  bdAddr :: bytes
  trusted :: bool
  for_bt_source :: bool
  linkKey :: bytes
  keyType :: u8
  pinLen :: u8
  cod :: bytes
  remote_dev_name :: bytes

record btdevice_volume =
  a2dp_vol :: u8
  hfp_vol :: u8

record btdevice_profile =
  hfp_act :: bool
  a2dp_abs_vol :: u8
  a2dp_act :: bool
  a2dp_codectype :: u8

record bt_dip_pnp_info_t =
  spec_id :: u16
  vend_id :: u16
  prod_id :: u16
  prod_ver :: u16
  prim_rec :: u8
  vend_id_source :: u16

record nvrec_btdevicerecord =
  dev_record :: btif_device_record_t
  device_vol :: btdevice_volume
  device_plf :: btdevice_profile
  pnp_info :: bt_dip_pnp_info_t

definition MAX_BT_PAIRED_DEVICE_COUNT :: nat where
  "MAX_BT_PAIRED_DEVICE_COUNT = 8"

text \<open>
  \<open>pairedDevNum\<close> is a \<open>uint32_t\<close>; under the table invariant it stays between 0 and 8, so
  its arithmetic never wraps.
\<close>

record NV_RECORD_PAIRED_BT_DEV_INFO_T =
  pairedDevNum :: nat
  pairedBtDevInfo :: "nvrec_btdevicerecord list"

text \<open>What \<open>memset(..., 0, sizeof(...))\<close> leaves.\<close>

definition zero_device_record :: btif_device_record_t where
  "zero_device_record = \<lparr>bdAddr = replicate 6 0, trusted = False, for_bt_source = False,
     linkKey = replicate 16 0, keyType = 0, pinLen = 0, cod = replicate 3 0,
     remote_dev_name = replicate 32 0\<rparr>"

definition zero_btdevicerecord :: nvrec_btdevicerecord where
  "zero_btdevicerecord = \<lparr>dev_record = zero_device_record,
     device_vol = \<lparr>a2dp_vol = 0, hfp_vol = 0\<rparr>,
     device_plf = \<lparr>hfp_act = False, a2dp_abs_vol = 0, a2dp_act = False, a2dp_codectype = 0\<rparr>,
     pnp_info = \<lparr>spec_id = 0, vend_id = 0, prod_id = 0, prod_ver = 0, prim_rec = 0,
       vend_id_source = 0\<rparr>\<rparr>"

definition zero_paired_bt_info :: NV_RECORD_PAIRED_BT_DEV_INFO_T where
  "zero_paired_bt_info = \<lparr>pairedDevNum = 0,
     pairedBtDevInfo = replicate MAX_BT_PAIRED_DEVICE_COUNT zero_btdevicerecord\<rparr>"

section \<open>BLE device records\<close>

record BLE_BASIC_INFO_T =
  ble_addr :: bytes
  ble_irk :: bytes
  ble_csrk :: bytes

record BLE_ADDR_INFO_T =
  addr :: bytes
  addr_type :: u8

text \<open>\<open>gattc_server_cache_t\<close> is one byte of eight one-bit fields.\<close>

record gattc_server_cache_t =
  server_cache_is_exist :: bool
  service_change_unaware :: bool
  gatt_client_supp_robust_caching :: bool
  gatt_client_supp_eatt_bearer :: bool
  gatt_client_supp_recv_multi_notify :: bool
  gatt_server_supp_eatt_bearer :: bool
  gatt_server_has_service_changed_char :: bool
  gatt_server_has_database_hash_char :: bool

record BleDevicePairingInfo =
  peer_addr :: BLE_ADDR_INFO_T
  bond_info_bf :: u8
  EDIV :: u16
  LOCAL_EDIV :: u16
  RANDOM :: bytes
  LTK :: bytes
  LOCAL_RANDOM :: bytes
  LOCAL_LTK :: bytes
  IRK :: bytes
  CSRK :: bytes
  enc_key_size :: u8
  server_cache :: gattc_server_cache_t

record BleDeviceinfo =
  pairingInfo :: BleDevicePairingInfo
  volume :: u8

text \<open>
  The service cache of a peer (\<open>gattc_client_cache_t\<close>, a packed struct of 566 bytes) is stored
  and copied whole; its contents stay raw bytes.
\<close>

record gattc_nv_cache_t =
  cache_seqn :: u8
  cache_peer_addr :: BLE_ADDR_INFO_T
  client_cache :: bytes

definition BLE_RECORD_NUM :: nat where
  "BLE_RECORD_NUM = 5"

definition BLE_GATT_CACHE_NUM :: nat where
  "BLE_GATT_CACHE_NUM = 1"

record NV_RECORD_PAIRED_BLE_DEV_INFO_T =
  saved_list_num :: nat
  self_info :: BLE_BASIC_INFO_T
  local_database_hash :: bytes
  ble_nv :: "BleDeviceinfo list"
  gatt_cache :: "gattc_nv_cache_t list"

definition zero_server_cache :: gattc_server_cache_t where
  "zero_server_cache = \<lparr>server_cache_is_exist = False, service_change_unaware = False,
     gatt_client_supp_robust_caching = False, gatt_client_supp_eatt_bearer = False,
     gatt_client_supp_recv_multi_notify = False, gatt_server_supp_eatt_bearer = False,
     gatt_server_has_service_changed_char = False, gatt_server_has_database_hash_char = False\<rparr>"

definition zero_pairing_info :: BleDevicePairingInfo where
  "zero_pairing_info = \<lparr>peer_addr = \<lparr>addr = replicate 6 0, addr_type = 0\<rparr>, bond_info_bf = 0,
     EDIV = 0, LOCAL_EDIV = 0, RANDOM = replicate 8 0, LTK = replicate 16 0,
     LOCAL_RANDOM = replicate 8 0, LOCAL_LTK = replicate 16 0, IRK = replicate 16 0,
     CSRK = replicate 16 0, enc_key_size = 0, server_cache = zero_server_cache\<rparr>"

definition BLE_CLIENT_CACHE_SIZE :: nat where
  "BLE_CLIENT_CACHE_SIZE = 566"

definition zero_gatt_cache :: gattc_nv_cache_t where
  "zero_gatt_cache = \<lparr>cache_seqn = 0, cache_peer_addr = \<lparr>addr = replicate 6 0, addr_type = 0\<rparr>,
     client_cache = replicate BLE_CLIENT_CACHE_SIZE 0\<rparr>"

definition zero_ble_device :: BleDeviceinfo where
  "zero_ble_device = \<lparr>pairingInfo = zero_pairing_info, volume = 0\<rparr>"

section \<open>System environment\<close>

record ibrt_mode_t =
  mode :: u32
  ibrt_record :: btif_device_record_t
  tws_connect_success :: bool
  tws_enable :: bool
  tws_side :: u8
  conn_mode :: u8
  ibrt_reserved :: u8
  tws_name_len :: u8
  tws_name :: bytes

record AI_MANAGER_INFO_T =
  voice_key_enable :: bool
  setedCurrentAi :: u8
  currentAiSpec :: u8
  aiStatusDisableFlag :: u8
  amaAssistantEnableStatus :: u8

record test_scenarios_t =
  test_type :: u8
  test_end_timeout :: u32
  tx_packet_nb :: u16

record le_rx_nonsignaling_test_t =
  rx_channel :: u8
  rx_phy :: u8
  mod_idx :: u8
  rx_test_done :: bool
  rx_test_result :: u16

record le_tx_nonsignaling_test_t =
  tx_channel :: u8
  data_len :: u8
  pkt_payload :: u8
  tx_phy :: u8

record bt_nonsignaling_test_t =
  hopping_mode :: u8
  whitening_mode :: u8
  tx_freq :: u8
  rx_freq :: u8
  power_level :: u8
  lt_addr :: u8
  edr_enabled :: u8
  packet_type :: u8
  payload_pattern :: u8
  bt_test_done :: bool
  payload_length :: u16
  bt_test_result :: u16
  hec_nb :: u16
  crc_nb :: u16
  tx_packet_num :: u32

record nvrecord_env_t =
  nvrecord_env_len :: u32
  language :: u8
  ibrt_mode :: ibrt_mode_t
  factory_tester_status :: u32
  aiManagerInfo :: AI_MANAGER_INFO_T
  factory_test_env :: test_scenarios_t
  le_rx_env :: le_rx_nonsignaling_test_t
  le_tx_env :: le_tx_nonsignaling_test_t
  bt_nonsignaling_env :: bt_nonsignaling_test_t

definition TWS_NAME_MAX_LENGTH :: nat where
  "TWS_NAME_MAX_LENGTH = 32"

definition zero_nvrecord_env :: nvrecord_env_t where
  "zero_nvrecord_env = \<lparr>nvrecord_env_len = 0, language = 0,
     ibrt_mode = \<lparr>mode = 0, ibrt_record = zero_device_record, tws_connect_success = False,
       tws_enable = False, tws_side = 0, conn_mode = 0, ibrt_reserved = 0, tws_name_len = 0,
       tws_name = replicate TWS_NAME_MAX_LENGTH 0\<rparr>,
     factory_tester_status = 0,
     aiManagerInfo = \<lparr>voice_key_enable = False, setedCurrentAi = 0, currentAiSpec = 0,
       aiStatusDisableFlag = 0, amaAssistantEnableStatus = 0\<rparr>,
     factory_test_env = \<lparr>test_type = 0, test_end_timeout = 0, tx_packet_nb = 0\<rparr>,
     le_rx_env = \<lparr>rx_channel = 0, rx_phy = 0, mod_idx = 0, rx_test_done = False, rx_test_result = 0\<rparr>,
     le_tx_env = \<lparr>tx_channel = 0, data_len = 0, pkt_payload = 0, tx_phy = 0\<rparr>,
     bt_nonsignaling_env = \<lparr>hopping_mode = 0, whitening_mode = 0, tx_freq = 0, rx_freq = 0,
       power_level = 0, lt_addr = 0, edr_enabled = 0, packet_type = 0, payload_pattern = 0,
       bt_test_done = False, payload_length = 0, bt_test_result = 0, hec_nb = 0, crc_nb = 0,
       tx_packet_num = 0\<rparr>\<rparr>"

datatype nvrec_appmode_e =
    NV_APP_EARBUDS
  | NV_APP_EARBUDS_STEREO_ONE_CIS
  | NV_APP_EARBUDS_STEREO_TWO_CIS
  | NV_APP_HEADSET_STEREO_ONE_CIS
  | NV_APP_HEADSET_STEREO_TWO_CIS
  | NV_APP_WALKIE_TALKIE

section \<open>The mirror and the shared state\<close>

record NVRECORD_HEADER_T =
  magicNumber :: u32
  majorVersion :: u16
  minorVersion :: u16
  validLen :: u32
  crc32 :: u32

text \<open>
  \<open>NV_EXTENSION_RECORD_T\<close> after its header, in the order of the struct. The calibration data
  between \<open>tws_info\<close> and \<open>sdk_reserve\<close> is kept as raw bytes in \<open>nv_rest\<close>; of \<open>sdk_reserve\<close> the
  named part is \<open>adda_test\<close> (its floats as their IEEE 754 bits), the remainder is raw bytes.
\<close>

record TOTA_ADDA_TEST_T =
  ff_gain :: u32
  fb_gain :: u32
  calib_value :: u32
  golden_flag :: bool
  calib_gain :: "u32 list"

record nv_payload =
  system_info :: nvrecord_env_t
  bt_pair_info :: NV_RECORD_PAIRED_BT_DEV_INFO_T
  bt_pair_info_cache :: NV_RECORD_PAIRED_BT_DEV_INFO_T
  ble_pair_info :: NV_RECORD_PAIRED_BLE_DEV_INFO_T
  app_mode :: nvrec_appmode_e
  tws_ble_info :: BLE_BASIC_INFO_T
  nv_rest :: bytes
  adda_test :: TOTA_ADDA_TEST_T
  sdk_rest :: bytes

datatype NV_STATE =
    NV_STATE_IDLE
  | NV_STATE_MAIN_ERASING
  | NV_STATE_MAIN_ERASED
  | NV_STATE_MAIN_WRITTING
  | NV_STATE_MAIN_WRITE_PENDING
  | NV_STATE_MAIN_WRITTEN
  | NV_STATE_MAIN_DONE
  | NV_STATE_BAK_ERASING
  | NV_STATE_BAK_ERASED
  | NV_STATE_BAK_WRITTING
  | NV_STATE_BAK_WRITE_PENDING
  | NV_STATE_BAK_WRITTEN
  | NV_STATE_BAK_DONE

record NV_FLUSH_STATE =
  is_update :: bool
  fl_state :: NV_STATE
  written_size :: nat

datatype NEW_DEVICE_CB_E =
    NEW_DEVICE_CB_MOBILE
  | NEW_DEVICE_CB_TWS
  | NEW_DEVICE_CB_ANY_DEVICE
  | NEW_DEVICE_CB_USER1

text \<open>A registered callback: the file's own default one, or one of another module.\<close>

datatype paired_cb = DefaultPairedCb | ClientPairedCb nat

text \<open>
  The static variables of \<open>nvrecord_extension.c\<close>, \<open>nvrecord_bt.c\<close> and \<open>nvrecord_ble.c\<close>.
  \<open>'f\<close> is the state of the flash driver behind \<open>norflash_api.h\<close>, which is not part of the
  sources. \<open>nvrecord_extension_p\<close> and \<open>nvrecord_ble_p\<close> are either null (\<open>False\<close>) or point
  into the mirror \<open>local_extension_data\<close>. \<open>nv_mpu_rw\<close> is the access right of the mirror set
  with \<open>mpu_set\<close>, and \<open>nv_mpu_fault\<close> records a write while it was read-only, which traps on
  the device. \<open>paired_cb_calls\<close> is the sequence of callback calls, newest last.
\<close>

record 'f nv_state =
  nv_header :: NVRECORD_HEADER_T
  nv_body :: nv_payload
  nvrecord_extension_p :: bool
  nvrecord_ble_p :: bool
  nv_mpu_rw :: bool
  nv_mpu_fault :: bool
  nv_flush_state :: NV_FLUSH_STATE
  nv_hook_active :: bool
  nvrec_init :: bool
  nv_burn_buf :: bytes
  user_data_main_start :: nat
  user_data_bak_start :: nat
  lastFlushCheckPointInMs :: u32
  new_device_paired_cb :: "NEW_DEVICE_CB_E \<Rightarrow> paired_cb option"
  LatestNewlyPairedDeviceBtAddr :: bytes
  localSystemInfo :: nvrecord_env_t
  paired_cb_calls :: "(paired_cb \<times> bytes) list"
  nv_flash :: 'f

text \<open>
  The part of the state that only the boot and flush code of \<open>nvrecord_extension.c\<close> changes: no
  function that edits the mirror touches it.
\<close>

definition nv_core :: "'f nv_state \<Rightarrow> NVRECORD_HEADER_T \<times> bytes \<times> nat \<times> nat \<times> NV_STATE \<times> nat \<times> 'f" where
  "nv_core s = (nv_header s, nv_burn_buf s, user_data_main_start s, user_data_bak_start s,
     fl_state (nv_flush_state s), written_size (nv_flush_state s), nv_flash s)"

section \<open>Writing the mirror\<close>

text \<open>
  \<open>nv_record_pre_write_operation\<close> masks interrupts and makes the mirror writable,
  \<open>nv_record_post_write_operation\<close> makes it read-only again. The interrupt lock itself is
  not modelled: each function here is one sequence of steps on the state.
\<close>

definition nv_record_pre_write_operation :: "'f nv_state \<Rightarrow> 'f nv_state" where
  [nv_ops]: "nv_record_pre_write_operation s = s\<lparr>nv_mpu_rw := True\<rparr>"

definition nv_record_post_write_operation :: "'f nv_state \<Rightarrow> 'f nv_state" where
  [nv_ops]: "nv_record_post_write_operation s = s\<lparr>nv_mpu_rw := False\<rparr>"

text \<open>A store to the mirror: it takes effect when the mirror is writable and traps otherwise.\<close>

definition nv_write :: "(nv_payload \<Rightarrow> nv_payload) \<Rightarrow> 'f nv_state \<Rightarrow> 'f nv_state" where
  [nv_ops]: "nv_write f s =
     (if nv_mpu_rw s then s\<lparr>nv_body := f (nv_body s)\<rparr> else s\<lparr>nv_mpu_fault := True\<rparr>)"

definition nv_write_header ::
    "(NVRECORD_HEADER_T \<Rightarrow> NVRECORD_HEADER_T) \<Rightarrow> 'f nv_state \<Rightarrow> 'f nv_state" where
  [nv_ops]: "nv_write_header f s =
     (if nv_mpu_rw s then s\<lparr>nv_header := f (nv_header s)\<rparr> else s\<lparr>nv_mpu_fault := True\<rparr>)"

abbreviation upd_bt :: "(NV_RECORD_PAIRED_BT_DEV_INFO_T \<Rightarrow> NV_RECORD_PAIRED_BT_DEV_INFO_T) \<Rightarrow>
    nv_payload \<Rightarrow> nv_payload" where
  "upd_bt f b \<equiv> b\<lparr>bt_pair_info := f (bt_pair_info b)\<rparr>"

abbreviation upd_env :: "(nvrecord_env_t \<Rightarrow> nvrecord_env_t) \<Rightarrow> nv_payload \<Rightarrow> nv_payload" where
  "upd_env f b \<equiv> b\<lparr>system_info := f (system_info b)\<rparr>"

abbreviation upd_ble :: "(NV_RECORD_PAIRED_BLE_DEV_INFO_T \<Rightarrow> NV_RECORD_PAIRED_BLE_DEV_INFO_T) \<Rightarrow>
    nv_payload \<Rightarrow> nv_payload" where
  "upd_ble f b \<equiv> b\<lparr>ble_pair_info := f (ble_pair_info b)\<rparr>"

text \<open>
  \<open>nv_record_extension_update\<close> marks the mirror as changed and activates the flash hook
  that flushes it in the background; the other two only call it.
\<close>

definition nv_record_extension_update :: "'f nv_state \<Rightarrow> 'f nv_state" where
  [nv_ops]: "nv_record_extension_update s =
     s\<lparr>nv_flush_state := (nv_flush_state s)\<lparr>is_update := True\<rparr>, nv_hook_active := True\<rparr>"

definition nv_record_update_runtime_userdata :: "'f nv_state \<Rightarrow> 'f nv_state" where
  [nv_ops]: "nv_record_update_runtime_userdata s = nv_record_extension_update s"

definition nv_record_touch_cause_flush :: "'f nv_state \<Rightarrow> int \<times> 'f nv_state" where
  [nv_ops]: "nv_record_touch_cause_flush s = (0, nv_record_update_runtime_userdata s)"

text \<open>The updates that leave the core alone.\<close>

lemma nv_core_upd:
  "nv_core (s\<lparr>nv_body := b\<rparr>) = nv_core s" "nv_core (s\<lparr>nv_mpu_rw := r\<rparr>) = nv_core s"
  "nv_core (s\<lparr>nv_mpu_fault := r\<rparr>) = nv_core s" "nv_core (s\<lparr>nv_hook_active := r\<rparr>) = nv_core s"
  "nv_core (s\<lparr>localSystemInfo := e\<rparr>) = nv_core s" "nv_core (s\<lparr>new_device_paired_cb := cb\<rparr>) = nv_core s"
  "nv_core (s\<lparr>nvrecord_ble_p := r\<rparr>) = nv_core s"
  "nv_core (s\<lparr>nv_flush_state := (nv_flush_state s)\<lparr>is_update := r\<rparr>\<rparr>) = nv_core s"
  "nv_core (s\<lparr>nv_flush_state := (nv_flush_state s)\<lparr>is_update := r\<rparr>, nv_hook_active := q\<rparr>) = nv_core s"
  by (simp_all add: nv_core_def)

lemma nv_core_ops [simp]:
  "nv_core (nv_record_pre_write_operation s) = nv_core s"
  "nv_core (nv_record_post_write_operation s) = nv_core s"
  "nv_core (nv_write f s) = nv_core s"
  "nv_core (nv_record_update_runtime_userdata s) = nv_core s"
  "nv_core (nv_record_extension_update s) = nv_core s"
  by (simp_all add: nv_ops nv_core_upd)

section \<open>The static variables before initialisation\<close>

definition zero_ble_basic_info :: BLE_BASIC_INFO_T where
  "zero_ble_basic_info = \<lparr>ble_addr = replicate 6 0, ble_irk = replicate 16 0, ble_csrk = replicate 16 0\<rparr>"

definition zero_ble_paired_info :: NV_RECORD_PAIRED_BLE_DEV_INFO_T where
  "zero_ble_paired_info = \<lparr>saved_list_num = 0, self_info = zero_ble_basic_info,
     local_database_hash = replicate 16 0, ble_nv = replicate BLE_RECORD_NUM zero_ble_device,
     gatt_cache = replicate BLE_GATT_CACHE_NUM zero_gatt_cache\<rparr>"

text \<open>The record with all bytes zero; the two raw parts are empty here and sized by \<open>memset\<close>.\<close>

definition zero_nv_payload :: nv_payload where
  "zero_nv_payload = \<lparr>system_info = zero_nvrecord_env, bt_pair_info = zero_paired_bt_info, bt_pair_info_cache = zero_paired_bt_info,
     ble_pair_info = zero_ble_paired_info, app_mode = NV_APP_EARBUDS, tws_ble_info = zero_ble_basic_info, nv_rest = [],
     adda_test = \<lparr>ff_gain = 0, fb_gain = 0, calib_value = 0, golden_flag = False,
       calib_gain = replicate 3 0\<rparr>, sdk_rest = []\<rparr>"

text \<open>All statics zero, as the C runtime leaves them; the callbacks as \<open>nvrecord_bt_init\<close> sets them.\<close>

definition zero_nv_state :: "'f \<Rightarrow> 'f nv_state" where
  "zero_nv_state fl = \<lparr>
     nv_header = \<lparr>magicNumber = 0, majorVersion = 0, minorVersion = 0, validLen = 0, crc32 = 0\<rparr>,
     nv_body = zero_nv_payload, nvrecord_extension_p = False, nvrecord_ble_p = False,
     nv_mpu_rw = False, nv_mpu_fault = False,
     nv_flush_state = \<lparr>is_update = False, fl_state = NV_STATE_IDLE, written_size = 0\<rparr>,
     nv_hook_active = False, nvrec_init = False, nv_burn_buf = [], user_data_main_start = 0,
     user_data_bak_start = 0, lastFlushCheckPointInMs = 0, new_device_paired_cb = (\<lambda>_. None),
     LatestNewlyPairedDeviceBtAddr = replicate 6 0,
     localSystemInfo = zero_nvrecord_env, paired_cb_calls = [], nv_flash = fl\<rparr>"

end
