(* ===== verification/NvBt.thy ===== *)
theory NvBt
  imports NvTypes RecordTable
begin

text \<open>
  The classic Bluetooth paired-device table: \<open>nvrecord_bt.c\<close> up to the factory region.
  The table is an array of eight records of which the first \<open>pairedDevNum\<close> are in use, the
  most recently paired first. \<open>bt_view\<close> is the used part and \<open>bt_invar\<close> the invariant.
  Every function that stores to the mirror is modelled with its write window
  (\<open>nv_record_pre_write_operation\<close> to \<open>nv_record_post_write_operation\<close>) and its request for a
  flush (\<open>nv_record_update_runtime_userdata\<close>).
\<close>

section \<open>Rebuilding, reading and enumerating\<close>

definition nvrecord_rebuild_paired_bt_dev_info ::
    "NV_RECORD_PAIRED_BT_DEV_INFO_T \<Rightarrow> NV_RECORD_PAIRED_BT_DEV_INFO_T" where
  "nvrecord_rebuild_paired_bt_dev_info pPairedBtInfo = zero_paired_bt_info\<lparr>pairedDevNum := 0\<rparr>"

abbreviation bt_info :: "'f nv_state \<Rightarrow> NV_RECORD_PAIRED_BT_DEV_INFO_T" where
  "bt_info s \<equiv> bt_pair_info (nv_body s)"

definition nv_record_get_paired_dev_count :: "'f nv_state \<Rightarrow> nat" where
  "nv_record_get_paired_dev_count s =
     (if \<not> nvrecord_extension_p s then 0 else pairedDevNum (bt_info s))"

text \<open>
  The two output records, with their initial values; the second component of the result is
  what they hold afterwards. A null output pointer is \<open>None\<close>.
\<close>

definition nv_record_enum_latest_two_paired_dev ::
    "btif_device_record_t option \<Rightarrow> btif_device_record_t option \<Rightarrow> 'f nv_state \<Rightarrow>
     int \<times> btif_device_record_t option \<times> btif_device_record_t option" where
  "nv_record_enum_latest_two_paired_dev record1 record2 s =
     (if record1 = None \<or> record2 = None \<or> \<not> nvrecord_extension_p s then (-1, record1, record2)
      else let arr = pairedBtDevInfo (bt_info s) in
        if 0 < pairedDevNum (bt_info s) then
          (if pairedDevNum (bt_info s) = 1 then (1, Some (dev_record (arr ! 0)), record2)
           else (2, Some (dev_record (arr ! 0)), Some (dev_record (arr ! 1))))
        else (0, record1, record2))"

text \<open>
  The loop of \<open>nv_record_get_sink_paired_dev\<close>: \<open>out\<close> is what was copied to the caller's
  buffer so far. The bound is checked after the copy.
\<close>

fun get_sink_paired_dev_loop ::
    "nvrec_btdevicerecord list \<Rightarrow> nat \<Rightarrow> btif_device_record_t list \<Rightarrow> btif_device_record_t list" where
  "get_sink_paired_dev_loop [] max_num out = out"
| "get_sink_paired_dev_loop (r # rs) max_num out =
     (let out' = (if for_bt_source (dev_record r) then out @ [dev_record r] else out) in
      if length out' \<ge> max_num then out' else get_sink_paired_dev_loop rs max_num out')"

definition nv_record_get_sink_paired_dev ::
    "bool \<Rightarrow> u8 \<Rightarrow> 'f nv_state \<Rightarrow> int \<times> btif_device_record_t list" where
  "nv_record_get_sink_paired_dev record_not_null max_num s =
     (if \<not> record_not_null \<or> \<not> nvrecord_extension_p s then (-1, [])
      else let out = get_sink_paired_dev_loop
                 (take (pairedDevNum (bt_info s)) (pairedBtDevInfo (bt_info s))) (unat max_num) []
           in (int (length out), out))"

definition nv_record_get_paired_dev_list ::
    "bool \<Rightarrow> 'f nv_state \<Rightarrow> int \<times> nvrec_btdevicerecord list option" where
  "nv_record_get_paired_dev_list record_not_null s =
     (if \<not> record_not_null \<or> \<not> nvrecord_extension_p s then (-1, None)
      else if 0 < pairedDevNum (bt_info s)
      then (int (pairedDevNum (bt_info s)), Some (pairedBtDevInfo (bt_info s)))
      else (0, None))"

text \<open>
  \<open>nv_record_enum_dev_records\<close> reads \<open>pairedDevNum\<close> through \<open>nvrecord_extension_p\<close> before it
  compares that pointer with null.
\<close>

definition nv_record_enum_dev_records ::
    "u16 \<Rightarrow> 'f nv_state \<Rightarrow> (bt_status_t \<times> btif_device_record_t option) c_result" where
  "nv_record_enum_dev_records index s =
     (if \<not> nvrecord_extension_p s then NullDeref
      else if unat index \<ge> pairedDevNum (bt_info s) then Ret (BT_STS_FAILED, None)
      else Ret (BT_STS_SUCCESS, Some (dev_record (pairedBtDevInfo (bt_info s) ! unat index))))"

text \<open>The search loop: the index of the first used entry with this address, or -1.\<close>

fun bt_index_loop :: "bytes \<Rightarrow> nvrec_btdevicerecord list \<Rightarrow> nat \<Rightarrow> int" where
  "bt_index_loop btAddr [] index = -1"
| "bt_index_loop btAddr (r # rs) index =
     (if bdAddr (dev_record r) = btAddr then int index else bt_index_loop btAddr rs (Suc index))"

definition nv_record_get_bt_pairing_info_index :: "bytes \<Rightarrow> 'f nv_state \<Rightarrow> int" where
  "nv_record_get_bt_pairing_info_index btAddr s =
     bt_index_loop btAddr (take (pairedDevNum (bt_info s)) (pairedBtDevInfo (bt_info s))) 0"

section \<open>New-device callbacks\<close>

definition nv_record_btdevice_new_device_paired_default_callback ::
    "bytes \<Rightarrow> 'f nv_state \<Rightarrow> 'f nv_state" where
  "nv_record_btdevice_new_device_paired_default_callback btAddr s =
     s\<lparr>LatestNewlyPairedDeviceBtAddr := btAddr\<rparr>"

definition nv_record_btdevice_get_latest_paired_device_bt_addr :: "'f nv_state \<Rightarrow> bytes" where
  "nv_record_btdevice_get_latest_paired_device_bt_addr s = LatestNewlyPairedDeviceBtAddr s"

definition nv_record_bt_device_register_newly_paired_device_callback ::
    "NEW_DEVICE_CB_E \<Rightarrow> paired_cb option \<Rightarrow> 'f nv_state \<Rightarrow> 'f nv_state" where
  "nv_record_bt_device_register_newly_paired_device_callback index func s =
     s\<lparr>new_device_paired_cb := (new_device_paired_cb s)(index := func)\<rparr>"

definition nvrecord_bt_init :: "'f nv_state \<Rightarrow> 'f nv_state" where
  "nvrecord_bt_init s =
     s\<lparr>new_device_paired_cb := (new_device_paired_cb s)
        (NEW_DEVICE_CB_MOBILE := None, NEW_DEVICE_CB_TWS := None,
         NEW_DEVICE_CB_ANY_DEVICE := Some DefaultPairedCb, NEW_DEVICE_CB_USER1 := None)\<rparr>"

text \<open>Calling the callback of a slot: it is logged, and the file's own callback does its work.\<close>

definition call_paired_cb :: "NEW_DEVICE_CB_E \<Rightarrow> bytes \<Rightarrow> 'f nv_state \<Rightarrow> 'f nv_state" where
  "call_paired_cb slot pBtAddr s =
     (case new_device_paired_cb s slot of
        None \<Rightarrow> s
      | Some cb \<Rightarrow>
          let s = s\<lparr>paired_cb_calls := paired_cb_calls s @ [(cb, pBtAddr)]\<rparr> in
          (case cb of
             DefaultPairedCb \<Rightarrow> nv_record_btdevice_new_device_paired_default_callback pBtAddr s
           | ClientPairedCb _ \<Rightarrow> s))"

text \<open>\<open>is_tws\<close> stands for \<open>app_ibrt_if_is_tws_addr\<close> of the binary IBRT library.\<close>

definition nv_record_bt_distribute_new_dev_paired_event ::
    "(bytes \<Rightarrow> bool) \<Rightarrow> bytes \<Rightarrow> 'f nv_state \<Rightarrow> 'f nv_state" where
  "nv_record_bt_distribute_new_dev_paired_event is_tws pBtAddr s =
     (let s = call_paired_cb NEW_DEVICE_CB_ANY_DEVICE pBtAddr s;
          s = call_paired_cb NEW_DEVICE_CB_USER1 pBtAddr s
      in if is_tws pBtAddr then call_paired_cb NEW_DEVICE_CB_TWS pBtAddr s
         else call_paired_cb NEW_DEVICE_CB_MOBILE pBtAddr s)"

section \<open>Adding, reordering and deleting\<close>

definition nv_record_pairing_info_reset :: "nvrec_btdevicerecord \<Rightarrow> nvrec_btdevicerecord" where
  "nv_record_pairing_info_reset r =
     (let default_dac_volume = hal_codec_get_default_dac_volume_index in
      r\<lparr>device_vol := (device_vol r)\<lparr>a2dp_vol := ucast default_dac_volume,
                                     hfp_vol := ucast default_dac_volume\<rparr>,
        device_plf := (device_plf r)\<lparr>hfp_act := False,
          a2dp_abs_vol := a2dp_convert_local_vol_to_bt_vol (ucast default_dac_volume),
          a2dp_act := False\<rparr>,
        pnp_info := (pnp_info r)\<lparr>vend_id := 0, vend_id_source := 0\<rparr>\<rparr>)"

text \<open>
  The branch of \<open>nv_record_ddbrec_add\<close> for an address that is not in the table: when the
  table is full the last record is dropped; the others move up by one slot and the new one
  takes slot 0 with default volumes.
\<close>

definition ddbrec_new_entry :: "btif_device_record_t \<Rightarrow> nvrec_btdevicerecord" where
  "ddbrec_new_entry param_rec =
     (let r = nv_record_pairing_info_reset (zero_btdevicerecord\<lparr>dev_record := param_rec\<rparr>) in
      r\<lparr>pnp_info := (pnp_info r)\<lparr>vend_id := 0, vend_id_source := 0\<rparr>\<rparr>)"

definition ddbrec_insert_head ::
    "btif_device_record_t \<Rightarrow> NV_RECORD_PAIRED_BT_DEV_INFO_T \<Rightarrow> NV_RECORD_PAIRED_BT_DEV_INFO_T" where
  "ddbrec_insert_head param_rec info =
     (let info =
        (if pairedDevNum info = MAX_BT_PAIRED_DEVICE_COUNT
         then info\<lparr>pairedBtDevInfo := shift_up (MAX_BT_PAIRED_DEVICE_COUNT - 1)
                     (MAX_BT_PAIRED_DEVICE_COUNT - 1) (pairedBtDevInfo info),
                   pairedDevNum := pairedDevNum info - 1\<rparr>
         else info\<lparr>pairedBtDevInfo :=
                     shift_up (pairedDevNum info) (pairedDevNum info) (pairedBtDevInfo info)\<rparr>)
      in info\<lparr>pairedBtDevInfo := (pairedBtDevInfo info)[0 := ddbrec_new_entry param_rec],
              pairedDevNum := pairedDevNum info + 1\<rparr>)"

definition ddbrec_add_new ::
    "(bytes \<Rightarrow> bool) \<Rightarrow> btif_device_record_t \<Rightarrow> 'f nv_state \<Rightarrow> bool \<times> 'f nv_state" where
  "ddbrec_add_new is_tws param_rec s =
     (let s = nv_write (upd_bt (ddbrec_insert_head param_rec)) s;
          s = (if linkKey param_rec \<noteq> replicate 16 0
               then nv_record_bt_distribute_new_dev_paired_event is_tws (bdAddr param_rec) s
               else s)
      in (True, s))"

text \<open>
  The branch for an address that is already at \<open>indexOfEntry\<close>: the record moves to the head
  and takes the new link information; when that differs from the stored one, listeners are
  told and the volumes and profile flags are reset.
\<close>

definition ddbrec_move_head ::
    "btif_device_record_t \<Rightarrow> nat \<Rightarrow> NV_RECORD_PAIRED_BT_DEV_INFO_T \<Rightarrow> NV_RECORD_PAIRED_BT_DEV_INFO_T" where
  "ddbrec_move_head param_rec indexOfEntry info =
     (let arr = pairedBtDevInfo info;
          r = arr ! indexOfEntry;
          arr = shift_up indexOfEntry indexOfEntry arr;
          arr = arr[0 := r];
          arr = arr[0 := (arr ! 0)\<lparr>dev_record := param_rec\<rparr>]
      in info\<lparr>pairedBtDevInfo := arr\<rparr>)"

definition bt_upd_entry ::
    "nat \<Rightarrow> (nvrec_btdevicerecord \<Rightarrow> nvrec_btdevicerecord) \<Rightarrow>
     NV_RECORD_PAIRED_BT_DEV_INFO_T \<Rightarrow> NV_RECORD_PAIRED_BT_DEV_INFO_T" where
  "bt_upd_entry i f info =
     info\<lparr>pairedBtDevInfo := (pairedBtDevInfo info)[i := f (pairedBtDevInfo info ! i)]\<rparr>"

definition ddbrec_add_existing ::
    "(bytes \<Rightarrow> bool) \<Rightarrow> btif_device_record_t \<Rightarrow> nat \<Rightarrow> 'f nv_state \<Rightarrow> bool \<times> 'f nv_state" where
  "ddbrec_add_existing is_tws param_rec indexOfEntry s =
     (let old = dev_record (pairedBtDevInfo (bt_info s) ! indexOfEntry);
          isRecordChanged = (old \<noteq> param_rec);
          s = (if isRecordChanged
               then nv_record_bt_distribute_new_dev_paired_event is_tws (bdAddr old) s else s);
          (isUpdateNv, s) =
            (if 0 < indexOfEntry
             then (True, nv_write (upd_bt (ddbrec_move_head param_rec indexOfEntry)) s)
             else if dev_record (pairedBtDevInfo (bt_info s) ! 0) \<noteq> param_rec
             then (True, nv_write (upd_bt (bt_upd_entry 0 (\<lambda>r. r\<lparr>dev_record := param_rec\<rparr>))) s)
             else (False, s));
          s = (if isRecordChanged
               then nv_write (upd_bt (bt_upd_entry 0 nv_record_pairing_info_reset)) s else s)
      in (isUpdateNv, s))"

definition nv_record_ddbrec_add ::
    "(bytes \<Rightarrow> bool) \<Rightarrow> btif_device_record_t option \<Rightarrow> 'f nv_state \<Rightarrow> bt_status_t \<times> 'f nv_state" where
  "nv_record_ddbrec_add is_tws param_rec s =
     (case param_rec of
        None \<Rightarrow> (BT_STS_FAILED, s)
      | Some rec \<Rightarrow>
          if \<not> nvrecord_extension_p s then (BT_STS_FAILED, s)
          else
            let s = nv_record_pre_write_operation s;
                indexOfEntry = nv_record_get_bt_pairing_info_index (bdAddr rec) s;
                (isUpdateNv, s) =
                  (if indexOfEntry = -1 then ddbrec_add_new is_tws rec s
                   else ddbrec_add_existing is_tws rec (nat indexOfEntry) s);
                s = (if isUpdateNv then nv_record_update_runtime_userdata s else s);
                s = nv_record_post_write_operation s
            in (BT_STS_SUCCESS, s))"

datatype SECTIONS_ADP_ENUM = section_usrdata_ddbrecord | section_none

definition nv_record_add ::
    "(bytes \<Rightarrow> bool) \<Rightarrow> SECTIONS_ADP_ENUM \<Rightarrow> btif_device_record_t option \<Rightarrow> 'f nv_state \<Rightarrow>
     bt_status_t \<times> 'f nv_state" where
  "nv_record_add is_tws type rec s =
     (if rec = None \<or> type = section_none then (BT_STS_FAILED, s)
      else case type of
          section_usrdata_ddbrecord \<Rightarrow> nv_record_ddbrec_add is_tws rec s
        | section_none \<Rightarrow> (BT_STS_FAILED, s))"

text \<open>
  \<open>nv_record_change_order\<close> dereferences \<open>nvrecord_extension_p\<close> before its null check. The
  record moves to \<open>target\<close>; those between the two places move by one slot.
\<close>

definition change_order_arr ::
    "nat \<Rightarrow> nat \<Rightarrow> nvrec_btdevicerecord list \<Rightarrow> nvrec_btdevicerecord list" where
  "change_order_arr cur target arr =
     (let tmp = arr ! cur;
          arr = (if cur < target then shift_down cur (target - cur) arr
                 else if target < cur then shift_up cur (cur - target) arr
                 else arr)
      in arr[target := tmp])"

definition nv_record_change_order ::
    "btif_device_record_t \<Rightarrow> u8 \<Rightarrow> 'f nv_state \<Rightarrow> (bt_status_t \<times> 'f nv_state) c_result" where
  "nv_record_change_order rec target s =
     (if \<not> nvrecord_extension_p s then NullDeref
      else if unat target \<ge> pairedDevNum (bt_info s) then Ret (BT_STS_FAILED, s)
      else
        let s = nv_record_pre_write_operation s;
            cur_index = nv_record_get_bt_pairing_info_index (bdAddr rec) s;
            arr = pairedBtDevInfo (bt_info s);
            (isNVupdate, status, s) =
              (if cur_index = -1 then (False, BT_STS_FAILED, s)
               else if arr ! unat target \<noteq> arr ! nat cur_index
               then (True, BT_STS_SUCCESS,
                     nv_write (upd_bt (\<lambda>info. info\<lparr>pairedBtDevInfo :=
                       change_order_arr (nat cur_index) (unat target) (pairedBtDevInfo info)\<rparr>)) s)
               else (False, BT_STS_FAILED, s));
            s = (if isNVupdate then nv_record_update_runtime_userdata s else s);
            s = nv_record_post_write_operation s
        in Ret (status, s))"

definition nv_record_ddbrec_find ::
    "bytes option \<Rightarrow> btif_device_record_t option \<Rightarrow> 'f nv_state \<Rightarrow>
     bt_status_t \<times> btif_device_record_t option" where
  "nv_record_ddbrec_find bd_ddr rec s =
     (case bd_ddr of
        None \<Rightarrow> (BT_STS_FAILED, rec)
      | Some a \<Rightarrow>
          if rec = None \<or> \<not> nvrecord_extension_p s then (BT_STS_FAILED, rec)
          else let indexOfEntry = nv_record_get_bt_pairing_info_index a s in
            if indexOfEntry = -1 then (BT_STS_FAILED, rec)
            else (BT_STS_SUCCESS,
                  Some (dev_record (pairedBtDevInfo (bt_info s) ! nat indexOfEntry))))"

definition nv_record_btdevicerecord_find ::
    "bytes option \<Rightarrow> bool \<Rightarrow> 'f nv_state \<Rightarrow> int \<times> nat option" where
  "nv_record_btdevicerecord_find bd_ddr record_not_null s =
     (case bd_ddr of
        None \<Rightarrow> (-1, None)
      | Some a \<Rightarrow>
          if \<not> record_not_null \<or> \<not> nvrecord_extension_p s then (-1, None)
          else let indexOfEntry = nv_record_get_bt_pairing_info_index a s in
            if indexOfEntry = -1 then (-1, None) else (0, Some (nat indexOfEntry)))"

definition nv_record_get_pnp_info ::
    "bytes \<Rightarrow> bt_dip_pnp_info_t \<Rightarrow> 'f nv_state \<Rightarrow> bool \<times> bt_dip_pnp_info_t" where
  "nv_record_get_pnp_info bd pPnpInfo s =
     (case nv_record_btdevicerecord_find (Some bd) True s of
        (ret, Some i) \<Rightarrow>
          if ret = 0 \<and> vend_id (pnp_info (pairedBtDevInfo (bt_info s) ! i)) \<noteq> 0
          then (True, pnp_info (pairedBtDevInfo (bt_info s) ! i))
          else (False, pPnpInfo\<lparr>vend_id := 0, vend_id_source := 0\<rparr>)
      | (_, None) \<Rightarrow> (False, pPnpInfo\<lparr>vend_id := 0, vend_id_source := 0\<rparr>))"

definition nv_record_ddbrec_clear :: "'f nv_state \<Rightarrow> bt_status_t \<times> 'f nv_state" where
  "nv_record_ddbrec_clear s =
     (if \<not> nvrecord_extension_p s then (BT_STS_FAILED, s)
      else let s = nv_record_pre_write_operation s;
               s = nv_write (upd_bt (\<lambda>info. info\<lparr>pairedDevNum := 0\<rparr>)) s;
               s = nv_record_update_runtime_userdata s
           in (BT_STS_SUCCESS, nv_record_post_write_operation s))"

definition ddbrec_remove_at ::
    "nat \<Rightarrow> NV_RECORD_PAIRED_BT_DEV_INFO_T \<Rightarrow> NV_RECORD_PAIRED_BT_DEV_INFO_T" where
  "ddbrec_remove_at indexOfEntry info =
     (let arr = shift_down indexOfEntry (pairedDevNum info - indexOfEntry - 1)
                  (pairedBtDevInfo info);
          arr = arr[pairedDevNum info - 1 := zero_btdevicerecord]
      in info\<lparr>pairedBtDevInfo := arr, pairedDevNum := pairedDevNum info - 1\<rparr>)"

definition nv_record_ddbrec_delete :: "bytes \<Rightarrow> 'f nv_state \<Rightarrow> bt_status_t \<times> 'f nv_state" where
  "nv_record_ddbrec_delete bdaddr s =
     (if \<not> nvrecord_extension_p s then (BT_STS_FAILED, s)
      else let indexOfEntry = nv_record_get_bt_pairing_info_index bdaddr s in
        if indexOfEntry = -1 then (BT_STS_FAILED, s)
        else let s = nv_record_pre_write_operation s;
                 s = nv_write (upd_bt (ddbrec_remove_at (nat indexOfEntry))) s;
                 s = nv_record_update_runtime_userdata s
             in (BT_STS_SUCCESS, nv_record_post_write_operation s))"

definition nv_record_ddbrec_clear_all_bt_paired_list ::
    "'f nv_state \<Rightarrow> bt_status_t \<times> 'f nv_state" where
  "nv_record_ddbrec_clear_all_bt_paired_list s =
     (if \<not> nvrecord_extension_p s then (BT_STS_FAILED, s)
      else let s = nv_record_pre_write_operation s;
               s = nv_write (upd_bt (\<lambda>info.
                     info\<lparr>pairedBtDevInfo :=
                            fold (\<lambda>k a. a[k := zero_btdevicerecord]) [0..<pairedDevNum info]
                              (pairedBtDevInfo info),
                          pairedDevNum := 0\<rparr>)) s;
               s = nv_record_update_runtime_userdata s
           in (BT_STS_SUCCESS, nv_record_post_write_operation s))"

section \<open>Setters of one record\<close>

text \<open>
  The profile-flag setters store unconditionally and request a flush only on a change; the
  volume, class-of-device and PnP setters do both only on a change. The volume arguments are
  \<open>int8_t\<close>, the stored volumes \<open>uint8_t\<close>: the comparison is on the promoted integers.
\<close>

abbreviation bt_entry :: "nat \<Rightarrow> 'f nv_state \<Rightarrow> nvrec_btdevicerecord" where
  "bt_entry i s \<equiv> pairedBtDevInfo (bt_info s) ! i"

definition bt_store :: "bool \<Rightarrow> bool \<Rightarrow> nat \<Rightarrow> (nvrec_btdevicerecord \<Rightarrow> nvrec_btdevicerecord) \<Rightarrow>
    'f nv_state \<Rightarrow> 'f nv_state" where
  "bt_store changed always i f s =
     (let s = nv_record_pre_write_operation s;
          s = (if changed then nv_record_update_runtime_userdata s else s);
          s = (if changed \<or> always then nv_write (upd_bt (bt_upd_entry i f)) s else s)
      in nv_record_post_write_operation s)"

definition nv_record_btdevicerecord_set_a2dp_profile_active_state ::
    "nat \<Rightarrow> bool \<Rightarrow> 'f nv_state \<Rightarrow> 'f nv_state" where
  "nv_record_btdevicerecord_set_a2dp_profile_active_state i isActive s =
     bt_store (isActive \<noteq> a2dp_act (device_plf (bt_entry i s))) True i
       (\<lambda>r. r\<lparr>device_plf := (device_plf r)\<lparr>a2dp_act := isActive\<rparr>\<rparr>) s"

definition nv_record_btdevicerecord_set_hfp_profile_active_state ::
    "nat \<Rightarrow> bool \<Rightarrow> 'f nv_state \<Rightarrow> 'f nv_state" where
  "nv_record_btdevicerecord_set_hfp_profile_active_state i isActive s =
     bt_store (isActive \<noteq> hfp_act (device_plf (bt_entry i s))) True i
       (\<lambda>r. r\<lparr>device_plf := (device_plf r)\<lparr>hfp_act := isActive\<rparr>\<rparr>) s"

definition nv_record_btdevicerecord_set_a2dp_profile_codec ::
    "nat \<Rightarrow> u8 \<Rightarrow> 'f nv_state \<Rightarrow> 'f nv_state" where
  "nv_record_btdevicerecord_set_a2dp_profile_codec i a2dpCodec s =
     bt_store (a2dpCodec \<noteq> a2dp_codectype (device_plf (bt_entry i s))) True i
       (\<lambda>r. r\<lparr>device_plf := (device_plf r)\<lparr>a2dp_codectype := a2dpCodec\<rparr>\<rparr>) s"

definition nv_record_btdevicerecord_update_dev_cod :: "nat \<Rightarrow> bytes \<Rightarrow> 'f nv_state \<Rightarrow> 'f nv_state" where
  "nv_record_btdevicerecord_update_dev_cod i new_cod s =
     bt_store (cod (dev_record (bt_entry i s)) \<noteq> new_cod) False i
       (\<lambda>r. r\<lparr>dev_record := (dev_record r)\<lparr>cod := new_cod\<rparr>\<rparr>) s"

definition nv_record_btdevicerecord_set_a2dp_vol :: "nat \<Rightarrow> u8 \<Rightarrow> 'f nv_state \<Rightarrow> 'f nv_state" where
  "nv_record_btdevicerecord_set_a2dp_vol i vol s =
     bt_store (sint vol \<noteq> uint (a2dp_vol (device_vol (bt_entry i s)))) False i
       (\<lambda>r. r\<lparr>device_vol := (device_vol r)\<lparr>a2dp_vol := vol\<rparr>\<rparr>) s"

definition nv_record_btdevicerecord_set_a2dp_abs_vol :: "nat \<Rightarrow> u8 \<Rightarrow> 'f nv_state \<Rightarrow> 'f nv_state" where
  "nv_record_btdevicerecord_set_a2dp_abs_vol i vol s =
     bt_store (sint vol \<noteq> uint (a2dp_abs_vol (device_plf (bt_entry i s)))) False i
       (\<lambda>r. r\<lparr>device_plf := (device_plf r)\<lparr>a2dp_abs_vol := vol\<rparr>\<rparr>) s"

definition nv_record_btdevicerecord_set_hfp_vol :: "nat \<Rightarrow> u8 \<Rightarrow> 'f nv_state \<Rightarrow> 'f nv_state" where
  "nv_record_btdevicerecord_set_hfp_vol i vol s =
     bt_store (sint vol \<noteq> uint (hfp_vol (device_vol (bt_entry i s)))) False i
       (\<lambda>r. r\<lparr>device_vol := (device_vol r)\<lparr>hfp_vol := vol\<rparr>\<rparr>) s"

text \<open>The same two stores, called with a pointer to the volume pair of a record.\<close>

definition nv_record_btdevicevolume_set_a2dp_vol :: "nat \<Rightarrow> u8 \<Rightarrow> 'f nv_state \<Rightarrow> 'f nv_state" where
  "nv_record_btdevicevolume_set_a2dp_vol i vol s =
     bt_store (sint vol \<noteq> uint (a2dp_vol (device_vol (bt_entry i s)))) False i
       (\<lambda>r. r\<lparr>device_vol := (device_vol r)\<lparr>a2dp_vol := vol\<rparr>\<rparr>) s"

definition nv_record_btdevicevolume_set_hfp_vol :: "nat \<Rightarrow> u8 \<Rightarrow> 'f nv_state \<Rightarrow> 'f nv_state" where
  "nv_record_btdevicevolume_set_hfp_vol i vol s =
     bt_store (sint vol \<noteq> uint (hfp_vol (device_vol (bt_entry i s)))) False i
       (\<lambda>r. r\<lparr>device_vol := (device_vol r)\<lparr>hfp_vol := vol\<rparr>\<rparr>) s"

definition nv_record_btdevicerecord_set_pnp_info ::
    "nat \<Rightarrow> bt_dip_pnp_info_t \<Rightarrow> 'f nv_state \<Rightarrow> 'f nv_state" where
  "nv_record_btdevicerecord_set_pnp_info i pPnpInfo s =
     bt_store (vend_id pPnpInfo \<noteq> vend_id (pnp_info (bt_entry i s))) False i
       (\<lambda>r. r\<lparr>pnp_info := pPnpInfo\<rparr>) s"

section \<open>Stashing the table\<close>

definition nv_record_stash_original_bt_record :: "'f nv_state \<Rightarrow> bt_status_t \<times> 'f nv_state" where
  "nv_record_stash_original_bt_record s =
     (if \<not> nvrecord_extension_p s then (BT_STS_FAILED, s)
      else let s = nv_record_pre_write_operation s;
               s = nv_write (\<lambda>b. b\<lparr>bt_pair_info_cache := bt_pair_info b\<rparr>) s;
               s = nv_write (\<lambda>b. b\<lparr>bt_pair_info := zero_paired_bt_info\<rparr>) s;
               s = nv_record_update_runtime_userdata s
           in (BT_STS_SUCCESS, nv_record_post_write_operation s))"

definition nv_record_pop_original_bt_record :: "'f nv_state \<Rightarrow> bt_status_t \<times> 'f nv_state" where
  "nv_record_pop_original_bt_record s =
     (if \<not> nvrecord_extension_p s then (BT_STS_FAILED, s)
      else let s = nv_record_pre_write_operation s;
               s = nv_write (\<lambda>b. b\<lparr>bt_pair_info := bt_pair_info_cache b\<rparr>) s;
               s = nv_record_update_runtime_userdata s
           in (BT_STS_SUCCESS, nv_record_post_write_operation s))"

section \<open>Invariant and lookup\<close>

definition bt_used :: "NV_RECORD_PAIRED_BT_DEV_INFO_T \<Rightarrow> nvrec_btdevicerecord list" where
  "bt_used info = take (pairedDevNum info) (pairedBtDevInfo info)"

abbreviation bt_key :: "nvrec_btdevicerecord \<Rightarrow> bytes" where
  "bt_key r \<equiv> bdAddr (dev_record r)"

definition bt_view :: "'f nv_state \<Rightarrow> nvrec_btdevicerecord list" where
  "bt_view s = bt_used (bt_info s)"

definition bt_info_ok :: "NV_RECORD_PAIRED_BT_DEV_INFO_T \<Rightarrow> bool" where
  "bt_info_ok info \<longleftrightarrow>
     length (pairedBtDevInfo info) = MAX_BT_PAIRED_DEVICE_COUNT \<and>
     pairedDevNum info \<le> MAX_BT_PAIRED_DEVICE_COUNT \<and> distinct (map bt_key (bt_used info))"

definition bt_invar :: "'f nv_state \<Rightarrow> bool" where
  "bt_invar s \<longleftrightarrow> nvrecord_extension_p s \<and> \<not> nv_mpu_fault s \<and> bt_info_ok (bt_info s)"

lemmas bt_inv_defs = bt_invar_def bt_info_ok_def bt_used_def bt_view_def

lemma MAX_BT_pos [simp]: "0 < MAX_BT_PAIRED_DEVICE_COUNT"
  by (simp add: MAX_BT_PAIRED_DEVICE_COUNT_def)

lemma bt_index_loop_absent:
  "a \<notin> bt_key ` set rs \<Longrightarrow> bt_index_loop a rs i = -1"
  by (induction rs arbitrary: i) auto

lemma bt_index_loop_present:
  "a \<in> bt_key ` set rs \<Longrightarrow>
     \<exists>j < length rs. bt_index_loop a rs i = int (i + j) \<and> bt_key (rs ! j) = a"
proof (induction rs arbitrary: i)
  case Nil
  then show ?case by simp
next
  case (Cons r rs)
  show ?case
  proof (cases "bt_key r = a")
    case True
    then show ?thesis by (intro exI [of _ 0]) simp
  next
    case False
    with Cons.prems have "a \<in> bt_key ` set rs" by auto
    from Cons.IH [OF this, of "Suc i"] obtain j where
      "j < length rs" "bt_index_loop a rs (Suc i) = int (Suc i + j)" "bt_key (rs ! j) = a" by blast
    with False show ?thesis by (intro exI [of _ "Suc j"]) simp
  qed
qed

lemma bt_index_absent:
  "a \<notin> bt_key ` set (bt_view s) \<Longrightarrow> nv_record_get_bt_pairing_info_index a s = -1"
  by (simp add: nv_record_get_bt_pairing_info_index_def bt_view_def bt_used_def bt_index_loop_absent)

lemma bt_index_present:
  assumes "a \<in> bt_key ` set (bt_view s)"
  obtains j where "j < length (bt_view s)"
    and "nv_record_get_bt_pairing_info_index a s = int j" and "bt_key (bt_view s ! j) = a"
  using bt_index_loop_present [of a "bt_view s" 0] assms
  by (auto simp: nv_record_get_bt_pairing_info_index_def bt_view_def bt_used_def)

lemma bt_index_cases:
  "nv_record_get_bt_pairing_info_index a s = -1 \<and> a \<notin> bt_key ` set (bt_view s) \<or>
   (\<exists>j < length (bt_view s). nv_record_get_bt_pairing_info_index a s = int j \<and>
      bt_key (bt_view s ! j) = a)"
  by (metis bt_index_absent bt_index_present)

text \<open>The index depends on the table only.\<close>

lemma bt_index_cong:
  "bt_info s = bt_info t \<Longrightarrow>
     nv_record_get_bt_pairing_info_index a s = nv_record_get_bt_pairing_info_index a t"
  by (simp add: nv_record_get_bt_pairing_info_index_def)

section \<open>What the table operations do to the used part\<close>

lemma bt_key_reset [simp]: "dev_record (nv_record_pairing_info_reset r) = dev_record r"
  by (simp add: nv_record_pairing_info_reset_def Let_def)

lemma bt_key_new_entry [simp]: "dev_record (ddbrec_new_entry rec) = rec"
  by (simp add: ddbrec_new_entry_def Let_def)

lemma insert_head_used:
  assumes "bt_info_ok info"
  shows "bt_used (ddbrec_insert_head rec info) =
           ddbrec_new_entry rec # take (MAX_BT_PAIRED_DEVICE_COUNT - 1) (bt_used info)"
    and "length (pairedBtDevInfo (ddbrec_insert_head rec info)) = MAX_BT_PAIRED_DEVICE_COUNT"
    and "pairedDevNum (ddbrec_insert_head rec info) \<le> MAX_BT_PAIRED_DEVICE_COUNT"
proof -
  let ?a = "pairedBtDevInfo info" and ?n = "pairedDevNum info"
  have ok: "length ?a = 8" "?n \<le> 8"
    using assms by (auto simp: bt_info_ok_def MAX_BT_PAIRED_DEVICE_COUNT_def)
  show "bt_used (ddbrec_insert_head rec info) =
      ddbrec_new_entry rec # take (MAX_BT_PAIRED_DEVICE_COUNT - 1) (bt_used info)"
  proof (cases "?n = 8")
    case True
    with ok table_open [of 7 ?a "ddbrec_new_entry rec"] show ?thesis
      by (simp add: ddbrec_insert_head_def bt_used_def Let_def MAX_BT_PAIRED_DEVICE_COUNT_def)
  next
    case False
    with ok table_open [of ?n ?a "ddbrec_new_entry rec"] show ?thesis
      by (simp add: ddbrec_insert_head_def bt_used_def Let_def MAX_BT_PAIRED_DEVICE_COUNT_def
          min_absorb1 min_absorb2)
  qed
  show "length (pairedBtDevInfo (ddbrec_insert_head rec info)) = MAX_BT_PAIRED_DEVICE_COUNT"
    and "pairedDevNum (ddbrec_insert_head rec info) \<le> MAX_BT_PAIRED_DEVICE_COUNT"
    using ok by (simp_all add: ddbrec_insert_head_def Let_def MAX_BT_PAIRED_DEVICE_COUNT_def)
qed

lemma move_head_used:
  assumes "bt_info_ok info" and "i < length (bt_used info)"
  shows "bt_used (ddbrec_move_head rec i info) =
           (bt_used info ! i)\<lparr>dev_record := rec\<rparr> # drop_nth i (bt_used info)"
    and "length (pairedBtDevInfo (ddbrec_move_head rec i info)) = MAX_BT_PAIRED_DEVICE_COUNT"
    and "pairedDevNum (ddbrec_move_head rec i info) = pairedDevNum info"
proof -
  let ?a = "pairedBtDevInfo info" and ?n = "pairedDevNum info"
  have i: "i < ?n" "?n \<le> length ?a" "length ?a = MAX_BT_PAIRED_DEVICE_COUNT"
    using assms by (auto simp: bt_info_ok_def bt_used_def)
  then have 0: "0 < length (shift_up i i ?a)" by simp
  show "bt_used (ddbrec_move_head rec i info) =
      (bt_used info ! i)\<lparr>dev_record := rec\<rparr> # drop_nth i (bt_used info)"
    using table_move [OF i(1,2), of "(?a ! i)\<lparr>dev_record := rec\<rparr>"] i 0
    by (simp add: ddbrec_move_head_def bt_used_def Let_def)
  show "length (pairedBtDevInfo (ddbrec_move_head rec i info)) = MAX_BT_PAIRED_DEVICE_COUNT"
    and "pairedDevNum (ddbrec_move_head rec i info) = pairedDevNum info"
    using i by (simp_all add: ddbrec_move_head_def Let_def)
qed

lemma remove_at_used:
  assumes "bt_info_ok info" and "i < length (bt_used info)"
  shows "bt_used (ddbrec_remove_at i info) = drop_nth i (bt_used info)"
    and "length (pairedBtDevInfo (ddbrec_remove_at i info)) = MAX_BT_PAIRED_DEVICE_COUNT"
    and "pairedDevNum (ddbrec_remove_at i info) = pairedDevNum info - 1"
proof -
  let ?a = "pairedBtDevInfo info" and ?n = "pairedDevNum info"
  have i: "i < ?n" "?n \<le> length ?a" "length ?a = MAX_BT_PAIRED_DEVICE_COUNT"
    using assms by (auto simp: bt_info_ok_def bt_used_def)
  show "bt_used (ddbrec_remove_at i info) = drop_nth i (bt_used info)"
    using table_close [OF i(1,2)] by (simp add: ddbrec_remove_at_def bt_used_def Let_def)
  show "length (pairedBtDevInfo (ddbrec_remove_at i info)) = MAX_BT_PAIRED_DEVICE_COUNT"
    and "pairedDevNum (ddbrec_remove_at i info) = ?n - 1"
    using i by (simp_all add: ddbrec_remove_at_def Let_def)
qed

lemma upd_entry0_used:
  "bt_used info = r # rs \<Longrightarrow> bt_used (bt_upd_entry 0 f info) = f r # rs"
  by (cases "pairedBtDevInfo info"; cases "pairedDevNum info") (auto simp: bt_used_def bt_upd_entry_def)

lemma upd_entry_shape [simp]:
  "length (pairedBtDevInfo (bt_upd_entry i f info)) = length (pairedBtDevInfo info)"
  "pairedDevNum (bt_upd_entry i f info) = pairedDevNum info"
  by (simp_all add: bt_upd_entry_def)

lemma upd_entry_keys:
  assumes "\<And>r. bt_key (f r) = bt_key r"
  shows "map bt_key (bt_used (bt_upd_entry i f info)) = map bt_key (bt_used info)"
proof (cases "i < length (pairedBtDevInfo info)")
  case True
  then show ?thesis
    by (intro nth_equalityI) (auto simp: bt_used_def bt_upd_entry_def nth_list_update assms)
next
  case False
  then show ?thesis by (simp add: bt_upd_entry_def bt_used_def list_update_beyond)
qed

section \<open>Frame of the callbacks\<close>

lemma call_paired_cb_frame [simp]:
  "nv_body (call_paired_cb slot a s) = nv_body s"
  "nvrecord_extension_p (call_paired_cb slot a s) = nvrecord_extension_p s"
  "nv_mpu_rw (call_paired_cb slot a s) = nv_mpu_rw s"
  "nv_mpu_fault (call_paired_cb slot a s) = nv_mpu_fault s"
  "nv_flush_state (call_paired_cb slot a s) = nv_flush_state s"
  "nv_flash (call_paired_cb slot a s) = nv_flash s"
  by (simp_all add: call_paired_cb_def nv_record_btdevice_new_device_paired_default_callback_def
      Let_def split: option.splits paired_cb.splits)

lemma call_paired_cb_hook [simp]:
  "nv_hook_active (call_paired_cb slot a s) = nv_hook_active s"
  "nv_core (call_paired_cb slot a s) = nv_core s"
  by (simp_all add: nv_core_def call_paired_cb_def nv_record_btdevice_new_device_paired_default_callback_def
      Let_def split: option.splits paired_cb.splits)

lemma distribute_frame [simp]:
  "nv_hook_active (nv_record_bt_distribute_new_dev_paired_event t a s) = nv_hook_active s"
  "nv_core (nv_record_bt_distribute_new_dev_paired_event t a s) = nv_core s"
  "nv_body (nv_record_bt_distribute_new_dev_paired_event t a s) = nv_body s"
  "nvrecord_extension_p (nv_record_bt_distribute_new_dev_paired_event t a s) = nvrecord_extension_p s"
  "nv_mpu_rw (nv_record_bt_distribute_new_dev_paired_event t a s) = nv_mpu_rw s"
  "nv_mpu_fault (nv_record_bt_distribute_new_dev_paired_event t a s) = nv_mpu_fault s"
  "nv_flush_state (nv_record_bt_distribute_new_dev_paired_event t a s) = nv_flush_state s"
  "nv_flash (nv_record_bt_distribute_new_dev_paired_event t a s) = nv_flash s"
  by (simp_all add: nv_record_bt_distribute_new_dev_paired_event_def Let_def)

section \<open>Adding a record\<close>

text \<open>
  The entry that \<open>nv_record_ddbrec_add\<close> leaves at the head: a fresh one for an unknown
  address, the stored one when the link information is unchanged, and otherwise the stored
  one with the new link information and reset volumes. The defaults are written out: local volume 16
  for music and calls, 127 for the absolute volume of the profile, profiles inactive, no vendor.
\<close>

definition ddbrec_entry_after ::
    "btif_device_record_t \<Rightarrow> nvrec_btdevicerecord option \<Rightarrow> nvrec_btdevicerecord" where
  "ddbrec_entry_after rec old =
     (case old of
        None \<Rightarrow> \<lparr>dev_record = rec, device_vol = \<lparr>a2dp_vol = 16, hfp_vol = 16\<rparr>,
          device_plf = \<lparr>hfp_act = False, a2dp_abs_vol = 127, a2dp_act = False, a2dp_codectype = 0\<rparr>,
          pnp_info = \<lparr>spec_id = 0, vend_id = 0, prod_id = 0, prod_ver = 0, prim_rec = 0, vend_id_source = 0\<rparr>\<rparr>
      | Some r \<Rightarrow>
          if dev_record r = rec then r
          else r\<lparr>dev_record := rec, device_vol := \<lparr>a2dp_vol = 16, hfp_vol = 16\<rparr>,
            device_plf := (device_plf r)\<lparr>hfp_act := False, a2dp_abs_vol := 127, a2dp_act := False\<rparr>,
            pnp_info := (pnp_info r)\<lparr>vend_id := 0, vend_id_source := 0\<rparr>\<rparr>)"

lemma pairing_info_reset_values:
  "nv_record_pairing_info_reset r =
     r\<lparr>device_vol := \<lparr>a2dp_vol = 16, hfp_vol = 16\<rparr>,
       device_plf := (device_plf r)\<lparr>hfp_act := False, a2dp_abs_vol := 127, a2dp_act := False\<rparr>,
       pnp_info := (pnp_info r)\<lparr>vend_id := 0, vend_id_source := 0\<rparr>\<rparr>"
  by (cases "device_vol r") (simp add: nv_record_pairing_info_reset_def hal_codec_get_default_dac_volume_index_def
      a2dp_convert_local_vol_to_bt_vol_def unsigned_range_value_map_def TGT_VOLUME_LEVEL_MUTE_def
      TGT_VOLUME_LEVEL_MAX_def MAX_A2DP_VOL_def AUDIO_OUTPUT_VOLUME_DEFAULT_def)

lemma new_entry_after: "ddbrec_new_entry rec = ddbrec_entry_after rec None"
  by (simp add: ddbrec_new_entry_def pairing_info_reset_values zero_btdevicerecord_def ddbrec_entry_after_def)

lemma dev_record_entry_after [simp]: "dev_record (ddbrec_entry_after rec old) = rec"
  by (simp add: ddbrec_entry_after_def split: option.split)

lemma find_key:
  "j < length rs \<Longrightarrow> distinct (map bt_key rs) \<Longrightarrow> find (\<lambda>r. bt_key r = bt_key (rs ! j)) rs = Some (rs ! j)"
proof (induction rs arbitrary: j)
  case Nil
  then show ?case by simp
next
  case (Cons r rs)
  show ?case
  proof (cases j)
    case 0
    then show ?thesis by simp
  next
    case (Suc i)
    with Cons.prems have "bt_key r \<noteq> bt_key (rs ! i)" by (metis Suc_less_eq distinct.simps(2)
        length_Cons length_map list.simps(9) nth_map nth_mem)
    with Suc Cons show ?thesis by simp
  qed
qed

lemma ddbrec_add_new_used:
  assumes "bt_info_ok info" and "bdAddr rec \<notin> bt_key ` set (bt_used info)"
  shows "bt_used (ddbrec_insert_head rec info) =
      ddbrec_entry_after rec (find (\<lambda>r. bt_key r = bdAddr rec) (bt_used info)) #
        take (MAX_BT_PAIRED_DEVICE_COUNT - 1) (filter (\<lambda>r. bt_key r \<noteq> bdAddr rec) (bt_used info))"
proof -
  have "find (\<lambda>r. bt_key r = bdAddr rec) (bt_used info) = None"
    using assms(2) by (force simp: find_None_iff)
  then show ?thesis
    using insert_head_used(1) [OF assms(1)] assms(2)
    by (simp add: new_entry_after filter_absent)
qed

text \<open>The table after the branch for a known address, as \<open>ddbrec_add_existing\<close> builds it.\<close>

definition ddbrec_existing_info ::
    "btif_device_record_t \<Rightarrow> nat \<Rightarrow> NV_RECORD_PAIRED_BT_DEV_INFO_T \<Rightarrow> NV_RECORD_PAIRED_BT_DEV_INFO_T" where
  "ddbrec_existing_info rec i info =
     (let changed = (dev_record (pairedBtDevInfo info ! i) \<noteq> rec);
          info = (if 0 < i then ddbrec_move_head rec i info
                  else if changed then bt_upd_entry 0 (\<lambda>r. r\<lparr>dev_record := rec\<rparr>) info else info)
      in if changed then bt_upd_entry 0 nv_record_pairing_info_reset info else info)"

lemma ddbrec_existing_used:
  assumes ok: "bt_info_ok info" and i: "i < length (bt_used info)"
    and k: "bt_key (bt_used info ! i) = bdAddr rec"
  shows "bt_used (ddbrec_existing_info rec i info) =
      ddbrec_entry_after rec (find (\<lambda>r. bt_key r = bdAddr rec) (bt_used info)) #
        take (MAX_BT_PAIRED_DEVICE_COUNT - 1) (filter (\<lambda>r. bt_key r \<noteq> bdAddr rec) (bt_used info))"
    and "length (pairedBtDevInfo (ddbrec_existing_info rec i info)) = MAX_BT_PAIRED_DEVICE_COUNT"
    and "pairedDevNum (ddbrec_existing_info rec i info) = pairedDevNum info"
proof -
  let ?r = "bt_used info ! i"
  have d: "distinct (map bt_key (bt_used info))" and len: "length (bt_used info) \<le> MAX_BT_PAIRED_DEVICE_COUNT"
    using ok by (auto simp: bt_info_ok_def bt_used_def)
  have f: "find (\<lambda>r. bt_key r = bdAddr rec) (bt_used info) = Some ?r"
    using find_key [OF i d] k by simp
  have rest: "take (MAX_BT_PAIRED_DEVICE_COUNT - 1) (filter (\<lambda>r. bt_key r \<noteq> bdAddr rec) (bt_used info))
      = drop_nth i (bt_used info)"
    using drop_nth_filter [OF i d] length_drop_nth [OF i] len k by simp
  have r: "pairedBtDevInfo info ! i = ?r" using i by (simp add: bt_used_def)
  show "bt_used (ddbrec_existing_info rec i info) =
      ddbrec_entry_after rec (find (\<lambda>r. bt_key r = bdAddr rec) (bt_used info)) #
        take (MAX_BT_PAIRED_DEVICE_COUNT - 1) (filter (\<lambda>r. bt_key r \<noteq> bdAddr rec) (bt_used info))"
  proof (cases "0 < i")
    case True
    note m = move_head_used(1) [OF ok i, of rec]
    show ?thesis
      using True f rest r m upd_entry0_used [OF m]
      by (auto simp: ddbrec_existing_info_def Let_def ddbrec_entry_after_def pairing_info_reset_values)
  next
    case False
    then have u: "bt_used info = ?r # drop_nth i (bt_used info)"
      using i by (cases "bt_used info") auto
    show ?thesis
      using False f rest r u upd_entry0_used [OF u] upd_entry0_used [OF upd_entry0_used [OF u]]
      by (auto simp: ddbrec_existing_info_def Let_def ddbrec_entry_after_def pairing_info_reset_values)
  qed
  show "length (pairedBtDevInfo (ddbrec_existing_info rec i info)) = MAX_BT_PAIRED_DEVICE_COUNT"
    and "pairedDevNum (ddbrec_existing_info rec i info) = pairedDevNum info"
    using ok move_head_used(2,3) [OF ok i, of rec]
    by (simp_all add: ddbrec_existing_info_def Let_def bt_info_ok_def)
qed

text \<open>The two branches on a writable mirror, and the whole function in terms of its branch.\<close>

lemma ddbrec_add_new_frame:
  assumes "nv_mpu_rw s"
  shows "nv_body (snd (ddbrec_add_new t rec s)) = upd_bt (ddbrec_insert_head rec) (nv_body s)"
    and "nvrecord_extension_p (snd (ddbrec_add_new t rec s)) = nvrecord_extension_p s"
    and "nv_mpu_fault (snd (ddbrec_add_new t rec s)) = nv_mpu_fault s"
    and "nv_flash (snd (ddbrec_add_new t rec s)) = nv_flash s"
    and "nv_flush_state (snd (ddbrec_add_new t rec s)) = nv_flush_state s"
    and "nv_hook_active (snd (ddbrec_add_new t rec s)) = nv_hook_active s"
    and "fst (ddbrec_add_new t rec s)"
    and "nv_core (snd (ddbrec_add_new t rec s)) = nv_core s"
  using assms by (simp_all add: ddbrec_add_new_def nv_write_def Let_def nv_core_upd)

lemma ddbrec_add_existing_frame:
  assumes "nv_mpu_rw s"
  shows "nv_body (snd (ddbrec_add_existing t rec i s)) = upd_bt (ddbrec_existing_info rec i) (nv_body s)"
    and "nvrecord_extension_p (snd (ddbrec_add_existing t rec i s)) = nvrecord_extension_p s"
    and "nv_mpu_fault (snd (ddbrec_add_existing t rec i s)) = nv_mpu_fault s"
    and "nv_flash (snd (ddbrec_add_existing t rec i s)) = nv_flash s"
    and "nv_flush_state (snd (ddbrec_add_existing t rec i s)) = nv_flush_state s"
    and "nv_hook_active (snd (ddbrec_add_existing t rec i s)) = nv_hook_active s"
    and "fst (ddbrec_add_existing t rec i s) = (0 < i \<or> dev_record (bt_entry 0 s) \<noteq> rec)"
    and "nv_core (snd (ddbrec_add_existing t rec i s)) = nv_core s"
  using assms
  by (cases "dev_record (bt_entry i s) = rec"; cases "i = 0";
      simp add: ddbrec_add_existing_def ddbrec_existing_info_def nv_write_def Let_def nv_core_upd)+

definition ddbrec_add_branch ::
    "(bytes \<Rightarrow> bool) \<Rightarrow> btif_device_record_t \<Rightarrow> 'f nv_state \<Rightarrow> bool \<times> 'f nv_state" where
  "ddbrec_add_branch is_tws rec s =
     (if nv_record_get_bt_pairing_info_index (bdAddr rec) s = -1
      then ddbrec_add_new is_tws rec (nv_record_pre_write_operation s)
      else ddbrec_add_existing is_tws rec (nat (nv_record_get_bt_pairing_info_index (bdAddr rec) s))
             (nv_record_pre_write_operation s))"

lemma ddbrec_add_unfold:
  assumes "nvrecord_extension_p s"
  shows "nv_record_ddbrec_add t (Some rec) s =
    (BT_STS_SUCCESS, nv_record_post_write_operation
      (if fst (ddbrec_add_branch t rec s)
       then nv_record_update_runtime_userdata (snd (ddbrec_add_branch t rec s))
       else snd (ddbrec_add_branch t rec s)))"
proof -
  have "nv_record_get_bt_pairing_info_index a (nv_record_pre_write_operation s) =
      nv_record_get_bt_pairing_info_index a s" for a
    by (rule bt_index_cong) (simp add: nv_ops)
  then show ?thesis using assms
    by (simp add: nv_record_ddbrec_add_def ddbrec_add_branch_def Let_def case_prod_beta)
qed

text \<open>Whether \<open>nv_record_ddbrec_add\<close> asks for a flush: it does unless the first record is the same.\<close>

definition ddbrec_add_updates :: "btif_device_record_t \<Rightarrow> 'f nv_state \<Rightarrow> bool" where
  "ddbrec_add_updates rec s \<longleftrightarrow>
     nv_record_get_bt_pairing_info_index (bdAddr rec) s = -1 \<or>
     0 < nat (nv_record_get_bt_pairing_info_index (bdAddr rec) s) \<or>
     dev_record (bt_entry 0 s) \<noteq> rec"

lemma ddbrec_add_branch_frame:
  shows "nv_body (snd (ddbrec_add_branch t rec s)) = upd_bt
       (if nv_record_get_bt_pairing_info_index (bdAddr rec) s = -1 then ddbrec_insert_head rec
        else ddbrec_existing_info rec (nat (nv_record_get_bt_pairing_info_index (bdAddr rec) s)))
       (nv_body s)"
    and "nvrecord_extension_p (snd (ddbrec_add_branch t rec s)) = nvrecord_extension_p s"
    and "nv_mpu_fault (snd (ddbrec_add_branch t rec s)) = nv_mpu_fault s"
    and "nv_flash (snd (ddbrec_add_branch t rec s)) = nv_flash s"
    and "nv_flush_state (snd (ddbrec_add_branch t rec s)) = nv_flush_state s"
    and "nv_hook_active (snd (ddbrec_add_branch t rec s)) = nv_hook_active s"
    and "fst (ddbrec_add_branch t rec s) = ddbrec_add_updates rec s"
    and "nv_core (snd (ddbrec_add_branch t rec s)) = nv_core s"
  by (simp_all add: ddbrec_add_branch_def ddbrec_add_new_frame ddbrec_add_existing_frame
      ddbrec_add_updates_def nv_record_pre_write_operation_def nv_core_upd)

lemma ddbrec_add_state:
  assumes "nvrecord_extension_p s"
  shows "nv_body (snd (nv_record_ddbrec_add t (Some rec) s)) = upd_bt
       (if nv_record_get_bt_pairing_info_index (bdAddr rec) s = -1 then ddbrec_insert_head rec
        else ddbrec_existing_info rec (nat (nv_record_get_bt_pairing_info_index (bdAddr rec) s)))
       (nv_body s)"
    and "nvrecord_extension_p (snd (nv_record_ddbrec_add t (Some rec) s))"
    and "nv_mpu_fault (snd (nv_record_ddbrec_add t (Some rec) s)) = nv_mpu_fault s"
    and "\<not> nv_mpu_rw (snd (nv_record_ddbrec_add t (Some rec) s))"
    and "nv_flash (snd (nv_record_ddbrec_add t (Some rec) s)) = nv_flash s"
    and "fst (nv_record_ddbrec_add t (Some rec) s) = BT_STS_SUCCESS"
    and "nv_flush_state (snd (nv_record_ddbrec_add t (Some rec) s)) =
      (if ddbrec_add_updates rec s then (nv_flush_state s)\<lparr>is_update := True\<rparr> else nv_flush_state s)"
    and "nv_hook_active (snd (nv_record_ddbrec_add t (Some rec) s)) =
      (ddbrec_add_updates rec s \<or> nv_hook_active s)"
  using assms
  by (simp_all add: ddbrec_add_unfold ddbrec_add_branch_frame nv_ops)

lemma ddbrec_add_core:
  "nvrecord_extension_p s \<Longrightarrow> nv_core (snd (nv_record_ddbrec_add t (Some rec) s)) = nv_core s"
  by (simp add: ddbrec_add_unfold ddbrec_add_branch_frame)

lemma ddbrec_add_view:
  assumes "bt_invar s"
  shows "bt_view (snd (nv_record_ddbrec_add t (Some rec) s)) =
      ddbrec_entry_after rec (find (\<lambda>r. bt_key r = bdAddr rec) (bt_view s)) #
        take (MAX_BT_PAIRED_DEVICE_COUNT - 1) (filter (\<lambda>r. bt_key r \<noteq> bdAddr rec) (bt_view s))"
    and "length (pairedBtDevInfo (bt_info (snd (nv_record_ddbrec_add t (Some rec) s)))) =
      MAX_BT_PAIRED_DEVICE_COUNT"
    and "pairedDevNum (bt_info (snd (nv_record_ddbrec_add t (Some rec) s))) \<le>
      MAX_BT_PAIRED_DEVICE_COUNT"
proof -
  have ok: "bt_info_ok (bt_info s)" and p: "nvrecord_extension_p s"
    using assms by (auto simp: bt_invar_def)
  note add = ddbrec_add_state(1) [OF p, of t rec]
  consider (new) "nv_record_get_bt_pairing_info_index (bdAddr rec) s = -1"
      "bdAddr rec \<notin> bt_key ` set (bt_view s)"
    | (old) j where "j < length (bt_view s)" "bt_key (bt_view s ! j) = bdAddr rec"
      "nv_record_get_bt_pairing_info_index (bdAddr rec) s = int j"
    using bt_index_cases [of "bdAddr rec" s] by blast
  then have "bt_view (snd (nv_record_ddbrec_add t (Some rec) s)) =
      ddbrec_entry_after rec (find (\<lambda>r. bt_key r = bdAddr rec) (bt_view s)) #
        take (MAX_BT_PAIRED_DEVICE_COUNT - 1) (filter (\<lambda>r. bt_key r \<noteq> bdAddr rec) (bt_view s)) \<and>
      length (pairedBtDevInfo (bt_info (snd (nv_record_ddbrec_add t (Some rec) s)))) =
        MAX_BT_PAIRED_DEVICE_COUNT \<and>
      pairedDevNum (bt_info (snd (nv_record_ddbrec_add t (Some rec) s))) \<le>
        MAX_BT_PAIRED_DEVICE_COUNT"
  proof cases
    case new
    then show ?thesis
      using add ddbrec_add_new_used [OF ok] insert_head_used(2,3) [OF ok] by (simp add: bt_view_def)
  next
    case old
    then have "j < length (bt_used (bt_info s))" "bt_key (bt_used (bt_info s) ! j) = bdAddr rec"
      by (simp_all add: bt_view_def)
    from ddbrec_existing_used [OF ok this] show ?thesis
      using old add ok by (simp add: bt_view_def bt_info_ok_def)
  qed
  then show "bt_view (snd (nv_record_ddbrec_add t (Some rec) s)) =
      ddbrec_entry_after rec (find (\<lambda>r. bt_key r = bdAddr rec) (bt_view s)) #
        take (MAX_BT_PAIRED_DEVICE_COUNT - 1) (filter (\<lambda>r. bt_key r \<noteq> bdAddr rec) (bt_view s))"
    and "length (pairedBtDevInfo (bt_info (snd (nv_record_ddbrec_add t (Some rec) s)))) =
      MAX_BT_PAIRED_DEVICE_COUNT"
    and "pairedDevNum (bt_info (snd (nv_record_ddbrec_add t (Some rec) s))) \<le>
      MAX_BT_PAIRED_DEVICE_COUNT"
    by auto
qed

section \<open>Deleting a record\<close>

lemma ddbrec_delete_absent:
  "a \<notin> bt_key ` set (bt_view s) \<Longrightarrow> nv_record_ddbrec_delete a s = (BT_STS_FAILED, s)"
  by (simp add: nv_record_ddbrec_delete_def bt_index_absent)

lemma ddbrec_delete_present:
  assumes "bt_invar s" and "a \<in> bt_key ` set (bt_view s)"
  shows "fst (nv_record_ddbrec_delete a s) = BT_STS_SUCCESS"
    and "bt_view (snd (nv_record_ddbrec_delete a s)) = filter (\<lambda>r. bt_key r \<noteq> a) (bt_view s)"
    and "bt_invar (snd (nv_record_ddbrec_delete a s))"
    and "is_update (nv_flush_state (snd (nv_record_ddbrec_delete a s)))"
proof -
  have ok: "bt_info_ok (bt_info s)" and p: "nvrecord_extension_p s" "\<not> nv_mpu_fault s"
    using assms(1) by (auto simp: bt_invar_def)
  obtain j where j: "j < length (bt_view s)" "bt_key (bt_view s ! j) = a"
      "nv_record_get_bt_pairing_info_index a s = int j"
    using bt_index_present [OF assms(2)] by blast
  then have ju: "j < length (bt_used (bt_info s))" by (simp add: bt_view_def)
  have d: "distinct (map bt_key (bt_used (bt_info s)))" using ok by (simp add: bt_info_ok_def)
  have s': "bt_info (snd (nv_record_ddbrec_delete a s)) = ddbrec_remove_at j (bt_info s)"
    using j p by (simp add: nv_record_ddbrec_delete_def nv_ops Let_def)
  have u: "bt_used (ddbrec_remove_at j (bt_info s)) = filter (\<lambda>r. bt_key r \<noteq> a) (bt_used (bt_info s))"
    using remove_at_used(1) [OF ok ju] drop_nth_filter [OF ju d] j by (simp add: bt_view_def)
  show "fst (nv_record_ddbrec_delete a s) = BT_STS_SUCCESS"
    and "is_update (nv_flush_state (snd (nv_record_ddbrec_delete a s)))"
    using j p by (simp_all add: nv_record_ddbrec_delete_def nv_ops Let_def)
  show "bt_view (snd (nv_record_ddbrec_delete a s)) = filter (\<lambda>r. bt_key r \<noteq> a) (bt_view s)"
    using s' u by (simp add: bt_view_def)
  have "bt_info_ok (ddbrec_remove_at j (bt_info s))"
    using ok u remove_at_used(2,3) [OF ok ju] d
    by (auto simp: bt_info_ok_def distinct_map_filter intro: le_trans [OF diff_le_self])
  moreover have "nvrecord_extension_p (snd (nv_record_ddbrec_delete a s))"
    "\<not> nv_mpu_fault (snd (nv_record_ddbrec_delete a s))"
    using j p by (simp_all add: nv_record_ddbrec_delete_def nv_ops Let_def)
  ultimately show "bt_invar (snd (nv_record_ddbrec_delete a s))"
    using s' by (simp add: bt_invar_def)
qed

lemma ddbrec_delete_view:
  assumes "bt_invar s"
  shows "bt_view (snd (nv_record_ddbrec_delete a s)) = filter (\<lambda>r. bt_key r \<noteq> a) (bt_view s)"
    and "bt_invar (snd (nv_record_ddbrec_delete a s))"
  using assms ddbrec_delete_absent [of a s] ddbrec_delete_present [OF assms, of a]
  by (cases "a \<in> bt_key ` set (bt_view s)"; simp add: filter_absent)+

section \<open>The table keeps the contract\<close>

lemma bt_invar_add:
  assumes "bt_invar s"
  shows "bt_invar (snd (nv_record_ddbrec_add t (Some rec) s))"
proof -
  have p: "nvrecord_extension_p s" "\<not> nv_mpu_fault s" and d: "distinct (map bt_key (bt_view s))"
    using assms by (auto simp: bt_inv_defs)
  have "distinct (map bt_key (bt_view (snd (nv_record_ddbrec_add t (Some rec) s))))"
    using ddbrec_add_view(1) [OF assms] d
    by (auto simp: distinct_map_take distinct_map_filter dest: in_set_takeD)
  then show ?thesis
    using ddbrec_add_view(2,3) [OF assms] ddbrec_add_state [OF p(1)] p
    by (simp add: bt_invar_def bt_info_ok_def bt_view_def)
qed

lemma bt_add_none: "nv_record_ddbrec_add t None s = (BT_STS_FAILED, s)"
  by (simp add: nv_record_ddbrec_add_def)

interpretation bt: mru_table bt_key bdAddr MAX_BT_PAIRED_DEVICE_COUNT bt_view bt_invar
  "\<lambda>rec s. snd (nv_record_ddbrec_add t (Some rec) s)" "\<lambda>a s. snd (nv_record_ddbrec_delete a s)"
proof
  fix s :: "'a nv_state" and rec a
  show "0 < MAX_BT_PAIRED_DEVICE_COUNT" by simp
  assume inv: "bt_invar s"
  then show "distinct (map bt_key (bt_view s))" "length (bt_view s) \<le> MAX_BT_PAIRED_DEVICE_COUNT"
    by (auto simp: bt_inv_defs)
  show "bt_invar (snd (nv_record_ddbrec_add t (Some rec) s))" by (rule bt_invar_add [OF inv])
  show "map bt_key (bt_view (snd (nv_record_ddbrec_add t (Some rec) s))) =
      mru_touch MAX_BT_PAIRED_DEVICE_COUNT (bdAddr rec) (map bt_key (bt_view s))"
    by (simp add: ddbrec_add_view(1) [OF inv] mru_touch_def filter_map o_def take_map)
  show "bt_invar (snd (nv_record_ddbrec_delete a s))"
    "bt_view (snd (nv_record_ddbrec_delete a s)) = filter (\<lambda>r. bt_key r \<noteq> a) (bt_view s)"
    by (rule ddbrec_delete_view [OF inv])+
qed simp

section \<open>Lookup\<close>

lemma ddbrec_find_view:
  assumes "nvrecord_extension_p s" and "distinct (map bt_key (bt_view s))"
  shows "nv_record_ddbrec_find (Some a) (Some out) s =
    (case find (\<lambda>r. bt_key r = a) (bt_view s) of
       None \<Rightarrow> (BT_STS_FAILED, Some out) | Some r \<Rightarrow> (BT_STS_SUCCESS, Some (dev_record r)))"
proof (cases "a \<in> bt_key ` set (bt_view s)")
  case True
  then obtain j where j: "j < length (bt_view s)" "bt_key (bt_view s ! j) = a"
      "nv_record_get_bt_pairing_info_index a s = int j"
    using bt_index_present by blast
  have "pairedBtDevInfo (bt_info s) ! j = bt_view s ! j"
    using j(1) by (simp add: bt_view_def bt_used_def)
  then show ?thesis
    using j assms(1) find_key [OF j(1) assms(2)] by (simp add: nv_record_ddbrec_find_def Let_def)
next
  case False
  then have "find (\<lambda>r. bt_key r = a) (bt_view s) = None" by (force simp: find_None_iff)
  with False show ?thesis
    by (simp add: nv_record_ddbrec_find_def Let_def bt_index_absent)
qed

lemma find_filter_other: "a \<noteq> b \<Longrightarrow>
    find (\<lambda>r. bt_key r = a) (filter (\<lambda>r. bt_key r \<noteq> b) rs) = find (\<lambda>r. bt_key r = a) rs"
  by (induction rs) auto

end
