(* ===== verification/NvBtSafety.thy ===== *)
theory NvBtSafety
  imports NvBt "HOL-Library.Multiset"
begin

text \<open>
  The paired-device table over time: the step relation of all functions of \<open>nvrecord_bt.c\<close>
  that change the mirror, the invariant of its reachable states, and the properties of the
  single operations that the rest of the firmware relies on.
\<close>

section \<open>The operations as steps\<close>

text \<open>
  A step is one call, with any arguments. The record setters get a pointer into the table,
  here its index, which a caller obtained from \<open>nv_record_btdevicerecord_find\<close>, possibly
  before other calls moved the records: any index of the array is allowed.
\<close>

inductive bt_edit :: "'f nv_state \<Rightarrow> 'f nv_state \<Rightarrow> bool" where
  add: "bt_edit s (snd (nv_record_ddbrec_add is_tws rec s))"
| add_section: "bt_edit s (snd (nv_record_add is_tws sec rec s))"
| change_order: "nv_record_change_order rec target s = Ret (st, s') \<Longrightarrow> bt_edit s s'"
| delete: "bt_edit s (snd (nv_record_ddbrec_delete a s))"
| clear: "bt_edit s (snd (nv_record_ddbrec_clear s))"
| clear_all: "bt_edit s (snd (nv_record_ddbrec_clear_all_bt_paired_list s))"
| pop: "bt_edit s (snd (nv_record_pop_original_bt_record s))"
| register: "bt_edit s (nv_record_bt_device_register_newly_paired_device_callback slot cb s)"
| bt_init: "bt_edit s (nvrecord_bt_init s)"
| set_a2dp_act: "i < MAX_BT_PAIRED_DEVICE_COUNT \<Longrightarrow>
    bt_edit s (nv_record_btdevicerecord_set_a2dp_profile_active_state i on s)"
| set_hfp_act: "i < MAX_BT_PAIRED_DEVICE_COUNT \<Longrightarrow>
    bt_edit s (nv_record_btdevicerecord_set_hfp_profile_active_state i on s)"
| set_codec: "i < MAX_BT_PAIRED_DEVICE_COUNT \<Longrightarrow>
    bt_edit s (nv_record_btdevicerecord_set_a2dp_profile_codec i c s)"
| update_cod: "i < MAX_BT_PAIRED_DEVICE_COUNT \<Longrightarrow>
    bt_edit s (nv_record_btdevicerecord_update_dev_cod i new_cod s)"
| set_a2dp_vol: "i < MAX_BT_PAIRED_DEVICE_COUNT \<Longrightarrow>
    bt_edit s (nv_record_btdevicerecord_set_a2dp_vol i v s)"
| set_a2dp_abs_vol: "i < MAX_BT_PAIRED_DEVICE_COUNT \<Longrightarrow>
    bt_edit s (nv_record_btdevicerecord_set_a2dp_abs_vol i v s)"
| set_hfp_vol: "i < MAX_BT_PAIRED_DEVICE_COUNT \<Longrightarrow>
    bt_edit s (nv_record_btdevicerecord_set_hfp_vol i v s)"
| volume_set_a2dp: "i < MAX_BT_PAIRED_DEVICE_COUNT \<Longrightarrow>
    bt_edit s (nv_record_btdevicevolume_set_a2dp_vol i v s)"
| volume_set_hfp: "i < MAX_BT_PAIRED_DEVICE_COUNT \<Longrightarrow>
    bt_edit s (nv_record_btdevicevolume_set_hfp_vol i v s)"
| set_pnp: "i < MAX_BT_PAIRED_DEVICE_COUNT \<Longrightarrow>
    bt_edit s (nv_record_btdevicerecord_set_pnp_info i pnp s)"

text \<open>Every call except the stashing of the table is an edit.\<close>

inductive bt_step :: "'f nv_state \<Rightarrow> 'f nv_state \<Rightarrow> bool" where
  edit: "bt_edit s s' \<Longrightarrow> bt_step s s'"
| stash: "bt_step s (snd (nv_record_stash_original_bt_record s))"

inductive bt_reach :: "'f nv_state \<Rightarrow> 'f nv_state \<Rightarrow> bool" for s0 where
  init: "bt_reach s0 s0"
| step: "bt_reach s0 s \<Longrightarrow> bt_step s s' \<Longrightarrow> bt_reach s0 s'"

text \<open>
  Between calls: both tables are well formed, the mirror is read-only and no store was made
  outside a write window.
\<close>

definition bt_safe :: "'f nv_state \<Rightarrow> bool" where
  "bt_safe s \<longleftrightarrow>
     bt_invar s \<and> \<not> nv_mpu_rw s \<and> bt_info_ok (bt_pair_info_cache (nv_body s))"

text \<open>A step that kept the mirror, or left it marked for a flush.\<close>

definition bt_tracked :: "'f nv_state \<Rightarrow> 'f nv_state \<Rightarrow> bool" where
  "bt_tracked s s' \<longleftrightarrow>
     nv_core s' = nv_core s \<and>
     (is_update (nv_flush_state s) \<longrightarrow> is_update (nv_flush_state s')) \<and>
     (nv_hook_active s \<longrightarrow> nv_hook_active s') \<and>
     (nv_body s' = nv_body s \<or> is_update (nv_flush_state s') \<and> nv_hook_active s')"

lemmas bt_safe_defs = bt_safe_def bt_invar_def bt_info_ok_def

lemma bt_tracked_refl [simp]: "bt_tracked s s"
  by (simp add: bt_tracked_def nv_core_def)

lemma bt_info_ok_zero [simp]: "bt_info_ok zero_paired_bt_info"
  by (simp add: bt_info_ok_def zero_paired_bt_info_def bt_used_def)

section \<open>Setters\<close>

lemma bt_upd_entry_ok:
  "bt_info_ok info \<Longrightarrow> (\<And>r. bt_key (f r) = bt_key r) \<Longrightarrow> bt_info_ok (bt_upd_entry i f info)"
  by (simp add: bt_info_ok_def upd_entry_keys)

lemma bt_upd_entry_id:
  "f (pairedBtDevInfo info ! i) = pairedBtDevInfo info ! i \<Longrightarrow> bt_upd_entry i f info = info"
  by (simp add: bt_upd_entry_def)

lemma bt_store_safe:
  "bt_safe s \<Longrightarrow> (\<And>r. bt_key (f r) = bt_key r) \<Longrightarrow> bt_safe (bt_store c al i f s)"
  by (auto simp: bt_safe_def bt_invar_def bt_store_def nv_ops Let_def bt_upd_entry_ok)

lemma bt_store_tracked:
  "c \<or> f (bt_entry i s) = bt_entry i s \<Longrightarrow> bt_tracked s (bt_store c al i f s)"
  by (auto simp: bt_tracked_def nv_core_def bt_store_def nv_ops Let_def bt_upd_entry_id)

lemmas bt_setter_defs =
  nv_record_btdevicerecord_set_a2dp_profile_active_state_def
  nv_record_btdevicerecord_set_hfp_profile_active_state_def
  nv_record_btdevicerecord_set_a2dp_profile_codec_def
  nv_record_btdevicerecord_update_dev_cod_def
  nv_record_btdevicerecord_set_a2dp_vol_def nv_record_btdevicerecord_set_a2dp_abs_vol_def
  nv_record_btdevicerecord_set_hfp_vol_def nv_record_btdevicevolume_set_a2dp_vol_def
  nv_record_btdevicevolume_set_hfp_vol_def nv_record_btdevicerecord_set_pnp_info_def

lemma bt_store_unchanged [simp]: "bt_tracked s (bt_store False False i f s)"
  by (simp add: bt_tracked_def nv_core_def bt_store_def nv_ops Let_def)

section \<open>Moving a record to another place\<close>

text \<open>The specification of \<open>nv_record_change_order\<close>: element \<open>c\<close> is taken out and put back at \<open>t\<close>.\<close>

definition list_move :: "nat \<Rightarrow> nat \<Rightarrow> 'a list \<Rightarrow> 'a list" where
  "list_move c t xs = take t (drop_nth c xs) @ xs ! c # drop t (drop_nth c xs)"

lemma nth_drop_nth:
  "c < length xs \<Longrightarrow> i < length xs - 1 \<Longrightarrow> drop_nth c xs ! i = (if i < c then xs ! i else xs ! Suc i)"
  by (auto simp: drop_nth_def nth_append)

lemma length_list_move [simp]:
  "c < length xs \<Longrightarrow> t < length xs \<Longrightarrow> length (list_move c t xs) = length xs"
  by (auto simp: list_move_def length_drop_nth)

lemma nth_list_move:
  assumes "c < length xs" and "t < length xs" and "i < length xs"
  shows "list_move c t xs ! i =
    (if i = t then xs ! c else if c \<le> i \<and> i < t then xs ! Suc i
     else if t < i \<and> i \<le> c then xs ! (i - 1) else xs ! i)"
proof -
  consider "i < t" | "i = t" | "t < i" by linarith
  then show ?thesis
  proof cases
    case 1
    then show ?thesis using assms by (auto simp: list_move_def nth_append length_drop_nth nth_drop_nth)
  next
    case 2
    then show ?thesis using assms by (simp add: list_move_def nth_append length_drop_nth)
  next
    case 3
    then obtain j where "i = Suc j" "t \<le> j" by (cases i) auto
    then show ?thesis using assms
      by (auto simp: list_move_def nth_append length_drop_nth nth_drop_nth min_absorb1 Suc_diff_le)
  qed
qed

lemma mset_drop_nth: "c < length xs \<Longrightarrow> add_mset (xs ! c) (mset (drop_nth c xs)) = mset xs"
  by (metis Cons_nth_drop_Suc append_take_drop_id drop_nth_def mset.simps(2) mset_append
      union_mset_add_mset_right)

lemma mset_take_drop: "mset (take t xs) + mset (drop t xs) = mset xs"
  by (metis append_take_drop_id mset_append)

lemma mset_list_move: "c < length xs \<Longrightarrow> mset (list_move c t xs) = mset xs"
  by (simp add: list_move_def mset_take_drop mset_drop_nth)

lemma change_order_arr_take:
  assumes "c < n" and "t < n" and "n \<le> length a"
  shows "take n (change_order_arr c t a) = list_move c t (take n a)"
proof (rule nth_equalityI)
  show "length (take n (change_order_arr c t a)) = length (list_move c t (take n a))"
    using assms by (simp add: change_order_arr_def Let_def)
next
  fix i
  assume "i < length (take n (change_order_arr c t a))"
  with assms show "take n (change_order_arr c t a) ! i = list_move c t (take n a) ! i"
    by (auto simp: change_order_arr_def Let_def nth_list_move nth_list_update nth_shift_down
        nth_shift_up)
qed

lemma length_change_order_arr [simp]: "length (change_order_arr c t a) = length a"
  by (simp add: change_order_arr_def Let_def)

lemma change_order_info_ok:
  assumes ok: "bt_info_ok info" and c: "c < length (bt_used info)" and t: "t < pairedDevNum info"
  shows "bt_used (info\<lparr>pairedBtDevInfo := change_order_arr c t (pairedBtDevInfo info)\<rparr>) =
           list_move c t (bt_used info)"
    and "bt_info_ok (info\<lparr>pairedBtDevInfo := change_order_arr c t (pairedBtDevInfo info)\<rparr>)"
proof -
  let ?info = "info\<lparr>pairedBtDevInfo := change_order_arr c t (pairedBtDevInfo info)\<rparr>"
  show u: "bt_used ?info = list_move c t (bt_used info)"
    using assms change_order_arr_take [of c "pairedDevNum info" t "pairedBtDevInfo info"]
    by (auto simp: bt_used_def bt_info_ok_def)
  have "mset (map bt_key (bt_used ?info)) = mset (map bt_key (bt_used info))"
    using u mset_list_move [OF c, of t] by (metis mset_map)
  then have "distinct (map bt_key (bt_used ?info))"
    using ok by (metis bt_info_ok_def mset_eq_imp_distinct_iff)
  then show "bt_info_ok ?info" using ok by (simp add: bt_info_ok_def)
qed

lemma change_order_cases [consumes 2, case_names refused moved]:
  assumes inv: "bt_invar s" and res: "nv_record_change_order rec target s = Ret (st, s')"
  obtains (refused) "st = BT_STS_FAILED" "nv_body s' = nv_body s" "bt_tracked s s'"
      "nvrecord_extension_p s'" "nv_mpu_fault s' = nv_mpu_fault s" "nv_mpu_rw s \<or> \<not> nv_mpu_rw s'"
      "unat target < length (bt_view s) \<longrightarrow> bdAddr rec \<in> bt_key ` set (bt_view s) \<longrightarrow>
         bt_key (bt_view s ! unat target) = bdAddr rec"
  | (moved) c where "st = BT_STS_SUCCESS" "c < length (bt_view s)" "unat target < length (bt_view s)"
      "bt_key (bt_view s ! c) = bdAddr rec" "bt_tracked s s'"
      "nv_body s' = upd_bt (\<lambda>info. info\<lparr>pairedBtDevInfo :=
         change_order_arr c (unat target) (pairedBtDevInfo info)\<rparr>) (nv_body s)"
      "nvrecord_extension_p s'" "nv_mpu_fault s' = nv_mpu_fault s" "\<not> nv_mpu_rw s'"
      "is_update (nv_flush_state s')"
proof -
  have p: "nvrecord_extension_p s" and len: "length (bt_view s) = pairedDevNum (bt_info s)"
    using inv by (auto simp: bt_inv_defs)
  consider (range) "unat target \<ge> pairedDevNum (bt_info s)"
    | (absent) "unat target < pairedDevNum (bt_info s)"
      "nv_record_get_bt_pairing_info_index (bdAddr rec) s = -1" "bdAddr rec \<notin> bt_key ` set (bt_view s)"
    | (found) c where "unat target < pairedDevNum (bt_info s)" "c < length (bt_view s)"
      "bt_key (bt_view s ! c) = bdAddr rec" "nv_record_get_bt_pairing_info_index (bdAddr rec) s = int c"
    using bt_index_cases [of "bdAddr rec" s] by fastforce
  then show thesis
  proof cases
    case range
    then show ?thesis using refused res p len by (auto simp: nv_record_change_order_def)
  next
    case absent
    have "nv_record_get_bt_pairing_info_index (bdAddr rec) (nv_record_pre_write_operation s) = -1"
      using absent(2) bt_index_cong [of "nv_record_pre_write_operation s" s] by (simp add: nv_ops)
    then show ?thesis using refused res p absent
      by (auto simp: nv_record_change_order_def nv_ops Let_def bt_tracked_def nv_core_def)
  next
    case found
    have ix: "nv_record_get_bt_pairing_info_index (bdAddr rec) (nv_record_pre_write_operation s) = int c"
      using found(4) bt_index_cong [of "nv_record_pre_write_operation s" s] by (simp add: nv_ops)
    have nth: "bt_entry c s = bt_view s ! c" "bt_entry (unat target) s = bt_view s ! unat target"
      using found by (auto simp: bt_view_def bt_used_def)
    show ?thesis
    proof (cases "bt_entry (unat target) s = bt_entry c s")
      case True
      then show ?thesis using refused res p found ix nth
        by (auto simp: nv_record_change_order_def nv_ops Let_def bt_tracked_def nv_core_def)
    next
      case False
      then show ?thesis using moved [of c] res p found ix len
        by (auto simp: nv_record_change_order_def nv_ops Let_def bt_tracked_def nv_core_def)
    qed
  qed
qed

text \<open>A device that is at the target already is refused.\<close>

lemma change_order_same:
  assumes "bt_invar s" and "unat target < length (bt_view s)"
    and "bt_key (bt_view s ! unat target) = bdAddr rec"
  shows "nv_record_change_order rec target s \<noteq> Ret (BT_STS_SUCCESS, s')"
proof -
  have p: "nvrecord_extension_p s" and d: "distinct (map bt_key (bt_view s))"
    using assms(1) by (auto simp: bt_invar_def bt_info_ok_def bt_view_def)
  have "bdAddr rec \<in> bt_key ` set (bt_view s)"
    by (rule image_eqI [of _ _ "bt_view s ! unat target"]) (simp_all add: assms(2,3))
  then obtain j where j: "j < length (bt_view s)" "bt_key (bt_view s ! j) = bdAddr rec"
      "nv_record_get_bt_pairing_info_index (bdAddr rec) s = int j"
    using bt_index_present by blast
  have "j = unat target"
    using nth_eq_iff_index_eq [OF d, of j "unat target"] j assms(2,3) by simp
  moreover have "nv_record_get_bt_pairing_info_index (bdAddr rec) (nv_record_pre_write_operation s) = int j"
    using j(3) bt_index_cong [of "nv_record_pre_write_operation s" s] by (simp add: nv_ops)
  ultimately show ?thesis
    using p by (auto simp: nv_record_change_order_def nv_ops Let_def)
qed

section \<open>Every step keeps the invariant and tracks changes\<close>

lemma ddbrec_add_unchanged:
  "nvrecord_extension_p s \<Longrightarrow> \<not> ddbrec_add_updates rec s \<Longrightarrow>
     nv_body (snd (nv_record_ddbrec_add t (Some rec) s)) = nv_body s"
  by (simp add: ddbrec_add_state(1) ddbrec_add_updates_def ddbrec_existing_info_def Let_def)

lemma ddbrec_add_tracked: "bt_tracked s (snd (nv_record_ddbrec_add t rec s))"
proof (cases "rec = None \<or> \<not> nvrecord_extension_p s")
  case True
  then show ?thesis by (cases rec) (auto simp: nv_record_ddbrec_add_def)
next
  case False
  then obtain r where "rec = Some r" "nvrecord_extension_p s" by auto
  then show ?thesis
    using ddbrec_add_unchanged [of s r t] by (auto simp: bt_tracked_def ddbrec_add_state(7,8) ddbrec_add_core)
qed

lemma ddbrec_add_safe: "bt_safe s \<Longrightarrow> bt_safe (snd (nv_record_ddbrec_add t rec s))"
proof (cases rec)
  case None
  assume "bt_safe s"
  then show ?thesis using None by (simp add: bt_add_none)
next
  case (Some r)
  assume s: "bt_safe s"
  then have "nvrecord_extension_p s" by (simp add: bt_safe_def bt_invar_def)
  from Some s bt_invar_add [of s t r] ddbrec_add_state [OF this, of t r] show ?thesis
    by (auto simp: bt_safe_def)
qed

lemma nv_record_add_cases:
  "nv_record_add t sec rec s = (BT_STS_FAILED, s) \<or> nv_record_add t sec rec s = nv_record_ddbrec_add t rec s"
  by (cases sec) (auto simp: nv_record_add_def)

lemma ddbrec_delete_safe:
  "bt_safe s \<Longrightarrow> bt_safe (snd (nv_record_ddbrec_delete a s)) \<and> bt_tracked s (snd (nv_record_ddbrec_delete a s))"
  using ddbrec_delete_view(2) [of s a]
  by (auto simp: bt_safe_def bt_tracked_def nv_core_def nv_record_ddbrec_delete_def nv_ops Let_def split: if_splits)

lemma change_order_safe:
  assumes "bt_safe s" and "nv_record_change_order rec target s = Ret (st, s')"
  shows "bt_safe s' \<and> bt_tracked s s'"
proof -
  have inv: "bt_invar s" and ok: "bt_info_ok (bt_info s)" using assms(1) by (auto simp: bt_safe_def bt_invar_def)
  from inv assms(2) show ?thesis
  proof (cases rule: change_order_cases)
    case refused
    then show ?thesis using assms(1) by (auto simp: bt_safe_def bt_invar_def)
  next
    case (moved c)
    have "c < length (bt_used (bt_info s))" "unat target < pairedDevNum (bt_info s)"
      using moved by (auto simp: bt_view_def bt_used_def)
    from change_order_info_ok(2) [OF ok this] show ?thesis
      using moved assms(1) by (simp add: bt_safe_def bt_invar_def)
  qed
qed

lemma length_clear_fold [simp]: "length (fold (\<lambda>k a. a[k := z]) ks xs) = length xs"
  by (induction ks arbitrary: xs) auto

lemma bt_whole_table_safe:
  assumes "bt_safe s"
  shows "bt_safe (snd (nv_record_ddbrec_clear s)) \<and> bt_tracked s (snd (nv_record_ddbrec_clear s))"
    and "bt_safe (snd (nv_record_ddbrec_clear_all_bt_paired_list s)) \<and>
         bt_tracked s (snd (nv_record_ddbrec_clear_all_bt_paired_list s))"
    and "bt_safe (snd (nv_record_stash_original_bt_record s)) \<and>
         bt_tracked s (snd (nv_record_stash_original_bt_record s))"
    and "bt_safe (snd (nv_record_pop_original_bt_record s)) \<and>
         bt_tracked s (snd (nv_record_pop_original_bt_record s))"
  using assms
  by (auto simp: nv_record_ddbrec_clear_def nv_record_ddbrec_clear_all_bt_paired_list_def
      nv_record_stash_original_bt_record_def nv_record_pop_original_bt_record_def
      bt_safe_def bt_invar_def bt_tracked_def nv_core_def bt_info_ok_def bt_used_def nv_ops Let_def
      zero_paired_bt_info_def)

lemma bt_store_tracked_always:
  "(\<not> c \<Longrightarrow> f (bt_entry i s) = bt_entry i s) \<Longrightarrow> bt_tracked s (bt_store c True i f s)"
  by (rule bt_store_tracked) blast

lemma bt_store_tracked_changed: "bt_tracked s (bt_store c False i f s)"
  by (cases c) (simp_all add: bt_store_tracked)

lemma profile_setters_tracked:
  "bt_tracked s (nv_record_btdevicerecord_set_a2dp_profile_active_state i on s)"
  "bt_tracked s (nv_record_btdevicerecord_set_hfp_profile_active_state i on s)"
  "bt_tracked s (nv_record_btdevicerecord_set_a2dp_profile_codec i c s)"
  unfolding bt_setter_defs by (rule bt_store_tracked_always, simp)+

lemma bt_callbacks_safe:
  "bt_safe s \<Longrightarrow> bt_safe (nv_record_bt_device_register_newly_paired_device_callback slot cb s)"
  "bt_tracked s (nv_record_bt_device_register_newly_paired_device_callback slot cb s)"
  "bt_safe s \<Longrightarrow> bt_safe (nvrecord_bt_init s)"
  "bt_tracked s (nvrecord_bt_init s)"
  by (simp_all add: bt_safe_def bt_invar_def bt_tracked_def nv_core_def nvrecord_bt_init_def
      nv_record_bt_device_register_newly_paired_device_callback_def)

lemma bt_edit_safe:
  assumes "bt_edit s s'" and "bt_safe s"
  shows "bt_safe s' \<and> bt_tracked s s'"
  using assms
proof (induction rule: bt_edit.induct)
  case (add s is_tws rec)
  then show ?case by (simp add: ddbrec_add_safe ddbrec_add_tracked)
next
  case (add_section s is_tws sec rec)
  then show ?case
    using nv_record_add_cases [of is_tws sec rec s] by (auto simp: ddbrec_add_safe ddbrec_add_tracked)
next
  case (change_order rec target s st s')
  then show ?case using change_order_safe by blast
qed (simp_all only: ddbrec_delete_safe bt_whole_table_safe bt_callbacks_safe profile_setters_tracked,
    simp_all add: bt_setter_defs bt_store_safe bt_store_tracked_changed bt_callbacks_safe)

lemma bt_step_safe: "bt_step s s' \<Longrightarrow> bt_safe s \<Longrightarrow> bt_safe s' \<and> bt_tracked s s'"
  by (induction rule: bt_step.induct) (simp_all add: bt_edit_safe bt_whole_table_safe(3))

text \<open>An edit leaves the stashed table alone.\<close>

lemma bt_store_cache [simp]:
  "bt_pair_info_cache (nv_body (bt_store c al i f s)) = bt_pair_info_cache (nv_body s)"
  by (simp add: bt_store_def nv_ops Let_def)

lemma ddbrec_add_cache [simp]:
  "bt_pair_info_cache (nv_body (snd (nv_record_ddbrec_add t rec s))) = bt_pair_info_cache (nv_body s)"
proof (cases "rec = None \<or> \<not> nvrecord_extension_p s")
  case True
  then show ?thesis by (cases rec) (auto simp: nv_record_ddbrec_add_def)
next
  case False
  then show ?thesis by (auto simp: ddbrec_add_state(1))
qed

lemma change_order_cache:
  "nv_record_change_order rec target s = Ret (st, s') \<Longrightarrow>
     bt_pair_info_cache (nv_body s') = bt_pair_info_cache (nv_body s)"
  by (auto simp: nv_record_change_order_def nv_ops Let_def split: if_splits)

lemma bt_edit_cache: "bt_edit s s' \<Longrightarrow> bt_pair_info_cache (nv_body s') = bt_pair_info_cache (nv_body s)"
proof (induction rule: bt_edit.induct)
  case (add_section s is_tws sec rec)
  then show ?case using nv_record_add_cases [of is_tws sec rec s] by auto
qed (simp_all add: change_order_cache bt_setter_defs nv_record_ddbrec_delete_def
    nv_record_ddbrec_clear_def nv_record_ddbrec_clear_all_bt_paired_list_def
    nv_record_pop_original_bt_record_def nvrecord_bt_init_def
    nv_record_bt_device_register_newly_paired_device_callback_def nv_ops Let_def)

section \<open>Properties\<close>

text \<open>
  C6: Safety of the paired-device table. From a state with well-formed tables, after any
  sequence of calls of the functions of \<open>nvrecord_bt.c\<close>, the table has at most eight records
  with distinct addresses in an array of eight, so does its stashed copy, the mirror is
  read-only again and no store ever happened while it was; the flash was not touched, and
  whenever the mirror differs from the start, it is marked for a flush and the flush hook is
  active.
\<close>

theorem bt_reach_safe:
  assumes "bt_reach s0 s" and "bt_safe s0"
  shows "bt_safe s \<and> nv_flash s = nv_flash s0 \<and>
     (nv_body s = nv_body s0 \<or> is_update (nv_flush_state s) \<and> nv_hook_active s)"
  using assms
proof (induction rule: bt_reach.induct)
  case init
  then show ?case by simp
next
  case (step s s')
  then have "bt_safe s' \<and> bt_tracked s s'" using bt_step_safe by blast
  then show ?case using step by (auto simp: bt_tracked_def nv_core_def)
qed

text \<open>The states and records of the witnesses: an empty table, and devices told apart by their address.\<close>

definition demo_nv_state :: "unit nv_state" where
  "demo_nv_state = (zero_nv_state ())\<lparr>nvrecord_extension_p := True\<rparr>"

definition demo_device :: "u8 \<Rightarrow> btif_device_record_t" where
  "demo_device n = zero_device_record\<lparr>bdAddr := [n, 0, 0, 0, 0, 0], linkKey := replicate 16 n\<rparr>"

lemmas demo_defs = demo_nv_state_def zero_nv_state_def zero_nv_payload_def zero_paired_bt_info_def
  demo_device_def zero_device_record_def

lemma demo_safe: "bt_safe demo_nv_state"
  by (simp add: bt_safe_def bt_invar_def demo_nv_state_def zero_nv_state_def zero_nv_payload_def)

lemma demo_invar: "bt_invar demo_nv_state"
  using demo_safe by (simp add: bt_safe_def)

theorem bt_reach_safe_witness:
  "let s = snd (nv_record_ddbrec_delete [1, 0, 0, 0, 0, 0]
         (snd (nv_record_ddbrec_add (\<lambda>_. False) (Some (demo_device 1)) demo_nv_state)))
   in bt_safe s \<and> nv_flash s = nv_flash demo_nv_state"
  unfolding Let_def
  using bt_reach_safe [OF bt_reach.step [OF bt_reach.step [OF bt_reach.init bt_step.edit [OF bt_edit.add]]
        bt_step.edit [OF bt_edit.delete]]
      demo_safe] by blast

text \<open>
  C5: \<open>nv_record_ddbrec_add\<close> with a record succeeds and leaves the table as the abstract
  most-recently-used list: the record is first, followed by the other records in their old
  order, of which the eighth is dropped. A known device keeps its volumes and profile flags
  when its link information is unchanged; otherwise, and for a new device, the music and call volumes
  are 16, the absolute volume 127, the profiles inactive and the vendor unknown. The flash is not
  touched and the mirror is closed for writing.
\<close>

theorem ddbrec_add_correct:
  assumes "bt_invar s" and "nv_record_ddbrec_add is_tws (Some rec) s = (st, s')"
  shows "st = BT_STS_SUCCESS \<and> bt_invar s' \<and> \<not> nv_mpu_rw s' \<and> nv_flash s' = nv_flash s \<and>
     bt_view s' =
      ddbrec_entry_after rec (find (\<lambda>r. bt_key r = bdAddr rec) (bt_view s)) #
        take (MAX_BT_PAIRED_DEVICE_COUNT - 1) (filter (\<lambda>r. bt_key r \<noteq> bdAddr rec) (bt_view s))"
proof -
  have "nvrecord_extension_p s" using assms(1) by (simp add: bt_invar_def)
  from ddbrec_add_state [OF this, of is_tws rec] show ?thesis
    using assms ddbrec_add_view(1) [OF assms(1), of is_tws rec] bt_invar_add [OF assms(1), of is_tws rec]
    by simp
qed

lemma demo_view: "bt_view demo_nv_state = []"
  by (simp add: demo_defs bt_view_def bt_used_def)

theorem ddbrec_add_correct_witness:
  "map bt_key (bt_view (snd (nv_record_ddbrec_add (\<lambda>_. False) (Some (demo_device 1)) demo_nv_state))) =
     [[1, 0, 0, 0, 0, 0]]"
  using ddbrec_add_correct [OF demo_invar surjective_pairing, of "\<lambda>_. False" "demo_device 1"]
  by (simp add: demo_view) (simp add: demo_device_def)

text \<open>
  Retention. A device that was added is still in the table after further additions as long
  as fewer than eight different other devices were among them.
\<close>

theorem ddbrec_add_retained:
  assumes "bt_invar s" and "card (bdAddr ` set recs - {bdAddr rec}) < MAX_BT_PAIRED_DEVICE_COUNT"
  shows "bdAddr rec \<in> bt_key ` set (bt_view
     (fold (\<lambda>r s. snd (nv_record_ddbrec_add is_tws (Some r) s)) recs
        (snd (nv_record_ddbrec_add is_tws (Some rec) s))))"
  using assms by (rule bt.recent_retained)

theorem ddbrec_add_retained_witness:
  "bdAddr (demo_device 1) \<in> bt_key ` set (bt_view
     (fold (\<lambda>r s. snd (nv_record_ddbrec_add (\<lambda>_. False) (Some r) s)) [demo_device 2, demo_device 3, demo_device 2]
        (snd (nv_record_ddbrec_add (\<lambda>_. False) (Some (demo_device 1)) demo_nv_state))))"
proof (rule ddbrec_add_retained [OF demo_invar])
  have "card (bdAddr ` set [demo_device 2, demo_device 3, demo_device 2] - {bdAddr (demo_device 1)}) \<le> 3"
    by (rule le_trans [OF card_mono [of "bdAddr ` set [demo_device 2, demo_device 3, demo_device 2]"]])
      (auto intro!: card_insert_le_m1)
  then show "card (bdAddr ` set [demo_device 2, demo_device 3, demo_device 2] - {bdAddr (demo_device 1)})
      < MAX_BT_PAIRED_DEVICE_COUNT" by (simp add: MAX_BT_PAIRED_DEVICE_COUNT_def)
qed

text \<open>
  Lookup after add and delete. \<open>nv_record_ddbrec_find\<close> returns the record just added; after
  \<open>nv_record_ddbrec_delete\<close> of an address it fails for that address, leaves the caller's buffer
  alone, and answers for every other address what it answered before.
\<close>

theorem ddbrec_find_after:
  assumes "bt_invar s"
  shows "nv_record_ddbrec_find (Some (bdAddr rec)) (Some out)
           (snd (nv_record_ddbrec_add is_tws (Some rec) s)) = (BT_STS_SUCCESS, Some rec) \<and>
     nv_record_ddbrec_find (Some a) (Some out) (snd (nv_record_ddbrec_delete b s)) =
       (if a = b then (BT_STS_FAILED, Some out) else nv_record_ddbrec_find (Some a) (Some out) s)"
proof -
  let ?add = "snd (nv_record_ddbrec_add is_tws (Some rec) s)" and ?del = "snd (nv_record_ddbrec_delete b s)"
  have p: "nvrecord_extension_p s" "distinct (map bt_key (bt_view s))"
    and pa: "nvrecord_extension_p ?add" "distinct (map bt_key (bt_view ?add))"
    and pd: "nvrecord_extension_p ?del" "distinct (map bt_key (bt_view ?del))"
    using assms bt_invar_add [OF assms, of is_tws rec] ddbrec_delete_view(2) [OF assms, of b]
    by (auto simp: bt_invar_def bt_info_ok_def bt_view_def)
  have "nv_record_ddbrec_find (Some (bdAddr rec)) (Some out) ?add = (BT_STS_SUCCESS, Some rec)"
    by (simp add: ddbrec_find_view [OF pa] ddbrec_add_view(1) [OF assms])
  moreover have "find (\<lambda>r. bt_key r = b) (filter (\<lambda>r. bt_key r \<noteq> b) rs) = None" for rs
    by (auto simp: find_None_iff)
  ultimately show ?thesis
    by (auto simp: ddbrec_find_view [OF p] ddbrec_find_view [OF pd] ddbrec_delete_view(1) [OF assms]
        find_filter_other)
qed

theorem ddbrec_find_after_witness:
  "nv_record_ddbrec_find (Some [1, 0, 0, 0, 0, 0]) (Some zero_device_record)
     (snd (nv_record_ddbrec_add (\<lambda>_. False) (Some (demo_device 1)) demo_nv_state)) =
   (BT_STS_SUCCESS, Some (demo_device 1))"
  using ddbrec_find_after [OF demo_invar, of "demo_device 1" zero_device_record "\<lambda>_. False"]
  by (simp add: demo_device_def)

text \<open>
  \<open>nv_record_change_order\<close>, for a mirror that is in place: it succeeds exactly when the
  device is in the table and the target is another used place; the table is then the old one
  with the device taken out and put in at the target (so it is a permutation), and otherwise
  the table is unchanged.
\<close>

theorem change_order_correct:
  assumes inv: "bt_invar s" and res: "nv_record_change_order rec target s = Ret (st, s')"
  shows "bt_invar s' \<and>
    (if \<exists>c < length (bt_view s). bt_key (bt_view s ! c) = bdAddr rec \<and> c \<noteq> unat target \<and>
          unat target < length (bt_view s)
     then st = BT_STS_SUCCESS \<and> is_update (nv_flush_state s') \<and>
       (\<exists>c < length (bt_view s). bt_key (bt_view s ! c) = bdAddr rec \<and>
          bt_view s' = list_move c (unat target) (bt_view s) \<and>
          bt_view s' ! unat target = bt_view s ! c)
     else st = BT_STS_FAILED \<and> bt_view s' = bt_view s)"
proof -
  have ok: "bt_info_ok (bt_info s)" and d: "distinct (map bt_key (bt_view s))"
    using inv by (auto simp: bt_invar_def bt_info_ok_def bt_view_def)
  have uniq: "i = j" if "i < length (bt_view s)" "j < length (bt_view s)"
      "bt_key (bt_view s ! i) = bt_key (bt_view s ! j)" for i j
    using nth_eq_iff_index_eq [OF d, of i j] that by simp
  from inv res show ?thesis
  proof (cases rule: change_order_cases)
    case refused
    then have "\<not> (\<exists>c < length (bt_view s). bt_key (bt_view s ! c) = bdAddr rec \<and> c \<noteq> unat target \<and>
        unat target < length (bt_view s))"
      using uniq by (metis image_eqI nth_mem)
    then show ?thesis using refused inv by (auto simp: bt_view_def bt_invar_def)
  next
    case (moved c)
    have u: "c < length (bt_used (bt_info s))" "unat target < pairedDevNum (bt_info s)"
      using moved by (auto simp: bt_view_def bt_used_def)
    note co = change_order_info_ok [OF ok u]
    have v: "bt_view s' = list_move c (unat target) (bt_view s)"
      using co(1) moved by (simp add: bt_view_def)
    have at: "bt_view s' ! unat target = bt_view s ! c"
      using v moved by (simp add: nth_list_move)
    have "bt_invar s'" using co(2) moved inv by (simp add: bt_invar_def)
    moreover have "c \<noteq> unat target"
      using res moved change_order_same [OF inv] by auto
    ultimately show ?thesis using moved v at by auto
  qed
qed

definition demo_two_devices :: "unit nv_state" where
  "demo_two_devices = snd (nv_record_ddbrec_add (\<lambda>_. False) (Some (demo_device 2))
     (snd (nv_record_ddbrec_add (\<lambda>_. False) (Some (demo_device 1)) demo_nv_state)))"

lemma demo_two_invar: "bt_invar demo_two_devices"
  by (simp add: demo_two_devices_def bt_invar_add demo_invar)

lemma demo_two_view: "bt_view demo_two_devices = [ddbrec_new_entry (demo_device 2), ddbrec_new_entry (demo_device 1)]"
proof -
  have "bdAddr (demo_device 1) \<noteq> bdAddr (demo_device 2)" by (simp add: demo_device_def)
  then show ?thesis
    by (simp add: demo_two_devices_def ddbrec_add_view(1) bt_invar_add demo_invar demo_view
        new_entry_after MAX_BT_PAIRED_DEVICE_COUNT_def)
qed

lemma change_order_returns:
  "nvrecord_extension_p s \<Longrightarrow> \<exists>st s'. nv_record_change_order rec target s = Ret (st, s')"
  by (simp add: nv_record_change_order_def Let_def split: prod.split)

theorem change_order_correct_witness:
  "\<exists>s'. nv_record_change_order (demo_device 1) 0 demo_two_devices = Ret (BT_STS_SUCCESS, s') \<and>
     bt_view s' = [ddbrec_new_entry (demo_device 1), ddbrec_new_entry (demo_device 2)]"
proof -
  have ne: "bdAddr (demo_device 2) \<noteq> bdAddr (demo_device 1)" by (simp add: demo_device_def)
  obtain st s' where r: "nv_record_change_order (demo_device 1) 0 demo_two_devices = Ret (st, s')"
    using change_order_returns demo_two_invar unfolding bt_invar_def by blast
  have c: "c = 1" if "c < 2" "bt_key ([ddbrec_new_entry (demo_device 2), ddbrec_new_entry (demo_device 1)] ! c)
      = bdAddr (demo_device 1)" for c
    using that ne by (auto simp: less_2_cases_iff)
  have "\<exists>c<length (bt_view demo_two_devices). bt_key (bt_view demo_two_devices ! c) = bdAddr (demo_device 1)
      \<and> c \<noteq> unat (0::u8) \<and> unat (0::u8) < length (bt_view demo_two_devices)"
    by (rule exI [of _ 1]) (simp add: demo_two_view)
  then have "st = BT_STS_SUCCESS" and ex: "\<exists>c < 2. bt_key ([ddbrec_new_entry (demo_device 2), ddbrec_new_entry (demo_device 1)] ! c)
      = bdAddr (demo_device 1) \<and> bt_view s' = list_move c 0 [ddbrec_new_entry (demo_device 2), ddbrec_new_entry (demo_device 1)]"
    using change_order_correct [OF demo_two_invar r] by (auto simp: demo_two_view numeral_2_eq_2)
  moreover have "bt_view s' = list_move 1 0 [ddbrec_new_entry (demo_device 2), ddbrec_new_entry (demo_device 1)]"
    using ex c by blast
  ultimately show ?thesis using r by (auto simp: list_move_def drop_nth_def)
qed

text \<open>
  C31: Stash and restore. After \<open>nv_record_stash_original_bt_record\<close> the table is empty;
  \<open>nv_record_pop_original_bt_record\<close> brings the stashed table back whatever calls on the table
  (other than another stash) were made in between.
\<close>

theorem stash_pop_restores:
  assumes "bt_safe s"
    and "bt_edit\<^sup>*\<^sup>* (snd (nv_record_stash_original_bt_record s)) s'"
  shows "bt_view (snd (nv_record_stash_original_bt_record s)) = [] \<and>
    bt_pair_info (nv_body (snd (nv_record_pop_original_bt_record s'))) = bt_pair_info (nv_body s)"
proof -
  have p: "nvrecord_extension_p s" using assms(1) by (simp add: bt_safe_def bt_invar_def)
  have "bt_safe s' \<and> bt_pair_info_cache (nv_body s') = bt_pair_info (nv_body s)"
    using assms(2)
  proof (induction rule: rtranclp_induct)
    case base
    then show ?case using p bt_whole_table_safe(3) [OF assms(1)]
      by (simp add: nv_record_stash_original_bt_record_def nv_ops Let_def)
  next
    case (step u v)
    then show ?case using bt_edit_safe bt_edit_cache by metis
  qed
  then show ?thesis using p
    by (simp add: nv_record_stash_original_bt_record_def nv_record_pop_original_bt_record_def nv_ops
        Let_def bt_view_def bt_used_def zero_paired_bt_info_def bt_safe_def bt_invar_def)
qed

theorem stash_pop_restores_witness:
  "bt_view (snd (nv_record_pop_original_bt_record (snd (nv_record_ddbrec_add (\<lambda>_. False) (Some (demo_device 3))
      (snd (nv_record_stash_original_bt_record demo_nv_state)))))) = []"
proof -
  let ?s = "snd (nv_record_stash_original_bt_record demo_nv_state)"
  have "bt_edit\<^sup>*\<^sup>* ?s (snd (nv_record_ddbrec_add (\<lambda>_. False) (Some (demo_device 3)) ?s))"
    by (intro r_into_rtranclp bt_edit.add)
  from stash_pop_restores [OF demo_safe this] demo_view show ?thesis
    by (simp add: bt_view_def)
qed

text \<open>
  Unchecked pointer. Before \<open>nv_record_extension_init\<close> has set \<open>nvrecord_extension_p\<close>,
  \<open>nv_record_enum_dev_records\<close> and \<open>nv_record_change_order\<close> dereference the null pointer for
  every argument, while lookup, deletion, clearing, stashing and restoring report failure and
  change nothing.
\<close>

theorem bt_before_init:
  assumes "\<not> nvrecord_extension_p s"
  shows "nv_record_enum_dev_records index s = NullDeref \<and>
    nv_record_change_order rec target s = NullDeref \<and>
    nv_record_ddbrec_add is_tws r s = (BT_STS_FAILED, s) \<and>
    nv_record_ddbrec_delete a s = (BT_STS_FAILED, s) \<and>
    nv_record_ddbrec_clear s = (BT_STS_FAILED, s) \<and>
    nv_record_ddbrec_clear_all_bt_paired_list s = (BT_STS_FAILED, s) \<and>
    nv_record_stash_original_bt_record s = (BT_STS_FAILED, s) \<and>
    nv_record_pop_original_bt_record s = (BT_STS_FAILED, s) \<and>
    fst (nv_record_ddbrec_find bd out s) = BT_STS_FAILED \<and>
    nv_record_get_paired_dev_count s = 0"
  using assms
  by (simp add: nv_record_enum_dev_records_def nv_record_change_order_def nv_record_ddbrec_add_def
      nv_record_ddbrec_delete_def nv_record_ddbrec_clear_def nv_record_get_paired_dev_count_def
      nv_record_ddbrec_clear_all_bt_paired_list_def nv_record_stash_original_bt_record_def
      nv_record_pop_original_bt_record_def nv_record_ddbrec_find_def split: option.split)

theorem bt_before_init_witness:
  "nv_record_enum_dev_records 0 (zero_nv_state ()) = NullDeref \<and>
   nv_record_ddbrec_clear (zero_nv_state ()) = (BT_STS_FAILED, zero_nv_state ())"
  using bt_before_init [of "zero_nv_state ()"] by (simp add: zero_nv_state_def)

text \<open>The records with the source role, in table order.\<close>

definition sink_records :: "'f nv_state \<Rightarrow> btif_device_record_t list" where
  "sink_records s = filter for_bt_source (map dev_record (bt_view s))"

lemma get_sink_loop:
  "length out < max_num \<Longrightarrow>
   get_sink_paired_dev_loop rs max_num out =
     out @ take (max_num - length out) (filter for_bt_source (map dev_record rs))"
proof (induction rs arbitrary: out)
  case Nil
  then show ?case by simp
next
  case (Cons r rs)
  show ?case
  proof (cases "for_bt_source (dev_record r) \<and> Suc (length out) \<ge> max_num")
    case True
    with Cons.prems have "max_num = Suc (length out)" by auto
    with True show ?thesis by simp
  next
    case False
    with Cons.prems Cons.IH [of "out @ [dev_record r]"] Cons.IH [of out] show ?thesis
      by (auto simp: Let_def take_Cons' not_le Suc_diff_Suc)
  qed
qed

text \<open>
  \<open>nv_record_get_sink_paired_dev\<close> with a bound of at least one returns the first
  \<open>max_num\<close> records with the source role and their number; with a bound of zero it still
  copies a record to the caller's buffer when the first record of the table has that role.
\<close>

theorem get_sink_correct:
  assumes "bt_invar s"
  shows "(0 < max_num \<longrightarrow> nv_record_get_sink_paired_dev True max_num s =
       (int (length (take (unat max_num) (sink_records s))), take (unat max_num) (sink_records s))) \<and>
     (\<forall>r rs. bt_view s = r # rs \<and> for_bt_source (dev_record r) \<longrightarrow>
       nv_record_get_sink_paired_dev True 0 s = (1, [dev_record r]))"
proof -
  have p: "nvrecord_extension_p s" using assms by (simp add: bt_invar_def)
  have loop: "nv_record_get_sink_paired_dev True n s =
      (int (length (get_sink_paired_dev_loop (bt_view s) (unat n) [])),
       get_sink_paired_dev_loop (bt_view s) (unat n) [])" for n
    using p by (simp add: nv_record_get_sink_paired_dev_def bt_view_def bt_used_def Let_def)
  have "0 < max_num \<Longrightarrow> 0 < unat max_num" by (simp add: unat_gt_0 word_gt_0)
  then show ?thesis using loop get_sink_loop [of "[]" "unat max_num" "bt_view s"]
    by (auto simp: sink_records_def)
qed

theorem get_sink_correct_witness:
  "nv_record_get_sink_paired_dev True 0 (snd (nv_record_ddbrec_add (\<lambda>_. False)
      (Some ((demo_device 1)\<lparr>for_bt_source := True\<rparr>)) demo_nv_state)) =
   (1, [(demo_device 1)\<lparr>for_bt_source := True\<rparr>])"
proof -
  let ?rec = "(demo_device 1)\<lparr>for_bt_source := True\<rparr>"
  let ?s = "snd (nv_record_ddbrec_add (\<lambda>_. False) (Some ?rec) demo_nv_state)"
  have "bt_view ?s = [ddbrec_new_entry ?rec]"
    by (simp add: ddbrec_add_view(1) demo_invar demo_view new_entry_after)
  with get_sink_correct [OF bt_invar_add [OF demo_invar]] show ?thesis by fastforce
qed

text \<open>
  The callbacks that hear of a device, in the order they are called: the one for any device,
  the user's, and the one for the earbud peer or for a mobile.
\<close>

definition paired_event_calls :: "(bytes \<Rightarrow> bool) \<Rightarrow> bytes \<Rightarrow> 'f nv_state \<Rightarrow> (paired_cb \<times> bytes) list" where
  "paired_event_calls is_tws a s =
     map (\<lambda>cb. (cb, a)) (List.map_filter (new_device_paired_cb s)
       [NEW_DEVICE_CB_ANY_DEVICE, NEW_DEVICE_CB_USER1,
        if is_tws a then NEW_DEVICE_CB_TWS else NEW_DEVICE_CB_MOBILE])"

lemma call_paired_cb_log:
  "paired_cb_calls (call_paired_cb slot a s) =
     paired_cb_calls s @ (case new_device_paired_cb s slot of None \<Rightarrow> [] | Some cb \<Rightarrow> [(cb, a)])"
  "new_device_paired_cb (call_paired_cb slot a s) = new_device_paired_cb s"
  by (simp_all add: call_paired_cb_def Let_def split: option.split paired_cb.split
      add: nv_record_btdevice_new_device_paired_default_callback_def)

lemma distribute_log:
  "paired_cb_calls (nv_record_bt_distribute_new_dev_paired_event is_tws a s) =
     paired_cb_calls s @ paired_event_calls is_tws a s"
  by (simp add: nv_record_bt_distribute_new_dev_paired_event_def paired_event_calls_def Let_def
      call_paired_cb_log List.map_filter_def split: option.split)

text \<open>
  Who is told about a pairing. \<open>nv_record_ddbrec_add\<close> calls the registered callbacks exactly
  when the device is unknown and has a link key that is not all zero, or is known and its link
  information differs from the stored one; the calls are the registered ones, in a fixed order,
  with the device's address.
\<close>

theorem ddbrec_add_notifies:
  assumes "bt_invar s"
  shows "paired_cb_calls (snd (nv_record_ddbrec_add is_tws (Some rec) s)) =
    paired_cb_calls s @
     (if (case find (\<lambda>r. bt_key r = bdAddr rec) (bt_view s) of
            None \<Rightarrow> linkKey rec \<noteq> replicate 16 0 | Some r \<Rightarrow> dev_record r \<noteq> rec)
      then paired_event_calls is_tws (bdAddr rec) s else [])"
proof -
  have p: "nvrecord_extension_p s" and d: "distinct (map bt_key (bt_view s))"
    using assms by (auto simp: bt_invar_def bt_info_ok_def bt_view_def)
  have ix: "nv_record_get_bt_pairing_info_index a (s\<lparr>nv_mpu_rw := True\<rparr>) =
      nv_record_get_bt_pairing_info_index a s" for a
    by (rule bt_index_cong) simp
  consider (new) "nv_record_get_bt_pairing_info_index (bdAddr rec) s = -1"
      "find (\<lambda>r. bt_key r = bdAddr rec) (bt_view s) = None"
    | (old) j where "nv_record_get_bt_pairing_info_index (bdAddr rec) s = int j"
      "find (\<lambda>r. bt_key r = bdAddr rec) (bt_view s) = Some (bt_entry j s)"
      "bdAddr (dev_record (bt_entry j s)) = bdAddr rec"
  proof (cases "bdAddr rec \<in> bt_key ` set (bt_view s)")
    case False
    then show ?thesis using new bt_index_absent [OF False] by (force simp: find_None_iff)
  next
    case True
    then obtain j where j: "j < length (bt_view s)" "bt_key (bt_view s ! j) = bdAddr rec"
        "nv_record_get_bt_pairing_info_index (bdAddr rec) s = int j"
      using bt_index_present by blast
    have "bt_view s ! j = bt_entry j s" using j(1) by (simp add: bt_view_def bt_used_def)
    with old [of j] find_key [OF j(1) d] j show ?thesis by simp
  qed
  then show ?thesis
  proof cases
    case new
    then show ?thesis using p ix
      by (simp add: nv_record_ddbrec_add_def ddbrec_add_new_def nv_ops Let_def distribute_log
          paired_event_calls_def)
  next
    case old
    then show ?thesis using p ix
      by (auto simp: nv_record_ddbrec_add_def ddbrec_add_existing_def nv_ops Let_def distribute_log
          paired_event_calls_def)
  qed
qed

theorem ddbrec_add_notifies_witness:
  "paired_cb_calls (snd (nv_record_ddbrec_add (\<lambda>_. False) (Some (demo_device 1))
      (nvrecord_bt_init demo_nv_state))) = [(DefaultPairedCb, [1, 0, 0, 0, 0, 0])]"
proof -
  have "bt_invar (nvrecord_bt_init demo_nv_state)" "bt_view (nvrecord_bt_init demo_nv_state) = []"
    using demo_invar demo_view by (simp_all add: nvrecord_bt_init_def bt_invar_def bt_view_def)
  from ddbrec_add_notifies [OF this(1), of "\<lambda>_. False" "demo_device 1"] this(2) show ?thesis
    by (simp add: paired_event_calls_def nvrecord_bt_init_def demo_device_def demo_nv_state_def
        zero_nv_state_def List.map_filter_def numeral_eq_Suc)
qed

end
