(* ===== verification/NvEnv.thy ===== *)
theory NvEnv
  imports NvBtSafety
begin

text \<open>
  The system environment of the user-data section: \<open>nvrecord_env.c\<close>, \<open>nvrecord_appmode.c\<close> and
  the two read accessors of \<open>nvrecord_extension.c\<close>. Every setter stores through the write
  window and asks for a flush. \<open>env_ok\<close> is the invariant of the stored earbud name.
\<close>

section \<open>Rebuilding the environment\<close>

definition NVRAM_ENV_MEDIA_LANGUAGE_DEFAULT :: u8 where
  "NVRAM_ENV_MEDIA_LANGUAGE_DEFAULT = 0"

definition NVRAM_ENV_TWS_MODE_DEFAULT :: u32 where
  "NVRAM_ENV_TWS_MODE_DEFAULT = 0xff"

definition NVRAM_ENV_FACTORY_TESTER_STATUS_DEFAULT :: u32 where
  "NVRAM_ENV_FACTORY_TESTER_STATUS_DEFAULT = 0xaabbccdd"

definition NV_DEFAULT_EVN_TWS_CONN_MODE :: u8 where
  "NV_DEFAULT_EVN_TWS_CONN_MODE = 2"

definition NV_BT_SINGLETONE_TX_MODE :: u8 where
  "NV_BT_SINGLETONE_TX_MODE = 0xa"

definition NV_BT_ERROR_TEST_MODE :: u8 where
  "NV_BT_ERROR_TEST_MODE = 0xff"

text \<open>
  \<open>env_size\<close> is \<open>sizeof(struct nvrecord_env_t) - sizeof(uint32_t)\<close>, fixed by the compiler's
  layout of the struct.
\<close>

definition nvrecord_rebuild_system_env :: "u32 \<Rightarrow> bool \<Rightarrow> nvrecord_env_t \<Rightarrow> nvrecord_env_t" where
  "nvrecord_rebuild_system_env env_size isRebuildAll e =
     (let e = (if isRebuildAll
               then zero_nvrecord_env\<lparr>ibrt_mode := (ibrt_mode zero_nvrecord_env)
                      \<lparr>mode := NVRAM_ENV_TWS_MODE_DEFAULT,
                       conn_mode := NV_DEFAULT_EVN_TWS_CONN_MODE,
                       tws_connect_success := False\<rparr>\<rparr>
               else e)
      in e\<lparr>nvrecord_env_len := env_size,
           language := NVRAM_ENV_MEDIA_LANGUAGE_DEFAULT,
           factory_tester_status := NVRAM_ENV_FACTORY_TESTER_STATUS_DEFAULT,
           factory_test_env := \<lparr>test_type = NV_BT_ERROR_TEST_MODE, test_end_timeout = 0,
             tx_packet_nb = 0\<rparr>,
           le_rx_env := \<lparr>rx_channel = 0, rx_phy = 0, mod_idx = 0, rx_test_done = False,
             rx_test_result = 0\<rparr>,
           le_tx_env := \<lparr>tx_channel = 0, data_len = 0, pkt_payload = 0, tx_phy = 0\<rparr>,
           bt_nonsignaling_env := \<lparr>hopping_mode = 0, whitening_mode = 0, tx_freq = 0, rx_freq = 0,
             power_level = 0, lt_addr = 0, edr_enabled = 0, packet_type = 0, payload_pattern = 0,
             bt_test_done = False, payload_length = 0, bt_test_result = 0, hec_nb = 0, crc_nb = 0,
             tx_packet_num = 0\<rparr>,
           aiManagerInfo := (aiManagerInfo e)\<lparr>voice_key_enable := False, setedCurrentAi := 0,
             aiStatusDisableFlag := 0, amaAssistantEnableStatus := 1\<rparr>\<rparr>)"

section \<open>Reading and writing the environment\<close>

abbreviation env_info :: "'f nv_state \<Rightarrow> nvrecord_env_t" where
  "env_info s \<equiv> system_info (nv_body s)"

text \<open>The pattern of every setter: nothing before the mirror is in place, else one write window.\<close>

definition env_store :: "(nvrecord_env_t \<Rightarrow> nvrecord_env_t) \<Rightarrow> 'f nv_state \<Rightarrow> 'f nv_state" where
  "env_store f s =
     (if \<not> nvrecord_extension_p s then s
      else let s = nv_record_pre_write_operation s;
               s = nv_write (upd_env f) s;
               s = nv_record_update_runtime_userdata s
           in nv_record_post_write_operation s)"

text \<open>The environment is handed out as a pointer to a local copy.\<close>

definition nv_record_env_get :: "bool \<Rightarrow> 'f nv_state \<Rightarrow> int \<times> 'f nv_state" where
  "nv_record_env_get env_not_null s =
     (if \<not> env_not_null \<or> \<not> nvrecord_extension_p s then (-1, s)
      else (0, s\<lparr>localSystemInfo := env_info s\<rparr>))"

definition nv_record_env_set :: "nvrecord_env_t \<Rightarrow> 'f nv_state \<Rightarrow> int \<times> 'f nv_state" where
  "nv_record_env_set nvrecord_env s =
     (if \<not> nvrecord_extension_p s then (-1, s) else (0, env_store (\<lambda>_. nvrecord_env) s))"

definition nv_record_update_ibrt_info :: "u32 \<Rightarrow> bytes \<Rightarrow> 'f nv_state \<Rightarrow> 'f nv_state" where
  "nv_record_update_ibrt_info newMode ibrtPeerAddr s =
     env_store (\<lambda>e. e\<lparr>ibrt_mode := (ibrt_mode e)\<lparr>mode := newMode,
       ibrt_record := (ibrt_record (ibrt_mode e))\<lparr>bdAddr := ibrtPeerAddr\<rparr>\<rparr>\<rparr>) s"

definition nv_record_update_tws_side :: "u8 \<Rightarrow> 'f nv_state \<Rightarrow> 'f nv_state" where
  "nv_record_update_tws_side side s =
     env_store (\<lambda>e. e\<lparr>ibrt_mode := (ibrt_mode e)\<lparr>tws_side := side\<rparr>\<rparr>) s"

definition nv_record_get_tws_side :: "'f nv_state \<Rightarrow> int c_result" where
  "nv_record_get_tws_side s =
     (if \<not> nvrecord_extension_p s then NullDeref
      else Ret (int (unat (tws_side (ibrt_mode (env_info s))))))"

definition nv_record_update_conn_mode :: "u8 \<Rightarrow> 'f nv_state \<Rightarrow> 'f nv_state" where
  "nv_record_update_conn_mode m s =
     env_store (\<lambda>e. e\<lparr>ibrt_mode := (ibrt_mode e)\<lparr>conn_mode := m\<rparr>\<rparr>) s"

definition nv_record_get_conn_mode :: "'f nv_state \<Rightarrow> int c_result" where
  "nv_record_get_conn_mode s =
     (if \<not> nvrecord_extension_p s then NullDeref
      else Ret (int (unat (conn_mode (ibrt_mode (env_info s))))))"

text \<open>\<open>name\<close> points to at least \<open>length\<close> bytes. The store happens only when TWS is enabled.\<close>

definition nv_record_set_tws_name :: "bytes \<Rightarrow> u8 \<Rightarrow> 'f nv_state \<Rightarrow> int \<times> 'f nv_state" where
  "nv_record_set_tws_name name len s =
     (if \<not> nvrecord_extension_p s then (-1, s)
      else if TWS_NAME_MAX_LENGTH \<le> unat len then (-1, s)
      else if tws_enable (ibrt_mode (env_info s))
      then (0, env_store (\<lambda>e. e\<lparr>ibrt_mode := (ibrt_mode e)\<lparr>tws_name_len := len,
              tws_name := take (unat len) name @ drop (unat len) (tws_name (ibrt_mode e))\<rparr>\<rparr>) s)
      else (0, s))"

text \<open>What is copied to the caller's buffer (with the terminating zero) and the length.\<close>

definition nv_record_get_tws_name :: "'f nv_state \<Rightarrow> int \<times> (bytes \<times> u8) option" where
  "nv_record_get_tws_name s =
     (if \<not> nvrecord_extension_p s then (-1, None)
      else let len = tws_name_len (ibrt_mode (env_info s)) in
        if len = 0 then (-1, None)
        else (0, Some (take (unat len) (tws_name (ibrt_mode (env_info s))) @ [0], len)))"

definition nv_record_clean_tws_name :: "'f nv_state \<Rightarrow> 'f nv_state" where
  "nv_record_clean_tws_name s = env_store (\<lambda>e. e\<lparr>ibrt_mode := (ibrt_mode e)\<lparr>tws_name_len := 0\<rparr>\<rparr>) s"

definition nv_record_tws_name_is_valid :: "'f nv_state \<Rightarrow> bool" where
  "nv_record_tws_name_is_valid s \<longleftrightarrow>
     nvrecord_extension_p s \<and> 0 < tws_name_len (ibrt_mode (env_info s))"

definition nv_record_set_tws_enable :: "'f nv_state \<Rightarrow> 'f nv_state" where
  "nv_record_set_tws_enable s = env_store (\<lambda>e. e\<lparr>ibrt_mode := (ibrt_mode e)\<lparr>tws_enable := True\<rparr>\<rparr>) s"

definition nv_record_clean_tws_enable :: "'f nv_state \<Rightarrow> 'f nv_state" where
  "nv_record_clean_tws_enable s = env_store (\<lambda>e. e\<lparr>ibrt_mode := (ibrt_mode e)\<lparr>tws_enable := False\<rparr>\<rparr>) s"

definition nv_record_tws_is_enabled :: "'f nv_state \<Rightarrow> bool" where
  "nv_record_tws_is_enabled s \<longleftrightarrow> nvrecord_extension_p s \<and> tws_enable (ibrt_mode (env_info s))"

definition nv_record_get_ibrt_mode :: "'f nv_state \<Rightarrow> u32" where
  "nv_record_get_ibrt_mode s =
     (if nvrecord_extension_p s then mode (ibrt_mode (env_info s)) else NVRAM_ENV_TWS_MODE_DEFAULT)"

definition nv_record_get_ibrt_peer_addr :: "'f nv_state \<Rightarrow> bytes option" where
  "nv_record_get_ibrt_peer_addr s =
     (if nvrecord_extension_p s then Some (bdAddr (ibrt_record (ibrt_mode (env_info s)))) else None)"

section \<open>Factory test records\<close>

definition nv_record_update_factory_tester_status :: "u32 \<Rightarrow> 'f nv_state \<Rightarrow> 'f nv_state" where
  "nv_record_update_factory_tester_status status s = env_store (\<lambda>e. e\<lparr>factory_tester_status := status\<rparr>) s"

definition nv_record_update_factory_tx_single_tone_env :: "u8 \<Rightarrow> 'f nv_state \<Rightarrow> 'f nv_state" where
  "nv_record_update_factory_tx_single_tone_env channel s =
     env_store (\<lambda>e. e\<lparr>factory_test_env := (factory_test_env e)\<lparr>test_type := NV_BT_SINGLETONE_TX_MODE\<rparr>,
       le_tx_env := (le_tx_env e)\<lparr>tx_channel := channel\<rparr>\<rparr>) s"

definition nv_record_update_factory_le_rx_test_env ::
    "u32 \<Rightarrow> u16 \<Rightarrow> u8 \<Rightarrow> u8 \<Rightarrow> u8 \<Rightarrow> u8 \<Rightarrow> 'f nv_state \<Rightarrow> 'f nv_state" where
  "nv_record_update_factory_le_rx_test_env to_ms remote_tx_nb type channel phy midx s =
     env_store (\<lambda>e. e\<lparr>factory_test_env := \<lparr>test_type = type, test_end_timeout = to_ms,
         tx_packet_nb = remote_tx_nb\<rparr>,
       le_rx_env := \<lparr>rx_channel = channel, rx_phy = phy, mod_idx = midx, rx_test_done = False,
         rx_test_result = 0\<rparr>\<rparr>) s"

text \<open>The twelve arguments that describe the packets are grouped as the record they are stored in.\<close>

definition nv_record_update_factory_bt_nonsignaling_env ::
    "u32 \<Rightarrow> u8 \<Rightarrow> bt_nonsignaling_test_t \<Rightarrow> 'f nv_state \<Rightarrow> 'f nv_state" where
  "nv_record_update_factory_bt_nonsignaling_env to_ms type cfg s =
     env_store (\<lambda>e. e\<lparr>factory_test_env := (factory_test_env e)\<lparr>test_type := type, test_end_timeout := to_ms\<rparr>,
       bt_nonsignaling_env := cfg\<lparr>bt_test_done := False, bt_test_result := 0, hec_nb := 0, crc_nb := 0\<rparr>\<rparr>) s"

definition nv_record_update_factory_le_tx_test_env ::
    "u32 \<Rightarrow> u8 \<Rightarrow> u8 \<Rightarrow> u8 \<Rightarrow> u8 \<Rightarrow> u8 \<Rightarrow> 'f nv_state \<Rightarrow> 'f nv_state" where
  "nv_record_update_factory_le_tx_test_env to_ms type channel dlen payload phy s =
     env_store (\<lambda>e. e\<lparr>factory_test_env := \<lparr>test_type = type, test_end_timeout = to_ms, tx_packet_nb = 0\<rparr>,
       le_tx_env := \<lparr>tx_channel = channel, data_len = dlen, pkt_payload = payload, tx_phy = phy\<rparr>\<rparr>) s"

definition nv_record_reset_factory_test_env :: "'f nv_state \<Rightarrow> 'f nv_state" where
  "nv_record_reset_factory_test_env s =
     env_store (\<lambda>e. e\<lparr>
       factory_test_env := (factory_test_env e)\<lparr>test_type := NV_BT_ERROR_TEST_MODE, test_end_timeout := 0\<rparr>,
       le_rx_env := (le_rx_env e)\<lparr>rx_channel := 0, rx_phy := 0, mod_idx := 0\<rparr>,
       le_tx_env := \<lparr>tx_channel = 0, data_len = 0, pkt_payload = 0, tx_phy = 0\<rparr>,
       bt_nonsignaling_env := (bt_nonsignaling_env e)\<lparr>hopping_mode := 0, whitening_mode := 0,
         tx_freq := 0, rx_freq := 0, power_level := 0, lt_addr := 0, edr_enabled := 0,
         packet_type := 0, payload_pattern := 0, payload_length := 0, tx_packet_num := 0\<rparr>\<rparr>) s"

definition nv_record_update_factory_le_rx_test_result :: "bool \<Rightarrow> u16 \<Rightarrow> 'f nv_state \<Rightarrow> 'f nv_state" where
  "nv_record_update_factory_le_rx_test_result test_done res s =
     env_store (\<lambda>e. e\<lparr>le_rx_env := (le_rx_env e)\<lparr>rx_test_done := test_done, rx_test_result := res\<rparr>\<rparr>) s"

definition nv_record_update_factory_bt_nonsignaling_test_result ::
    "bool \<Rightarrow> u16 \<Rightarrow> u16 \<Rightarrow> u16 \<Rightarrow> 'f nv_state \<Rightarrow> 'f nv_state" where
  "nv_record_update_factory_bt_nonsignaling_test_result test_done res hec crc s =
     env_store (\<lambda>e. e\<lparr>bt_nonsignaling_env := (bt_nonsignaling_env e)\<lparr>bt_test_done := test_done,
       bt_test_result := res, hec_nb := hec, crc_nb := crc\<rparr>\<rparr>) s"

text \<open>
  The two readers open and close the write window around their reads; the second result is
  what the output pointers receive, \<open>None\<close> when nothing is stored.
\<close>

definition nv_record_factory_get_le_rx_test_result ::
    "bool \<Rightarrow> 'f nv_state \<Rightarrow> (bool \<times> u16) option \<times> 'f nv_state" where
  "nv_record_factory_get_le_rx_test_result ptrs_not_null s =
     (if \<not> nvrecord_extension_p s \<or> \<not> ptrs_not_null then (None, s)
      else (Some (rx_test_done (le_rx_env (env_info s)), rx_test_result (le_rx_env (env_info s))),
            nv_record_post_write_operation (nv_record_pre_write_operation s)))"

definition nv_record_factory_get_bt_nonsignalint_rx_test_result ::
    "bool \<Rightarrow> 'f nv_state \<Rightarrow> (bool \<times> u16 \<times> u16 \<times> u16) option \<times> 'f nv_state" where
  "nv_record_factory_get_bt_nonsignalint_rx_test_result ptrs_not_null s =
     (if \<not> nvrecord_extension_p s \<or> \<not> ptrs_not_null then (None, s)
      else let t = bt_nonsignaling_env (env_info s) in
        (Some (bt_test_done t, bt_test_result t, hec_nb t, crc_nb t),
         nv_record_post_write_operation (nv_record_pre_write_operation s)))"

section \<open>The application mode\<close>

definition nv_record_appmode_get :: "'f nv_state \<Rightarrow> nvrec_appmode_e c_result" where
  "nv_record_appmode_get s =
     (if \<not> nvrecord_extension_p s then NullDeref else Ret (app_mode (nv_body s)))"

definition nv_record_appmode_set :: "nvrec_appmode_e \<Rightarrow> 'f nv_state \<Rightarrow> 'f nv_state c_result" where
  "nv_record_appmode_set m s =
     (if \<not> nvrecord_extension_p s then NullDeref
      else let s = nv_record_pre_write_operation s;
               s = (if app_mode (nv_body s) \<noteq> m then nv_record_update_runtime_userdata s else s);
               s = nv_write (\<lambda>b. b\<lparr>app_mode := m\<rparr>) s
           in Ret (nv_record_post_write_operation s))"

section \<open>Steps and invariant\<close>

text \<open>The stored name is an array of 32 bytes, and its length leaves room for the terminator.\<close>

definition env_ok :: "nvrecord_env_t \<Rightarrow> bool" where
  "env_ok e \<longleftrightarrow> length (tws_name (ibrt_mode e)) = TWS_NAME_MAX_LENGTH \<and>
     unat (tws_name_len (ibrt_mode e)) < TWS_NAME_MAX_LENGTH"

text \<open>
  One call of the two files that returns. \<open>es\<close> are the environments that callers pass to \<open>nv_record_env_set\<close>,
  which stores them unchecked.
\<close>

inductive env_step :: "nvrecord_env_t set \<Rightarrow> 'f nv_state \<Rightarrow> 'f nv_state \<Rightarrow> bool" for es where
  env_get: "env_step es s (snd (nv_record_env_get p s))"
| env_set: "e \<in> es \<Longrightarrow> env_step es s (snd (nv_record_env_set e s))"
| ibrt_info: "env_step es s (nv_record_update_ibrt_info m a s)"
| side: "env_step es s (nv_record_update_tws_side d s)"
| conn: "env_step es s (nv_record_update_conn_mode c s)"
| set_name: "unat len \<le> length name \<Longrightarrow> env_step es s (snd (nv_record_set_tws_name name len s))"
| clean_name: "env_step es s (nv_record_clean_tws_name s)"
| enable: "env_step es s (nv_record_set_tws_enable s)"
| disable: "env_step es s (nv_record_clean_tws_enable s)"
| tester: "env_step es s (nv_record_update_factory_tester_status st s)"
| tone: "env_step es s (nv_record_update_factory_tx_single_tone_env ch s)"
| le_rx: "env_step es s (nv_record_update_factory_le_rx_test_env to_ms nb ty ch phy midx s)"
| bt_test: "env_step es s (nv_record_update_factory_bt_nonsignaling_env to_ms ty cfg s)"
| le_tx: "env_step es s (nv_record_update_factory_le_tx_test_env to_ms ty ch dl pl phy s)"
| reset_test: "env_step es s (nv_record_reset_factory_test_env s)"
| le_rx_result: "env_step es s (nv_record_update_factory_le_rx_test_result dn res s)"
| bt_result: "env_step es s (nv_record_update_factory_bt_nonsignaling_test_result dn res hec crc s)"
| get_le_rx: "env_step es s (snd (nv_record_factory_get_le_rx_test_result q s))"
| get_bt: "env_step es s (snd (nv_record_factory_get_bt_nonsignalint_rx_test_result q s))"
| appmode: "nv_record_appmode_set md s = Ret s' \<Longrightarrow> env_step es s s'"

text \<open>
  What a step of the environment may change: the system information and the application mode of
  the mirror, and the request for a flush.
\<close>

definition env_frame :: "'f nv_state \<Rightarrow> 'f nv_state \<Rightarrow> bool" where
  "env_frame s s' \<longleftrightarrow>
     bt_tracked s s' \<and> nvrecord_extension_p s' = nvrecord_extension_p s \<and>
     nv_mpu_fault s' = nv_mpu_fault s \<and> (nv_mpu_rw s' \<longrightarrow> nv_mpu_rw s) \<and>
     bt_pair_info (nv_body s') = bt_pair_info (nv_body s) \<and>
     bt_pair_info_cache (nv_body s') = bt_pair_info_cache (nv_body s) \<and>
     ble_pair_info (nv_body s') = ble_pair_info (nv_body s) \<and>
     tws_ble_info (nv_body s') = tws_ble_info (nv_body s) \<and> nv_rest (nv_body s') = nv_rest (nv_body s) \<and>
     adda_test (nv_body s') = adda_test (nv_body s) \<and> sdk_rest (nv_body s') = sdk_rest (nv_body s) \<and>
     nv_header s' = nv_header s"

lemma env_frame_refl [simp]: "env_frame s s"
  by (simp add: env_frame_def)

lemma env_store_frame [simp]: "env_frame s (env_store f s)"
  by (simp add: env_frame_def env_store_def nv_ops bt_tracked_def nv_core_def Let_def)

lemma env_store_ok:
  "env_ok (env_info s) \<Longrightarrow> (env_ok (env_info s) \<Longrightarrow> env_ok (f (env_info s))) \<Longrightarrow>
     env_ok (env_info (env_store f s))"
  by (simp add: env_store_def nv_ops Let_def)

lemma env_window_frame [simp]:
  "env_frame s (nv_record_post_write_operation (nv_record_pre_write_operation s))"
  by (simp add: env_frame_def nv_ops bt_tracked_def nv_core_def)

lemma appmode_frame:
  "nv_record_appmode_set md s = Ret s' \<Longrightarrow>
     env_frame s s' \<and> env_info s' = env_info s \<and> app_mode (nv_body s') = md"
  by (auto simp: nv_record_appmode_set_def env_frame_def nv_ops bt_tracked_def nv_core_def Let_def split: if_splits)

lemmas env_setter_defs =
  nv_record_update_ibrt_info_def nv_record_update_tws_side_def nv_record_update_conn_mode_def
  nv_record_clean_tws_name_def nv_record_set_tws_enable_def nv_record_clean_tws_enable_def
  nv_record_update_factory_tester_status_def nv_record_update_factory_tx_single_tone_env_def
  nv_record_update_factory_le_rx_test_env_def nv_record_update_factory_bt_nonsignaling_env_def
  nv_record_update_factory_le_tx_test_env_def nv_record_reset_factory_test_env_def
  nv_record_update_factory_le_rx_test_result_def
  nv_record_update_factory_bt_nonsignaling_test_result_def

lemma env_get_frame:
  "env_frame s (snd (nv_record_env_get p s))" "env_info (snd (nv_record_env_get p s)) = env_info s"
  by (simp_all add: nv_record_env_get_def env_frame_def bt_tracked_def nv_core_def)

lemma set_tws_name_ok:
  "unat len \<le> length name \<Longrightarrow> env_ok (env_info s) \<Longrightarrow>
     env_ok (env_info (snd (nv_record_set_tws_name name len s)))"
  by (auto simp: nv_record_set_tws_name_def env_ok_def intro!: env_store_ok [unfolded env_ok_def])

lemma env_step_frame: "env_step es s s' \<Longrightarrow> env_frame s s'"
  by (induction rule: env_step.induct)
    (auto simp: env_get_frame nv_record_env_set_def nv_record_set_tws_name_def env_setter_defs
      nv_record_factory_get_le_rx_test_result_def
      nv_record_factory_get_bt_nonsignalint_rx_test_result_def Let_def dest: appmode_frame)

lemma env_setters_ok:
  assumes "env_ok (env_info s)"
  shows "env_ok (env_info (nv_record_update_ibrt_info m a s))"
    and "env_ok (env_info (nv_record_update_tws_side d s))"
    and "env_ok (env_info (nv_record_update_conn_mode c s))"
    and "env_ok (env_info (nv_record_clean_tws_name s))"
    and "env_ok (env_info (nv_record_set_tws_enable s))"
    and "env_ok (env_info (nv_record_clean_tws_enable s))"
    and "env_ok (env_info (nv_record_update_factory_tester_status st s))"
    and "env_ok (env_info (nv_record_update_factory_tx_single_tone_env ch s))"
    and "env_ok (env_info (nv_record_update_factory_le_rx_test_env to_ms nb ty ch phy midx s))"
    and "env_ok (env_info (nv_record_update_factory_bt_nonsignaling_env to_ms ty cfg s))"
    and "env_ok (env_info (nv_record_update_factory_le_tx_test_env to_ms ty ch dl pl phy s))"
    and "env_ok (env_info (nv_record_reset_factory_test_env s))"
    and "env_ok (env_info (nv_record_update_factory_le_rx_test_result dn res s))"
    and "env_ok (env_info (nv_record_update_factory_bt_nonsignaling_test_result dn res hec crc s))"
  unfolding env_setter_defs
  by (rule env_store_ok [OF assms], simp add: env_ok_def TWS_NAME_MAX_LENGTH_def)+

lemma env_step_ok:
  "env_step es s s' \<Longrightarrow> \<forall>e\<in>es. env_ok e \<Longrightarrow> env_ok (env_info s) \<Longrightarrow> env_ok (env_info s')"
proof (induction rule: env_step.induct)
  case (env_set e s)
  then show ?case by (auto simp: nv_record_env_set_def intro: env_store_ok)
next
  case (appmode md s s')
  then show ?case by (auto dest: appmode_frame)
qed (simp_all add: env_get_frame env_setters_ok set_tws_name_ok nv_ops Let_def
    nv_record_factory_get_le_rx_test_result_def nv_record_factory_get_bt_nonsignalint_rx_test_result_def)

lemma env_frame_safe: "env_frame s s' \<Longrightarrow> bt_safe s \<Longrightarrow> bt_safe s'"
  by (auto simp: env_frame_def bt_safe_def bt_invar_def)

section \<open>Properties\<close>

text \<open>Two contents that differ in the system information and the application mode at most.\<close>

definition same_but_env :: "nv_payload \<Rightarrow> nv_payload \<Rightarrow> bool" where
  "same_but_env b c \<longleftrightarrow>
     bt_pair_info b = bt_pair_info c \<and> bt_pair_info_cache b = bt_pair_info_cache c \<and>
     ble_pair_info b = ble_pair_info c \<and> tws_ble_info b = tws_ble_info c \<and>
     nv_rest b = nv_rest c \<and> adda_test b = adda_test c \<and> sdk_rest b = sdk_rest c"

lemma same_but_env_eq:
  "same_but_env b c \<Longrightarrow> b = c\<lparr>system_info := system_info b, app_mode := app_mode b\<rparr>"
  unfolding same_but_env_def by (rule nv_payload.equality) simp_all

text \<open>
  C35: The environment over time. After any sequence of calls of \<open>nvrecord_env.c\<close> and
  \<open>nvrecord_appmode.c\<close> every section of the mirror but the system information and the application
  mode is untouched, the flash too; every store was made inside a write window, and a change of the
  mirror is marked for a flush. The earbud name keeps room for its terminator if every environment that
  was passed to \<open>nv_record_env_set\<close>, which does not check it, has that room.
\<close>

theorem env_run_safe:
  assumes "(env_step es)\<^sup>*\<^sup>* s0 s" and "bt_safe s0"
  shows "bt_safe s \<and> nv_flash s = nv_flash s0 \<and>
    nv_body s = (nv_body s0)\<lparr>system_info := system_info (nv_body s), app_mode := app_mode (nv_body s)\<rparr> \<and>
    (nv_body s = nv_body s0 \<or> is_update (nv_flush_state s) \<and> nv_hook_active s) \<and>
    (env_ok (env_info s0) \<and> (\<forall>e\<in>es. env_ok e) \<longrightarrow> env_ok (env_info s))"
proof -
  have "bt_safe s \<and> nv_flash s = nv_flash s0 \<and> same_but_env (nv_body s) (nv_body s0) \<and>
    (nv_body s = nv_body s0 \<or> is_update (nv_flush_state s) \<and> nv_hook_active s) \<and>
    (env_ok (env_info s0) \<and> (\<forall>e\<in>es. env_ok e) \<longrightarrow> env_ok (env_info s))"
    using assms(1)
  proof (induction rule: rtranclp_induct)
    case base
    then show ?case using assms(2) by (simp add: same_but_env_def)
  next
    case (step u v)
    have fr: "env_frame u v" using step env_step_frame by blast
    then have "same_but_env (nv_body v) (nv_body u)" "nv_flash v = nv_flash u" "bt_safe v"
      "nv_body v = nv_body u \<and> (is_update (nv_flush_state u) \<and> nv_hook_active u \<longrightarrow> is_update (nv_flush_state v) \<and> nv_hook_active v)
        \<or> is_update (nv_flush_state v) \<and> nv_hook_active v"
      using step.IH env_frame_safe [of u v] by (auto simp: same_but_env_def env_frame_def bt_tracked_def nv_core_def)
    moreover have "(\<forall>e\<in>es. env_ok e) \<and> env_ok (env_info u) \<longrightarrow> env_ok (env_info v)"
      using env_step_ok [OF step(2)] by blast
    ultimately show ?case using step.IH by (auto simp: same_but_env_def)
  qed
  then show ?thesis using same_but_env_eq by blast
qed

lemma demo_env_ok: "env_ok (env_info demo_nv_state)"
  by (simp add: env_ok_def demo_nv_state_def zero_nv_state_def zero_nv_payload_def zero_nvrecord_env_def
      TWS_NAME_MAX_LENGTH_def)

theorem env_run_safe_witness:
  "\<exists>s. (env_step {zero_nvrecord_env})\<^sup>*\<^sup>* demo_nv_state s \<and> env_ok (env_info s) \<and> bt_safe s \<and>
     bt_pair_info (nv_body s) = bt_pair_info (nv_body demo_nv_state)"
proof -
  let ?s = "nv_record_update_tws_side 1 (snd (nv_record_env_set zero_nvrecord_env demo_nv_state))"
  have "env_step {zero_nvrecord_env} demo_nv_state (snd (nv_record_env_set zero_nvrecord_env demo_nv_state))"
    by (rule env_step.env_set) simp
  then have st: "(env_step {zero_nvrecord_env})\<^sup>*\<^sup>* demo_nv_state ?s"
    using env_step.side by (blast intro: rtranclp.rtrancl_into_rtrancl)
  have "env_ok zero_nvrecord_env" by (simp add: env_ok_def zero_nvrecord_env_def TWS_NAME_MAX_LENGTH_def)
  then have "env_ok (env_info ?s)" "bt_safe ?s" using env_run_safe [OF st demo_safe] demo_env_ok by simp_all
  moreover have "nv_body ?s =
      (nv_body demo_nv_state)\<lparr>system_info := system_info (nv_body ?s), app_mode := app_mode (nv_body ?s)\<rparr>"
    using env_run_safe [OF st demo_safe] by blast
  from arg_cong [OF this, of bt_pair_info]
  have "bt_pair_info (nv_body ?s) = bt_pair_info (nv_body demo_nv_state)" by simp
  ultimately show ?thesis using st by blast
qed

text \<open>
  The earbud name. With TWS enabled, a name of 1 to 31 bytes that is set is read back with
  its length and a terminating zero. With TWS disabled the setter reports success and stores
  nothing, and the reader answers as before.
\<close>

theorem tws_name_roundtrip:
  assumes "nvrecord_extension_p s" and "0 < len" and "unat len < TWS_NAME_MAX_LENGTH"
    and "unat len = length name"
  shows "fst (nv_record_set_tws_name name len s) = 0 \<and>
    (if nv_record_tws_is_enabled s
     then nv_record_get_tws_name (snd (nv_record_set_tws_name name len s)) = (0, Some (name @ [0], len))
     else snd (nv_record_set_tws_name name len s) = s)"
  using assms
  by (auto simp: nv_record_set_tws_name_def nv_record_tws_is_enabled_def nv_record_get_tws_name_def
      env_store_def nv_ops Let_def)

theorem tws_name_roundtrip_witness:
  "nv_record_get_tws_name (snd (nv_record_set_tws_name [0x42, 0x45, 0x53] 3
     (nv_record_set_tws_enable demo_nv_state))) = (0, Some ([0x42, 0x45, 0x53, 0], 3))"
proof -
  let ?s = "nv_record_set_tws_enable demo_nv_state"
  have "nvrecord_extension_p ?s" "nv_record_tws_is_enabled ?s"
    by (simp_all add: nv_record_set_tws_enable_def env_store_def nv_ops Let_def demo_nv_state_def
        nv_record_tws_is_enabled_def)
  then show ?thesis
    using tws_name_roundtrip [of ?s 3 "[0x42, 0x45, 0x53]"] by (simp add: TWS_NAME_MAX_LENGTH_def)
qed

end
