(* ===== verification/NvFlush.thy ===== *)
theory NvFlush
  imports NvEnv
begin

text \<open>
  \<open>nvrecord_extension.c\<close>: the two copies of the user-data record in flash (main and backup
  sector), the check of a stored record, loading at boot, and the flush that writes the mirror
  back, in its asynchronous form (one driver call per invocation) and its synchronous form
  (loops until nothing is pending).

  The flash driver behind \<open>norflash_api.h\<close>, the checksum \<open>crc32_c\<close>, the memory layout of the
  record, the clock and the random numbers are not part of the sources: they are the record
  \<open>nv_env\<close>, an argument of the definitions. The driver works on a state of its own type \<open>'f\<close>.
\<close>

section \<open>The environment of the component\<close>

datatype NORFLASH_API_RET_T =
    NORFLASH_API_OK
  | NORFLASH_API_BUFFER_FULL
  | NORFLASH_API_BAD_DEV_ID
  | NORFLASH_API_BAD_MOD_ID
  | NORFLASH_API_BAD_BUFF_LEN
  | NORFLASH_API_BAD_ADDR
  | NORFLASH_API_BAD_LEN
  | NORFLASH_API_ERR_UNINIT
  | NORFLASH_API_ERR_HASINIT
  | NORFLASH_API_ERR_REMAP
  | NORFLASH_API_ERR_PROTECTION
  | NORFLASH_API_ERR_REGISTRATION
  | NORFLASH_API_ERR

text \<open>
  The driver calls for the module \<open>NORFLASH_API_MODULE_ID_USERDATA\<close>. \<open>norflash_api_erase\<close> takes
  the address, the length and the \<open>async\<close> flag, \<open>norflash_api_write\<close> the address and the data (it
  is only called with \<open>async\<close> set). \<open>free_erasing\<close> and \<open>free_writing\<close> are
  \<open>norflash_api_get_free_buffer_count\<close>, \<open>used_buffers\<close> is \<open>norflash_api_get_used_buffer_count\<close>,
  and \<open>flash_mapped\<close> is a read through the memory-mapped address.
\<close>

record 'f norflash =
  norflash_api_register :: "nat \<Rightarrow> 'f \<Rightarrow> NORFLASH_API_RET_T \<times> 'f"
  norflash_api_get_dev_id :: "'f \<Rightarrow> NORFLASH_API_RET_T"
  norflash_api_erase :: "nat \<Rightarrow> nat \<Rightarrow> bool \<Rightarrow> 'f \<Rightarrow> NORFLASH_API_RET_T \<times> 'f"
  norflash_api_write :: "nat \<Rightarrow> bytes \<Rightarrow> 'f \<Rightarrow> NORFLASH_API_RET_T \<times> 'f"
  norflash_api_read :: "nat \<Rightarrow> nat \<Rightarrow> 'f \<Rightarrow> NORFLASH_API_RET_T \<times> bytes"
  norflash_api_flush :: "'f \<Rightarrow> 'f"
  used_buffers :: "'f \<Rightarrow> nat"
  free_erasing :: "'f \<Rightarrow> nat"
  free_writing :: "'f \<Rightarrow> nat"
  flash_mapped :: "nat \<Rightarrow> nat \<Rightarrow> 'f \<Rightarrow> bytes"

text \<open>
  \<open>nv_encode\<close> is the memory image of the record after its header, \<open>nv_decode\<close> the record a
  memory image stands for. \<open>default_peer\<close> and \<open>default_role\<close> are what the factory section
  answers, \<open>gen_irk\<close> and \<open>gen_csrk\<close> the bytes drawn from \<open>rand\<close>, \<open>ticks_max_ms\<close> is
  \<open>TICKS_TO_MS(0xFFFFFFFF)\<close>.
\<close>

record 'f nv_env =
  nv_api :: "'f norflash"
  crc32_c :: "bytes \<Rightarrow> u32"
  nv_encode :: "nv_payload \<Rightarrow> bytes"
  nv_decode :: "bytes \<Rightarrow> nv_payload"
  NV_EXTENSION_VALID_LEN :: nat
  userdata_start :: nat
  env_size :: u32
  default_peer :: "bytes option"
  default_role :: u8
  gen_irk :: bytes
  gen_csrk :: bytes
  ticks_max_ms :: u32

definition NV_EXTENSION_SIZE :: nat where
  "NV_EXTENSION_SIZE = 0x1000"

definition NV_EXTENSION_HEADER_SIZE :: nat where
  "NV_EXTENSION_HEADER_SIZE = 16"

definition NV_EXTENSION_MAGIC_NUMBER :: u32 where
  "NV_EXTENSION_MAGIC_NUMBER = 0x4E455854"

definition NV_EXTENSION_MAJOR_VERSION :: u16 where
  "NV_EXTENSION_MAJOR_VERSION = 17"

definition NV_EXTENSION_MINOR_VERSION :: u16 where
  "NV_EXTENSION_MINOR_VERSION = 3"

section \<open>The record in memory\<close>

text \<open>The header as it lies in memory: little-endian fields without padding.\<close>

definition le16 :: "u16 \<Rightarrow> bytes" where
  "le16 w = [ucast w, ucast (drop_bit 8 w)]"

definition le32 :: "u32 \<Rightarrow> bytes" where
  "le32 w = [ucast w, ucast (drop_bit 8 w), ucast (drop_bit 16 w), ucast (drop_bit 24 w)]"

definition get16 :: "bytes \<Rightarrow> nat \<Rightarrow> u16" where
  "get16 m i = ucast (m ! i) + push_bit 8 (ucast (m ! (i + 1)))"

definition get32 :: "bytes \<Rightarrow> nat \<Rightarrow> u32" where
  "get32 m i = ucast (m ! i) + push_bit 8 (ucast (m ! (i + 1))) +
     push_bit 16 (ucast (m ! (i + 2))) + push_bit 24 (ucast (m ! (i + 3)))"

definition header_bytes :: "NVRECORD_HEADER_T \<Rightarrow> bytes" where
  "header_bytes h = le32 (magicNumber h) @ le16 (majorVersion h) @ le16 (minorVersion h) @
     le32 (validLen h) @ le32 (crc32 h)"

definition header_of :: "bytes \<Rightarrow> NVRECORD_HEADER_T" where
  "header_of m = \<lparr>magicNumber = get32 m 0, majorVersion = get16 m 4, minorVersion = get16 m 6,
     validLen = get32 m 8, crc32 = get32 m 12\<rparr>"

text \<open>The mirror as the bytes of \<open>NV_EXTENSION_RECORD_T\<close>.\<close>

definition record_image :: "'f nv_env \<Rightarrow> NVRECORD_HEADER_T \<Rightarrow> nv_payload \<Rightarrow> bytes" where
  "record_image env h b = header_bytes h @ nv_encode env b"

definition record_size :: "'f nv_env \<Rightarrow> nat" where
  "record_size env = NV_EXTENSION_HEADER_SIZE + NV_EXTENSION_VALID_LEN env"

section \<open>Validity of a stored record\<close>

definition nv_record_data_is_valid :: "'f nv_env \<Rightarrow> bytes \<Rightarrow> bool" where
  "nv_record_data_is_valid env m =
     (let h = header_of m; pData = drop NV_EXTENSION_HEADER_SIZE m in
      if NV_EXTENSION_MAJOR_VERSION = majorVersion h \<and> NV_EXTENSION_MAGIC_NUMBER = magicNumber h
      then
        if unat (validLen h) \<le> NV_EXTENSION_SIZE - NV_EXTENSION_HEADER_SIZE
        then
          let crc = crc32_c env (take (unat (validLen h)) pData) in
          if crc = crc32 h then \<not> NV_EXTENSION_VALID_LEN env < unat (validLen h) else False
        else False
      else False)"

definition nv_record_items_is_valid :: "bytes \<Rightarrow> bool" where
  "nv_record_items_is_valid m = True"

definition nv_record_is_crc_check_pass :: "'f nv_env \<Rightarrow> bytes \<Rightarrow> bool" where
  "nv_record_is_crc_check_pass env m =
     (let h = header_of m in
      if NV_EXTENSION_MAGIC_NUMBER \<noteq> magicNumber h then False
      else if unat (validLen h) \<ge> NV_EXTENSION_SIZE - NV_EXTENSION_HEADER_SIZE then False
      else crc32_c env (take (unat (validLen h)) (drop NV_EXTENSION_HEADER_SIZE m)) = crc32 h)"

abbreviation record_valid :: "'f nv_env \<Rightarrow> bytes \<Rightarrow> bool" where
  "record_valid env m \<equiv> nv_record_data_is_valid env m \<and> nv_record_items_is_valid m"

section \<open>Outcomes\<close>

text \<open>
  A call ends normally, at a failed \<open>ASSERT\<close> (which stops the system), or, for the loops that
  wait for the driver, not within the given number of rounds.
\<close>

datatype 'a nv_out = NvAssert | NvStuck | NvDone 'a

fun nv_bind :: "'a nv_out \<Rightarrow> ('a \<Rightarrow> 'b nv_out) \<Rightarrow> 'b nv_out" where
  "nv_bind NvAssert k = NvAssert"
| "nv_bind NvStuck k = NvStuck"
| "nv_bind (NvDone x) k = k x"

definition set_fl :: "NV_STATE \<Rightarrow> 'f nv_state \<Rightarrow> 'f nv_state" where
  "set_fl st s = s\<lparr>nv_flush_state := (nv_flush_state s)\<lparr>fl_state := st\<rparr>\<rparr>"

abbreviation fl :: "'f nv_state \<Rightarrow> NV_STATE" where
  "fl s \<equiv> fl_state (nv_flush_state s)"

text \<open>The return value of the flush functions: 0 for success, else 1.\<close>

definition ret_int :: "NORFLASH_API_RET_T \<Rightarrow> int" where
  "ret_int r = (if r = NORFLASH_API_OK then 0 else 1)"

section \<open>Flushing, one driver call at a time\<close>

text \<open>
  The result of an erase or write request: on success the state advances to \<open>next\<close>, when the
  driver's buffer is full it is flushed once, and any other result fails the assertion.
\<close>

definition request_async ::
    "'f nv_env \<Rightarrow> NV_STATE \<Rightarrow> NORFLASH_API_RET_T \<times> 'f \<Rightarrow> 'f nv_state \<Rightarrow> (int \<times> 'f nv_state) nv_out" where
  "request_async env nxt r s =
     (let ret = fst r; s = s\<lparr>nv_flash := snd r\<rparr> in
      if ret = NORFLASH_API_OK then NvDone (ret_int ret, set_fl nxt s)
      else if ret = NORFLASH_API_BUFFER_FULL
      then NvDone (ret_int ret, s\<lparr>nv_flash := norflash_api_flush (nv_api env) (nv_flash s)\<rparr>)
      else NvAssert)"

text \<open>In the two written states: done when no buffer is in use, else the driver is flushed once.\<close>

definition await_async :: "'f nv_env \<Rightarrow> NV_STATE \<Rightarrow> 'f nv_state \<Rightarrow> (int \<times> 'f nv_state) nv_out" where
  "await_async env nxt s =
     (if used_buffers (nv_api env) (nv_flash s) = 0 then NvDone (0, set_fl nxt s)
      else NvDone (0, s\<lparr>nv_flash := norflash_api_flush (nv_api env) (nv_flash s)\<rparr>))"

text \<open>
  The mirror gets its checksum, is checked, and is copied to the burn buffer; from here on a
  change of the mirror needs another flush.
\<close>

definition flush_main_prepare :: "'f nv_env \<Rightarrow> 'f nv_state \<Rightarrow> 'f nv_state nv_out" where
  "flush_main_prepare env s =
     (let s = nv_record_pre_write_operation s;
          crc = crc32_c env (take (NV_EXTENSION_VALID_LEN env) (nv_encode env (nv_body s)));
          s = nv_write_header (\<lambda>h. h\<lparr>crc32 := crc\<rparr>) s
      in if record_valid env (record_image env (nv_header s) (nv_body s))
         then let s = s\<lparr>nv_burn_buf := record_image env (nv_header s) (nv_body s)\<rparr>;
                  s = set_fl NV_STATE_MAIN_WRITE_PENDING s;
                  s = s\<lparr>nv_flush_state := (nv_flush_state s)\<lparr>is_update := False\<rparr>\<rparr>
              in NvDone (nv_record_post_write_operation s)
         else NvAssert)"

definition flush_main_async :: "'f nv_env \<Rightarrow> 'f nv_state \<Rightarrow> (int \<times> 'f nv_state) nv_out" where
  "flush_main_async env s =
     (let api = nv_api env; ret = norflash_api_get_dev_id api (nv_flash s) in
      if ret \<noteq> NORFLASH_API_OK then NvDone (ret_int ret, s)
      else if \<not> nvrecord_extension_p s then NvDone (ret_int ret, s)
      else if fl s = NV_STATE_IDLE \<or> fl s = NV_STATE_MAIN_ERASING then
        let s = (if fl s = NV_STATE_IDLE then set_fl NV_STATE_MAIN_ERASING s else s)
        in request_async env NV_STATE_MAIN_ERASED
             (norflash_api_erase api (userdata_start env) NV_EXTENSION_SIZE True (nv_flash s)) s
      else if fl s = NV_STATE_MAIN_ERASED then
        nv_bind (flush_main_prepare env s) (\<lambda>s. NvDone (ret_int ret, s))
      else if fl s = NV_STATE_MAIN_WRITE_PENDING then
        request_async env NV_STATE_MAIN_WRITTEN
          (norflash_api_write api (userdata_start env) (nv_burn_buf s) (nv_flash s)) s
      else if fl s = NV_STATE_MAIN_WRITTEN then await_async env NV_STATE_MAIN_DONE s
      else NvAssert)"

text \<open>A completed backup returns to the idle state.\<close>

definition bak_finish :: "int \<times> 'f nv_state \<Rightarrow> (int \<times> 'f nv_state) nv_out" where
  "bak_finish r =
     (if fl (snd r) = NV_STATE_BAK_DONE then NvDone (fst r, set_fl NV_STATE_IDLE (snd r)) else NvDone r)"

definition flush_bak_read :: "'f nv_env \<Rightarrow> 'f nv_state \<Rightarrow> 'f nv_state nv_out" where
  "flush_bak_read env s =
     (let (ret, buf) = norflash_api_read (nv_api env)
            (user_data_main_start s + written_size (nv_flush_state s)) (record_size env) (nv_flash s)
      in if ret = NORFLASH_API_OK
         then NvDone (set_fl NV_STATE_BAK_WRITE_PENDING (s\<lparr>nv_burn_buf := buf\<rparr>))
         else NvAssert)"

definition flush_bak_async :: "'f nv_env \<Rightarrow> 'f nv_state \<Rightarrow> (int \<times> 'f nv_state) nv_out" where
  "flush_bak_async env s =
     (let api = nv_api env; ret = norflash_api_get_dev_id api (nv_flash s) in
      if ret \<noteq> NORFLASH_API_OK then NvDone (ret_int ret, s)
      else nv_bind
        (if fl s = NV_STATE_MAIN_DONE \<or> fl s = NV_STATE_BAK_ERASING then
           let s = (if fl s = NV_STATE_MAIN_DONE then set_fl NV_STATE_BAK_ERASING s else s)
           in request_async env NV_STATE_BAK_ERASED
                (norflash_api_erase api (user_data_bak_start s) NV_EXTENSION_SIZE True (nv_flash s)) s
         else if fl s = NV_STATE_BAK_ERASED \<or> fl s = NV_STATE_BAK_WRITTING then
           nv_bind (flush_bak_read env (set_fl NV_STATE_BAK_WRITTING s)) (\<lambda>s. NvDone (ret_int ret, s))
         else if fl s = NV_STATE_BAK_WRITE_PENDING then
           request_async env NV_STATE_BAK_WRITTEN
             (norflash_api_write api (user_data_bak_start s + written_size (nv_flush_state s))
                (nv_burn_buf s) (nv_flash s)) s
         else if fl s = NV_STATE_BAK_WRITTEN then await_async env NV_STATE_BAK_DONE s
         else NvAssert)
        bak_finish)"

definition main_phase :: "NV_FLUSH_STATE \<Rightarrow> bool" where
  "main_phase st \<longleftrightarrow>
     fl_state st = NV_STATE_IDLE \<and> is_update st \<or>
     fl_state st \<in> {NV_STATE_MAIN_ERASING, NV_STATE_MAIN_ERASED, NV_STATE_MAIN_WRITTING,
       NV_STATE_MAIN_WRITE_PENDING, NV_STATE_MAIN_WRITTEN}"

definition bak_phase :: "NV_FLUSH_STATE \<Rightarrow> bool" where
  "bak_phase st \<longleftrightarrow>
     fl_state st \<in> {NV_STATE_MAIN_DONE, NV_STATE_BAK_ERASING, NV_STATE_BAK_ERASED,
       NV_STATE_BAK_WRITTING, NV_STATE_BAK_WRITE_PENDING, NV_STATE_BAK_WRITTEN, NV_STATE_BAK_DONE}"

text \<open>\<open>nv_record_extension_flush(true)\<close>: one round of the loop.\<close>

definition extension_flush_async :: "'f nv_env \<Rightarrow> 'f nv_state \<Rightarrow> (int \<times> 'f nv_state) nv_out" where
  "extension_flush_async env s =
     (if fl s = NV_STATE_IDLE \<and> \<not> is_update (nv_flush_state s) then NvDone (0, s)
      else if main_phase (nv_flush_state s) then flush_main_async env s
      else if bak_phase (nv_flush_state s) then flush_bak_async env s
      else NvDone (0, s))"

section \<open>Flushing until done\<close>

text \<open>\<^verbatim>\<open>do { norflash_api_flush(); } while (again);\<close> within \<open>n\<close> rounds.\<close>

fun flush_until :: "nat \<Rightarrow> ('f \<Rightarrow> bool) \<Rightarrow> 'f norflash \<Rightarrow> 'f \<Rightarrow> 'f nv_out" where
  "flush_until 0 again api f = NvStuck"
| "flush_until (Suc n) again api f =
     (let f = norflash_api_flush api f in if again f then flush_until n again api f else NvDone f)"

text \<open>
  The retry loop of an erase or write request: a full buffer is flushed until the driver has a
  free one, then the request is repeated.
\<close>

fun request_sync ::
    "nat \<Rightarrow> ('f \<Rightarrow> NORFLASH_API_RET_T \<times> 'f) \<Rightarrow> ('f \<Rightarrow> nat) \<Rightarrow> 'f norflash \<Rightarrow> 'f \<Rightarrow> 'f nv_out" where
  "request_sync 0 req free api f = NvStuck"
| "request_sync (Suc n) req free api f =
     (let (ret, f) = req f in
      if ret = NORFLASH_API_OK then NvDone f
      else if ret = NORFLASH_API_BUFFER_FULL
      then nv_bind (flush_until n (\<lambda>f. free f = 0) api f) (\<lambda>f. request_sync n req free api f)
      else NvAssert)"

definition request_phase ::
    "nat \<Rightarrow> ('f \<Rightarrow> NORFLASH_API_RET_T \<times> 'f) \<Rightarrow> ('f \<Rightarrow> nat) \<Rightarrow> 'f nv_env \<Rightarrow> NV_STATE \<Rightarrow> 'f nv_state \<Rightarrow>
     'f nv_state nv_out" where
  "request_phase n req free env nxt s =
     nv_bind (request_sync n req free (nv_api env) (nv_flash s))
       (\<lambda>f. NvDone (set_fl nxt (s\<lparr>nv_flash := f\<rparr>)))"

definition await_phase :: "nat \<Rightarrow> 'f nv_env \<Rightarrow> NV_STATE \<Rightarrow> 'f nv_state \<Rightarrow> 'f nv_state nv_out" where
  "await_phase n env nxt s =
     nv_bind (flush_until n (\<lambda>f. 0 < used_buffers (nv_api env) f) (nv_api env) (nv_flash s))
       (\<lambda>f. NvDone (set_fl nxt (s\<lparr>nv_flash := f\<rparr>)))"

text \<open>The synchronous main phase, from its last part to the whole: write and wait, prepare, erase.\<close>

definition main_sync_write :: "nat \<Rightarrow> 'f nv_env \<Rightarrow> 'f nv_state \<Rightarrow> (int \<times> 'f nv_state) nv_out" where
  "main_sync_write n env s =
     nv_bind (if fl s = NV_STATE_MAIN_WRITE_PENDING
              then request_phase n (norflash_api_write (nv_api env) (userdata_start env) (nv_burn_buf s))
                     (free_writing (nv_api env)) env NV_STATE_MAIN_WRITTEN s
              else NvDone s)
       (\<lambda>s. nv_bind (await_phase n env NV_STATE_MAIN_DONE s) (\<lambda>s. NvDone (0, s)))"

definition main_sync_prepare :: "nat \<Rightarrow> 'f nv_env \<Rightarrow> 'f nv_state \<Rightarrow> (int \<times> 'f nv_state) nv_out" where
  "main_sync_prepare n env s =
     nv_bind (if fl s = NV_STATE_MAIN_ERASED then flush_main_prepare env s else NvDone s)
       (\<lambda>s. main_sync_write n env s)"

definition flush_main_sync :: "nat \<Rightarrow> 'f nv_env \<Rightarrow> 'f nv_state \<Rightarrow> (int \<times> 'f nv_state) nv_out" where
  "flush_main_sync n env s =
     (let api = nv_api env; ret = norflash_api_get_dev_id api (nv_flash s) in
      if ret \<noteq> NORFLASH_API_OK then NvDone (ret_int ret, s)
      else if \<not> nvrecord_extension_p s then NvDone (ret_int ret, s)
      else
        nv_bind (if fl s = NV_STATE_IDLE \<or> fl s = NV_STATE_MAIN_ERASING
                 then request_phase n (norflash_api_erase api (userdata_start env) NV_EXTENSION_SIZE True)
                        (free_erasing api) env NV_STATE_MAIN_ERASED s
                 else NvDone s)
          (\<lambda>s. main_sync_prepare n env s))"

text \<open>The synchronous backup phase in the same order: write and wait, read, erase.\<close>

definition bak_sync_write :: "nat \<Rightarrow> 'f nv_env \<Rightarrow> 'f nv_state \<Rightarrow> (int \<times> 'f nv_state) nv_out" where
  "bak_sync_write n env s =
     nv_bind (if fl s = NV_STATE_BAK_WRITE_PENDING
              then request_phase n (norflash_api_write (nv_api env)
                       (user_data_bak_start s + written_size (nv_flush_state s)) (nv_burn_buf s))
                     (free_writing (nv_api env)) env NV_STATE_BAK_WRITTEN s
              else NvDone s)
       (\<lambda>s. nv_bind (await_phase n env NV_STATE_BAK_DONE s) (\<lambda>s. bak_finish (0, s)))"

definition bak_sync_read :: "nat \<Rightarrow> 'f nv_env \<Rightarrow> 'f nv_state \<Rightarrow> (int \<times> 'f nv_state) nv_out" where
  "bak_sync_read n env s =
     nv_bind (if fl s = NV_STATE_BAK_ERASED \<or> fl s = NV_STATE_BAK_WRITTEN
              then flush_bak_read env (set_fl NV_STATE_BAK_WRITTEN s) else NvDone s)
       (\<lambda>s. bak_sync_write n env s)"

definition flush_bak_sync :: "nat \<Rightarrow> 'f nv_env \<Rightarrow> 'f nv_state \<Rightarrow> (int \<times> 'f nv_state) nv_out" where
  "flush_bak_sync n env s =
     (let api = nv_api env; ret = norflash_api_get_dev_id api (nv_flash s) in
      if ret \<noteq> NORFLASH_API_OK then NvDone (ret_int ret, s)
      else
        nv_bind (if fl s = NV_STATE_MAIN_DONE \<or> fl s = NV_STATE_BAK_ERASING
                 then request_phase n (norflash_api_erase api (user_data_bak_start s) NV_EXTENSION_SIZE True)
                        (free_erasing api) env NV_STATE_BAK_ERASED s
                 else NvDone s)
          (\<lambda>s. bak_sync_read n env s))"

text \<open>\<open>nv_record_extension_flush(false)\<close>: rounds until the state is idle and nothing is marked.\<close>

fun extension_flush_sync ::
    "nat \<Rightarrow> 'f nv_env \<Rightarrow> int \<Rightarrow> 'f nv_state \<Rightarrow> (int \<times> 'f nv_state) nv_out" where
  "extension_flush_sync 0 env ret s = NvStuck"
| "extension_flush_sync (Suc n) env ret s =
     (if fl s = NV_STATE_IDLE \<and> \<not> is_update (nv_flush_state s) then NvDone (ret, s)
      else
        nv_bind (if main_phase (nv_flush_state s) then flush_main_sync n env s else NvDone (ret, s))
          (\<lambda>(ret, s).
        nv_bind (if bak_phase (nv_flush_state s) then flush_bak_sync n env s else NvDone (ret, s))
          (\<lambda>(ret, s). extension_flush_sync n env ret s)))"

definition nv_record_extension_flush ::
    "nat \<Rightarrow> 'f nv_env \<Rightarrow> bool \<Rightarrow> 'f nv_state \<Rightarrow> (int \<times> 'f nv_state) nv_out" where
  "nv_record_extension_flush n env is_async s =
     (if is_async then extension_flush_async env s else extension_flush_sync n env 0 s)"

section \<open>Flush policy\<close>

definition NV_RECORD_FLUSH_EXECUTION_INTERVAL_MS :: u32 where
  "NV_RECORD_FLUSH_EXECUTION_INTERVAL_MS = 1200000"

definition nv_record_reset_flush_checkpoint :: "u32 \<Rightarrow> 'f nv_state \<Rightarrow> 'f nv_state" where
  "nv_record_reset_flush_checkpoint now s = s\<lparr>lastFlushCheckPointInMs := now\<rparr>"

definition nv_record_is_timer_expired_to_check :: "'f nv_env \<Rightarrow> u32 \<Rightarrow> 'f nv_state \<Rightarrow> bool" where
  "nv_record_is_timer_expired_to_check env currentTimerMs s =
     (let passedTimerMs =
        (if lastFlushCheckPointInMs s = 0 then currentTimerMs
         else if lastFlushCheckPointInMs s \<le> currentTimerMs
         then currentTimerMs - lastFlushCheckPointInMs s
         else ticks_max_ms env - lastFlushCheckPointInMs s + currentTimerMs + 1)
      in NV_RECORD_FLUSH_EXECUTION_INTERVAL_MS < passedTimerMs)"

definition nv_record_flash_flush :: "nat \<Rightarrow> 'f nv_env \<Rightarrow> u32 \<Rightarrow> 'f nv_state \<Rightarrow> 'f nv_state nv_out" where
  "nv_record_flash_flush n env now s =
     nv_bind (nv_record_extension_flush n env False s)
       (\<lambda>(_, s). NvDone (nv_record_reset_flush_checkpoint now s))"

definition nv_record_execute_async_flush :: "'f nv_env \<Rightarrow> u32 \<Rightarrow> 'f nv_state \<Rightarrow> 'f nv_state nv_out" where
  "nv_record_execute_async_flush env now s =
     nv_bind (nv_record_extension_flush 0 env True s)
       (\<lambda>(ret, s). NvDone (if ret = 0 then nv_record_reset_flush_checkpoint now s else s))"

text \<open>
  The hook that runs before the system sleeps; 1 asks to be called again. \<open>now\<close> is the clock
  when the interval is checked, \<open>now2\<close> when the checkpoint is taken.
\<close>

definition nv_record_flash_flush_in_sleep ::
    "'f nv_env \<Rightarrow> u32 \<Rightarrow> u32 \<Rightarrow> 'f nv_state \<Rightarrow> (int \<times> 'f nv_state) nv_out" where
  "nv_record_flash_flush_in_sleep env now now2 s =
     (if fl s = NV_STATE_IDLE \<and> \<not> nv_record_is_timer_expired_to_check env now s then NvDone (0, s)
      else nv_bind (nv_record_execute_async_flush env now2 s)
        (\<lambda>s. NvDone (if fl s = NV_STATE_IDLE \<and> \<not> is_update (nv_flush_state s) then 0 else 1, s)))"

end
