(* ===== verification/NvFlushSafety.thy ===== *)
theory NvFlushSafety
  imports NvFlush
begin

text \<open>
  What the two-copy flush of \<open>nvrecord_extension.c\<close> guarantees: a valid record survives a loss
  of power at every moment, the flush ends, and what it leaves in flash is the mirror. The
  behaviour of the flash driver that the code relies on is the predicate \<open>norflash_laws\<close>.
\<close>

section \<open>The record in memory\<close>

lemma length_header_bytes [simp]: "length (header_bytes h) = 16"
  by (simp add: header_bytes_def le32_def le16_def)

lemma join16: "ucast (ucast w :: u8) + push_bit 8 (ucast (ucast (drop_bit 8 w) :: u8)) = (w :: u16)"
proof -
  have "(ucast (ucast w :: u8) :: u16) + push_bit 8 (ucast (ucast (drop_bit 8 w) :: u8)) =
      or (ucast (ucast w :: u8) :: u16) (push_bit 8 (ucast (ucast (drop_bit 8 w) :: u8)))"
    by (rule disjunctive_add) (auto simp: bit_simps)
  also have "\<dots> = w" by (rule bit_word_eqI) (auto simp: bit_simps)
  finally show ?thesis .
qed

lemma join32:
  "ucast (ucast w :: u8) + push_bit 8 (ucast (ucast (drop_bit 8 w) :: u8)) +
     push_bit 16 (ucast (ucast (drop_bit 16 w) :: u8)) +
     push_bit 24 (ucast (ucast (drop_bit 24 w) :: u8)) = (w :: u32)"
proof -
  let ?a = "ucast (ucast w :: u8) :: u32"
  let ?b = "push_bit 8 (ucast (ucast (drop_bit 8 w) :: u8)) :: u32"
  let ?c = "push_bit 16 (ucast (ucast (drop_bit 16 w) :: u8)) :: u32"
  let ?d = "push_bit 24 (ucast (ucast (drop_bit 24 w) :: u8)) :: u32"
  have "?a + ?b = or ?a ?b" by (rule disjunctive_add) (auto simp: bit_simps)
  moreover have "or ?a ?b + ?c = or (or ?a ?b) ?c" by (rule disjunctive_add) (auto simp: bit_simps)
  moreover have "or (or ?a ?b) ?c + ?d = or (or (or ?a ?b) ?c) ?d"
    by (rule disjunctive_add) (auto simp: bit_simps)
  moreover have "or (or (or ?a ?b) ?c) ?d = w"
  proof (rule bit_word_eqI)
    fix n
    assume "n < LENGTH(32)"
    then consider "n < 8" | "8 \<le> n" "n < 16" | "16 \<le> n" "n < 24" | "24 \<le> n" "n < 32"
      by fastforce
    then show "bit (or (or (or ?a ?b) ?c) ?d) n \<longleftrightarrow> bit w n"
      by cases (auto simp: bit_simps)
  qed
  ultimately show ?thesis by simp
qed

lemma header_of_bytes: "header_of (header_bytes h @ m) = h"
  by (cases h) (simp add: header_of_def header_bytes_def le32_def le16_def get16_def get32_def
      join16 join32 [simplified])

section \<open>Valid records\<close>

text \<open>What the code relies on of the record's layout and of the mirror's header.\<close>

definition nv_env_ok :: "'f nv_env \<Rightarrow> bool" where
  "nv_env_ok env \<longleftrightarrow>
     (\<forall>b. length (nv_encode env b) = NV_EXTENSION_VALID_LEN env) \<and>
     NV_EXTENSION_VALID_LEN env < NV_EXTENSION_SIZE - NV_EXTENSION_HEADER_SIZE \<and>
     (\<forall>m. nv_decode env (nv_encode env (nv_decode env m)) = nv_decode env m)"

definition header_ok :: "'f nv_env \<Rightarrow> NVRECORD_HEADER_T \<Rightarrow> bool" where
  "header_ok env h \<longleftrightarrow>
     magicNumber h = NV_EXTENSION_MAGIC_NUMBER \<and> majorVersion h = NV_EXTENSION_MAJOR_VERSION \<and>
     minorVersion h = NV_EXTENSION_MINOR_VERSION \<and> unat (validLen h) = NV_EXTENSION_VALID_LEN env"

lemmas nv_sizes = NV_EXTENSION_SIZE_def NV_EXTENSION_HEADER_SIZE_def record_size_def

lemma header_of_take: "16 \<le> n \<Longrightarrow> header_of (take n m) = header_of m"
  by (simp add: header_of_def get32_def get16_def)

text \<open>Validity depends on the bytes of the record only.\<close>

lemma valid_take:
  assumes "record_size env \<le> n"
  shows "record_valid env (take n m) = record_valid env m"
proof -
  have n: "16 + NV_EXTENSION_VALID_LEN env \<le> n" using assms by (simp add: nv_sizes)
  then have h: "header_of (take n m) = header_of m" by (simp add: header_of_take)
  have "take v (drop 16 (take n m)) = take v (drop 16 m)" if "v \<le> NV_EXTENSION_VALID_LEN env" for v
    using n that by (simp add: drop_take)
  then show ?thesis
    by (cases "unat (validLen (header_of m)) \<le> NV_EXTENSION_VALID_LEN env")
      (simp_all add: nv_record_data_is_valid_def Let_def h nv_sizes nv_record_items_is_valid_def)
qed

lemma valid_append:
  assumes "length d = record_size env" and "record_valid env d"
  shows "record_valid env (d @ r)"
  using valid_take [of env "record_size env" "d @ r"] assms by simp

lemma image_length: "nv_env_ok env \<Longrightarrow> length (record_image env h b) = record_size env"
  by (simp add: record_image_def nv_env_ok_def nv_sizes)

lemma image_valid:
  assumes "nv_env_ok env" and "header_ok env h"
    and "crc32 h = crc32_c env (take (NV_EXTENSION_VALID_LEN env) (nv_encode env b))"
  shows "record_valid env (record_image env h b)"
proof -
  have "length (nv_encode env b) = NV_EXTENSION_VALID_LEN env" using assms(1) by (simp add: nv_env_ok_def)
  then show ?thesis
    using assms by (simp add: nv_record_data_is_valid_def nv_record_items_is_valid_def record_image_def
        header_of_bytes header_ok_def nv_env_ok_def nv_sizes Let_def)
qed

section \<open>What the flash driver promises\<close>

text \<open>
  The observations of a driver state: the sectors with an operation that is accepted but not
  completed, the content of a sector once all accepted operations are completed, and the amount
  of outstanding work of the device; and, as a history, the records that may be stored. The two flags select
  how much the invariant below claims: \<open>nf_exact\<close> that the main sector has the mirror without exception, \<open>nf_twin\<close> that
  the backup equals the main sector when all is done. Programming NOR flash can only clear bits.
\<close>

record 'f nf_ghost =
  nf_pend :: "'f \<Rightarrow> nat set"
  nf_view :: "'f \<Rightarrow> nat \<Rightarrow> bytes"
  nf_work :: "'f \<Rightarrow> nat"
  nf_hist :: "nv_payload set"
  nf_exact :: bool
  nf_twin :: bool

definition nor_program :: "bytes \<Rightarrow> bytes \<Rightarrow> bytes" where
  "nor_program d old = map2 and d (take (length d) old) @ drop (length d) old"

text \<open>A request for sector \<open>a\<close> is accepted, or refused because the buffers are full of work.\<close>

definition request_law ::
    "'f nf_ghost \<Rightarrow> nat set \<Rightarrow> nat \<Rightarrow> bytes \<Rightarrow> 'f \<Rightarrow> NORFLASH_API_RET_T \<times> 'f \<Rightarrow> bool" where
  "request_law g A a new f r \<longleftrightarrow>
     fst r = NORFLASH_API_OK \<and> nf_pend g (snd r) \<subseteq> insert a (nf_pend g f) \<and>
       (\<forall>x\<in>A. nf_view g (snd r) x = (if x = a then new else nf_view g f x)) \<or>
     fst r = NORFLASH_API_BUFFER_FULL \<and> nf_pend g (snd r) \<subseteq> nf_pend g f \<and>
       (\<forall>x\<in>A. nf_view g (snd r) x = nf_view g f x) \<and> 0 < nf_work g f \<and> nf_work g (snd r) = nf_work g f"

text \<open>
  The laws for the sectors \<open>A\<close>: the device is known; erase and write requests behave as above; a
  flush completes work, changes no content and adds no pending sector; without outstanding work
  there is a free buffer; an unused module has nothing pending; reads see the buffered content;
  and a sector without pending operation reads the same through the memory map.
\<close>

definition norflash_laws :: "'f norflash \<Rightarrow> 'f nf_ghost \<Rightarrow> nat set \<Rightarrow> bool" where
  "norflash_laws api g A \<longleftrightarrow>
     (\<forall>f. norflash_api_get_dev_id api f = NORFLASH_API_OK) \<and>
     (\<forall>f. \<forall>a\<in>A. request_law g A a (replicate NV_EXTENSION_SIZE 0xFF) f
        (norflash_api_erase api a NV_EXTENSION_SIZE True f)) \<and>
     (\<forall>f d. \<forall>a\<in>A. request_law g A a (nor_program d (nf_view g f a)) f (norflash_api_write api a d f)) \<and>
     (\<forall>f. nf_pend g (norflash_api_flush api f) \<subseteq> nf_pend g f \<and>
        (\<forall>x\<in>A. nf_view g (norflash_api_flush api f) x = nf_view g f x) \<and>
        (0 < nf_work g f \<longrightarrow> nf_work g (norflash_api_flush api f) < nf_work g f) \<and>
        (nf_work g f = 0 \<longrightarrow> nf_work g (norflash_api_flush api f) = 0)) \<and>
     (\<forall>f. nf_work g f = 0 \<longrightarrow> used_buffers api f = 0 \<and> 0 < free_erasing api f \<and> 0 < free_writing api f) \<and>
     (\<forall>f. used_buffers api f = 0 \<longrightarrow> nf_pend g f \<inter> A = {}) \<and>
     (\<forall>f n. \<forall>a\<in>A. norflash_api_read api a n f = (NORFLASH_API_OK, take n (nf_view g f a))) \<and>
     (\<forall>f. \<forall>a\<in>A. a \<notin> nf_pend g f \<longrightarrow> flash_mapped api a NV_EXTENSION_SIZE f = take NV_EXTENSION_SIZE (nf_view g f a))"

abbreviation main_sec :: "'f nv_env \<Rightarrow> nat" where
  "main_sec env \<equiv> userdata_start env"

abbreviation bak_sec :: "'f nv_env \<Rightarrow> nat" where
  "bak_sec env \<equiv> userdata_start env + NV_EXTENSION_SIZE"

abbreviation nv_sectors :: "'f nv_env \<Rightarrow> nat set" where
  "nv_sectors env \<equiv> {main_sec env, bak_sec env}"

abbreviation nv_laws :: "'f nv_env \<Rightarrow> 'f nf_ghost \<Rightarrow> bool" where
  "nv_laws env g \<equiv> nv_env_ok env \<and> norflash_laws (nv_api env) g (nv_sectors env)"

lemma NV_EXTENSION_SIZE_pos [simp]: "0 < NV_EXTENSION_SIZE" "NV_EXTENSION_SIZE \<noteq> 0"
  by (simp_all add: NV_EXTENSION_SIZE_def)

section \<open>The invariant of the flush\<close>

definition stored_payload :: "'f nv_env \<Rightarrow> bytes \<Rightarrow> nv_payload" where
  "stored_payload env m =
     nv_decode env (take (NV_EXTENSION_VALID_LEN env) (drop NV_EXTENSION_HEADER_SIZE m))"

text \<open>A valid record of the history.\<close>

definition rec_ok :: "'f nv_env \<Rightarrow> 'f nf_ghost \<Rightarrow> bytes \<Rightarrow> bool" where
  "rec_ok env g m \<longleftrightarrow> record_valid env m \<and> stored_payload env m \<in> nf_hist g"

lemma stored_take: "record_size env \<le> n \<Longrightarrow> stored_payload env (take n m) = stored_payload env m"
  by (simp add: stored_payload_def nv_sizes drop_take min_absorb1)

lemma rec_ok_take: "record_size env \<le> n \<Longrightarrow> rec_ok env g (take n m) = rec_ok env g m"
  by (simp add: rec_ok_def valid_take stored_take)

text \<open>A sector that a loss of power cannot harm: nothing is pending on it and it holds a valid record.\<close>

definition sector_good :: "'f nv_env \<Rightarrow> 'f nf_ghost \<Rightarrow> 'f \<Rightarrow> nat \<Rightarrow> bool" where
  "sector_good env g f x \<longleftrightarrow>
     x \<notin> nf_pend g f \<and> rec_ok env g (nf_view g f x) \<and> length (nf_view g f x) = NV_EXTENSION_SIZE"

definition erased :: bytes where
  "erased = replicate NV_EXTENSION_SIZE 0xFF"

text \<open>
  The condition of each state. With \<open>c\<close> set the backup protects the record while the main sector
  is rewritten; in the states of the backup the main sector protects it in any case.
\<close>

definition phase_inv :: "'f nv_env \<Rightarrow> 'f nf_ghost \<Rightarrow> bool \<Rightarrow> 'f nv_state \<Rightarrow> bool" where
  "phase_inv env g c s \<longleftrightarrow>
     (let f = nv_flash s; m = main_sec env; b = bak_sec env; v = nf_view g f; n = record_size env in
      case fl s of
        NV_STATE_IDLE \<Rightarrow> c \<longrightarrow> sector_good env g f b
      | NV_STATE_MAIN_ERASING \<Rightarrow> c \<longrightarrow> sector_good env g f b
      | NV_STATE_MAIN_ERASED \<Rightarrow> (c \<longrightarrow> sector_good env g f b) \<and> v m = erased
      | NV_STATE_MAIN_WRITE_PENDING \<Rightarrow> (c \<longrightarrow> sector_good env g f b) \<and> v m = erased \<and>
          length (nv_burn_buf s) = n \<and> rec_ok env g (nv_burn_buf s)
      | NV_STATE_MAIN_WRITTEN \<Rightarrow> (c \<longrightarrow> sector_good env g f b) \<and> rec_ok env g (v m) \<and>
          length (v m) = NV_EXTENSION_SIZE
      | NV_STATE_MAIN_DONE \<Rightarrow> sector_good env g f m
      | NV_STATE_BAK_ERASING \<Rightarrow> sector_good env g f m
      | NV_STATE_BAK_ERASED \<Rightarrow> sector_good env g f m \<and> v b = erased
      | NV_STATE_BAK_WRITE_PENDING \<Rightarrow> sector_good env g f m \<and> v b = erased \<and>
          nv_burn_buf s = take n (v m)
      | NV_STATE_BAK_WRITTEN \<Rightarrow> sector_good env g f m \<and> take n (v b) = take n (v m) \<and>
          length (v b) = NV_EXTENSION_SIZE
      | _ \<Rightarrow> False)"

text \<open>
  What is on its way to the flash: whenever the mirror is not marked as changed, the main sector
  holds it, or will once the burn buffer is written; when idle it is safe there.
\<close>

text \<open>
  One field is excepted unless \<open>nf_exact\<close> is set: \<open>nv_record_blerec_init\<close> fills in the own BLE address of the mirror without
  marking the change, so the stored record may still have it unset.
\<close>

definition unset_ble_addr :: "nv_payload \<Rightarrow> nv_payload" where
  "unset_ble_addr b = upd_ble (\<lambda>i. i\<lparr>self_info := (self_info i)\<lparr>ble_addr := replicate 6 0\<rparr>\<rparr>) b"

definition holds :: "'f nv_env \<Rightarrow> 'f nf_ghost \<Rightarrow> bytes \<Rightarrow> 'f nv_state \<Rightarrow> bool" where
  "holds env g m s \<longleftrightarrow>
     stored_payload env m = nv_decode env (nv_encode env (nv_body s)) \<or>
     \<not> nf_exact g \<and> stored_payload env m = nv_decode env (nv_encode env (unset_ble_addr (nv_body s)))"

definition fresh_inv :: "'f nv_env \<Rightarrow> 'f nf_ghost \<Rightarrow> 'f nv_state \<Rightarrow> bool" where
  "fresh_inv env g s \<longleftrightarrow>
     is_update (nv_flush_state s) \<or>
     (case fl s of
        NV_STATE_MAIN_ERASING \<Rightarrow> False
      | NV_STATE_MAIN_ERASED \<Rightarrow> False
      | NV_STATE_MAIN_WRITE_PENDING \<Rightarrow> holds env g (nv_burn_buf s) s
      | NV_STATE_IDLE \<Rightarrow> holds env g (nf_view g (nv_flash s) (main_sec env)) s \<and>
          sector_good env g (nv_flash s) (main_sec env) \<and>
          (nf_twin g \<longrightarrow> take (record_size env) (nf_view g (nv_flash s) (bak_sec env)) =
             take (record_size env) (nf_view g (nv_flash s) (main_sec env)))
      | _ \<Rightarrow> holds env g (nf_view g (nv_flash s) (main_sec env)) s)"

definition base_inv :: "'f nv_env \<Rightarrow> 'f nf_ghost \<Rightarrow> 'f nv_state \<Rightarrow> bool" where
  "base_inv env g s \<longleftrightarrow>
     nvrecord_extension_p s \<and> header_ok env (nv_header s) \<and> \<not> nv_mpu_fault s \<and>
     user_data_main_start s = main_sec env \<and> user_data_bak_start s = bak_sec env \<and>
     written_size (nv_flush_state s) = 0 \<and> nv_decode env (nv_encode env (nv_body s)) \<in> nf_hist g"

definition flush_inv :: "'f nv_env \<Rightarrow> 'f nf_ghost \<Rightarrow> bool \<Rightarrow> 'f nv_state \<Rightarrow> bool" where
  "flush_inv env g c s \<longleftrightarrow> base_inv env g s \<and> phase_inv env g c s \<and> fresh_inv env g s"

lemmas flush_inv_defs = flush_inv_def base_inv_def phase_inv_def fresh_inv_def

section \<open>Consequences of the laws\<close>

lemma lawsD:
  assumes "norflash_laws api g A"
  shows "norflash_api_get_dev_id api f = NORFLASH_API_OK"
    and "a \<in> A \<Longrightarrow> request_law g A a erased f (norflash_api_erase api a NV_EXTENSION_SIZE True f)"
    and "a \<in> A \<Longrightarrow> request_law g A a (nor_program d (nf_view g f a)) f (norflash_api_write api a d f)"
    and "nf_pend g (norflash_api_flush api f) \<subseteq> nf_pend g f"
    and "x \<in> A \<Longrightarrow> nf_view g (norflash_api_flush api f) x = nf_view g f x"
    and "0 < nf_work g f \<Longrightarrow> nf_work g (norflash_api_flush api f) < nf_work g f"
    and "nf_work g f = 0 \<Longrightarrow> nf_work g (norflash_api_flush api f) = 0"
    and "nf_work g f = 0 \<Longrightarrow> used_buffers api f = 0 \<and> 0 < free_erasing api f \<and> 0 < free_writing api f"
    and "used_buffers api f = 0 \<Longrightarrow> a \<in> A \<Longrightarrow> a \<notin> nf_pend g f"
    and "a \<in> A \<Longrightarrow> norflash_api_read api a n f = (NORFLASH_API_OK, take n (nf_view g f a))"
    and "a \<in> A \<Longrightarrow> a \<notin> nf_pend g f \<Longrightarrow> flash_mapped api a NV_EXTENSION_SIZE f =
      take NV_EXTENSION_SIZE (nf_view g f a)"
  using assms unfolding norflash_laws_def erased_def by blast+

lemma program_erased: "length d \<le> NV_EXTENSION_SIZE \<Longrightarrow>
    nor_program d erased = d @ replicate (NV_EXTENSION_SIZE - length d) 0xFF"
proof -
  have "map2 and d (replicate n (0xFF :: u8)) = d" if "length d \<le> n" for d :: bytes and n
    using that
  proof (induction d arbitrary: n)
    case (Cons x d)
    then obtain k where "n = Suc k" by (cases n) auto
    moreover have "and x (0xFF :: u8) = x"
    proof -
      have "(0xFF :: u8) = - 1" by simp
      then show ?thesis by (simp only: and.right_neutral)
    qed
    ultimately show ?case using Cons by simp
  qed simp
  then show "length d \<le> NV_EXTENSION_SIZE \<Longrightarrow>
      nor_program d erased = d @ replicate (NV_EXTENSION_SIZE - length d) 0xFF"
    by (simp add: nor_program_def erased_def take_replicate min_def)
qed

lemma program_same: "take (length d) old = d \<Longrightarrow> nor_program d old = old"
proof -
  assume d: "take (length d) old = d"
  have "map2 and xs xs = xs" for xs :: bytes by (induction xs) auto
  then have "nor_program d old = d @ drop (length d) old" using d by (simp add: nor_program_def)
  then show ?thesis using d by (metis append_take_drop_id)
qed

definition some_good :: "'f nv_env \<Rightarrow> 'f nf_ghost \<Rightarrow> bool \<Rightarrow> 'f \<Rightarrow> bool" where
  "some_good env g c f \<longleftrightarrow> c \<longrightarrow> (\<exists>x \<in> nv_sectors env. sector_good env g f x)"

text \<open>What is written to a sector: a whole record, on an erased sector or again.\<close>

definition write_ok :: "'f nv_env \<Rightarrow> 'f nf_ghost \<Rightarrow> 'f \<Rightarrow> nat \<Rightarrow> bytes \<Rightarrow> bool" where
  "write_ok env g f a d \<longleftrightarrow> rec_ok env g d \<and> length d = record_size env \<and>
     (nf_view g f a = erased \<or> take (record_size env) (nf_view g f a) = d)"

text \<open>
  An observer of the driver: a predicate on its states that holds after every call of the flush
  that leaves some good sector. It makes the states between two calls of a longer computation
  visible.
\<close>

definition observes :: "'f nv_env \<Rightarrow> 'f nf_ghost \<Rightarrow> bool \<Rightarrow> ('f \<Rightarrow> bool) \<Rightarrow> bool" where
  "observes env g c Q \<longleftrightarrow>
     (\<forall>f. Q f \<longrightarrow>
        (\<forall>a \<in> nv_sectors env.
           let f' = snd (norflash_api_erase (nv_api env) a NV_EXTENSION_SIZE True f) in some_good env g c f' \<longrightarrow> Q f') \<and>
        (\<forall>a \<in> nv_sectors env. \<forall>d. write_ok env g f a d \<longrightarrow>
           (let f' = snd (norflash_api_write (nv_api env) a d f) in some_good env g c f' \<longrightarrow> Q f')) \<and>
        (some_good env g c (norflash_api_flush (nv_api env) f) \<longrightarrow> Q (norflash_api_flush (nv_api env) f)))"

lemma sector_good_keep:
  "sector_good env g f x \<Longrightarrow> nf_pend g f' \<subseteq> insert a (nf_pend g f) \<Longrightarrow> a \<noteq> x \<Longrightarrow>
     nf_view g f' x = nf_view g f x \<Longrightarrow> sector_good env g f' x"
  by (auto simp: sector_good_def)

lemma sector_good_mono:
  "sector_good env g f x \<Longrightarrow> nf_pend g f' \<subseteq> nf_pend g f \<Longrightarrow>
     nf_view g f' x = nf_view g f x \<Longrightarrow> sector_good env g f' x"
  by (auto simp: sector_good_def)

lemma some_goodI: "(c \<Longrightarrow> sector_good env g f x) \<Longrightarrow> x \<in> nv_sectors env \<Longrightarrow> some_good env g c f"
  by (auto simp: some_good_def)

section \<open>One asynchronous step\<close>

text \<open>The progress of the flush: the remaining states, then the outstanding work.\<close>

definition fl_rank :: "NV_FLUSH_STATE \<Rightarrow> nat" where
  "fl_rank st =
     (let u = (if is_update st then 10 else 0) in
      case fl_state st of
        NV_STATE_IDLE \<Rightarrow> if is_update st then 8 else 0
      | NV_STATE_MAIN_ERASING \<Rightarrow> 8
      | NV_STATE_MAIN_ERASED \<Rightarrow> 7
      | NV_STATE_MAIN_WRITTING \<Rightarrow> 6 + u
      | NV_STATE_MAIN_WRITE_PENDING \<Rightarrow> 6 + u
      | NV_STATE_MAIN_WRITTEN \<Rightarrow> 5 + u
      | NV_STATE_MAIN_DONE \<Rightarrow> 4 + u
      | NV_STATE_BAK_ERASING \<Rightarrow> 4 + u
      | NV_STATE_BAK_ERASED \<Rightarrow> 3 + u
      | NV_STATE_BAK_WRITTING \<Rightarrow> 3 + u
      | NV_STATE_BAK_WRITE_PENDING \<Rightarrow> 2 + u
      | NV_STATE_BAK_WRITTEN \<Rightarrow> 1 + u
      | NV_STATE_BAK_DONE \<Rightarrow> u)"

definition flush_progress :: "'f nf_ghost \<Rightarrow> 'f nv_state \<Rightarrow> 'f nv_state \<Rightarrow> bool" where
  "flush_progress g s' s \<longleftrightarrow>
     fl_rank (nv_flush_state s') < fl_rank (nv_flush_state s) \<or>
     fl_rank (nv_flush_state s') = fl_rank (nv_flush_state s) \<and>
       nf_work g (nv_flash s') < nf_work g (nv_flash s)"

definition step_ok ::
    "'f nv_env \<Rightarrow> 'f nf_ghost \<Rightarrow> bool \<Rightarrow> ('f \<Rightarrow> bool) \<Rightarrow> 'f nv_state \<Rightarrow> (int \<times> 'f nv_state) nv_out \<Rightarrow> bool" where
  "step_ok env g c Q s r \<longleftrightarrow>
     (\<exists>ret s'. r = NvDone (ret, s') \<and> flush_inv env g c s' \<and> Q (nv_flash s') \<and>
        nv_body s' = nv_body s \<and> (nv_mpu_rw s' \<longrightarrow> nv_mpu_rw s) \<and> flush_progress g s' s)"

lemma set_fl_simps [simp]:
  "nv_flush_state (set_fl st s) = (nv_flush_state s)\<lparr>fl_state := st\<rparr>"
  "nv_flash (set_fl st s) = nv_flash s" "nv_body (set_fl st s) = nv_body s"
  "nv_header (set_fl st s) = nv_header s" "nvrecord_extension_p (set_fl st s) = nvrecord_extension_p s"
  "nv_mpu_rw (set_fl st s) = nv_mpu_rw s" "nv_mpu_fault (set_fl st s) = nv_mpu_fault s"
  "nv_burn_buf (set_fl st s) = nv_burn_buf s"
  "user_data_main_start (set_fl st s) = user_data_main_start s"
  "user_data_bak_start (set_fl st s) = user_data_bak_start s"
  by (simp_all add: set_fl_def)

lemma request_async_cases [consumes 2, case_names accepted refused]:
  assumes law: "norflash_laws (nv_api env) g A" and req: "request_law g A a new (nv_flash s) r"
  obtains
    (accepted) "request_async env nxt r s = NvDone (0, set_fl nxt (s\<lparr>nv_flash := snd r\<rparr>))"
      "nf_pend g (snd r) \<subseteq> insert a (nf_pend g (nv_flash s))"
      "\<forall>x\<in>A. nf_view g (snd r) x = (if x = a then new else nf_view g (nv_flash s) x)"
  | (refused) f where "f = norflash_api_flush (nv_api env) (snd r)"
      "request_async env nxt r s = NvDone (1, s\<lparr>nv_flash := f\<rparr>)"
      "nf_pend g (snd r) \<subseteq> nf_pend g (nv_flash s)" "nf_pend g f \<subseteq> nf_pend g (nv_flash s)"
      "\<forall>x\<in>A. nf_view g (snd r) x = nf_view g (nv_flash s) x"
      "\<forall>x\<in>A. nf_view g f x = nf_view g (nv_flash s) x"
      "nf_work g f < nf_work g (nv_flash s)"
proof (cases "fst r = NORFLASH_API_OK")
  case True
  then have "nf_pend g (snd r) \<subseteq> insert a (nf_pend g (nv_flash s))"
    "\<forall>x\<in>A. nf_view g (snd r) x = (if x = a then new else nf_view g (nv_flash s) x)"
    using req by (auto simp: request_law_def)
  with True accepted show ?thesis by (simp add: request_async_def Let_def ret_int_def)
next
  case False
  let ?f = "norflash_api_flush (nv_api env) (snd r)"
  have r: "fst r = NORFLASH_API_BUFFER_FULL" "nf_pend g (snd r) \<subseteq> nf_pend g (nv_flash s)"
    "\<forall>x\<in>A. nf_view g (snd r) x = nf_view g (nv_flash s) x" "0 < nf_work g (nv_flash s)"
    "nf_work g (snd r) = nf_work g (nv_flash s)"
    using req False by (auto simp: request_law_def)
  have "nf_pend g ?f \<subseteq> nf_pend g (nv_flash s)" using lawsD(4) [OF law, of "snd r"] r(2) by blast
  moreover have "\<forall>x\<in>A. nf_view g ?f x = nf_view g (nv_flash s) x" using lawsD(5) [OF law] r(3) by simp
  moreover have "nf_work g ?f < nf_work g (nv_flash s)" using lawsD(6) [OF law, of "snd r"] r(4,5) by simp
  ultimately show ?thesis
    using refused [of ?f] r by (simp add: request_async_def Let_def ret_int_def)
qed

text \<open>The observer after an accepted or a refused request, when sector \<open>x\<close> is good.\<close>

lemma observe_erase:
  "observes env g c Q \<Longrightarrow> a \<in> nv_sectors env \<Longrightarrow> Q f \<Longrightarrow>
     some_good env g c (snd (norflash_api_erase (nv_api env) a NV_EXTENSION_SIZE True f)) \<Longrightarrow>
     Q (snd (norflash_api_erase (nv_api env) a NV_EXTENSION_SIZE True f))"
  "observes env g c Q \<Longrightarrow> a \<in> nv_sectors env \<Longrightarrow> write_ok env g f a d \<Longrightarrow> Q f \<Longrightarrow>
     some_good env g c (snd (norflash_api_write (nv_api env) a d f)) \<Longrightarrow>
     Q (snd (norflash_api_write (nv_api env) a d f))"
  "observes env g c Q \<Longrightarrow> Q f \<Longrightarrow> some_good env g c (norflash_api_flush (nv_api env) f) \<Longrightarrow>
     Q (norflash_api_flush (nv_api env) f)"
  unfolding observes_def Let_def by blast+

lemma request_async_observed [consumes 7, case_names accepted refused]:
  assumes law: "norflash_laws (nv_api env) g (nv_sectors env)"
    and req: "request_law g (nv_sectors env) a new (nv_flash s) r"
    and O: "observes env g c Q"
    and obs: "some_good env g c (snd r) \<longrightarrow> Q (snd r)"
    and x: "x \<in> nv_sectors env" "a \<noteq> x" and good: "c \<or> d \<longrightarrow> sector_good env g (nv_flash s) x"
  obtains
    (accepted) "request_async env nxt r s = NvDone (0, set_fl nxt (s\<lparr>nv_flash := snd r\<rparr>))"
      "Q (snd r)" "c \<or> d \<Longrightarrow> sector_good env g (snd r) x"
      "\<And>y. y \<in> nv_sectors env \<Longrightarrow> nf_view g (snd r) y = (if y = a then new else nf_view g (nv_flash s) y)"
  | (refused) f where "request_async env nxt r s = NvDone (1, s\<lparr>nv_flash := f\<rparr>)"
      "Q f" "c \<or> d \<Longrightarrow> sector_good env g f x"
      "\<And>y. y \<in> nv_sectors env \<Longrightarrow> nf_view g f y = nf_view g (nv_flash s) y"
      "nf_work g f < nf_work g (nv_flash s)"
  using law req
proof (cases rule: request_async_cases [where nxt = nxt])
  case 1: accepted
  have "c \<or> d \<Longrightarrow> sector_good env g (snd r) x"
    using sector_good_keep [OF mp [OF good] 1(2) x(2)] bspec [OF 1(3) x(1)] x(2) by simp
  moreover from this have "Q (snd r)" by (intro mp [OF obs] some_goodI [OF _ x(1)]) simp
  ultimately show ?thesis using accepted 1 by blast
next
  case 2: (refused f)
  have g1: "c \<or> d \<Longrightarrow> sector_good env g (snd r) x"
    using sector_good_mono [OF mp [OF good] 2(3)] bspec [OF 2(5) x(1)] by simp
  have g2: "c \<or> d \<Longrightarrow> sector_good env g f x"
    using sector_good_mono [OF mp [OF good] 2(4)] bspec [OF 2(6) x(1)] by simp
  have "Q (snd r)" using g1 by (intro mp [OF obs] some_goodI [OF _ x(1)]) simp
  moreover have "some_good env g c (norflash_api_flush (nv_api env) (snd r))"
    using g2 2(1) by (intro some_goodI [OF _ x(1)]) simp
  ultimately have "Q f" using observe_erase(3) [OF O] 2(1) by simp
  then show ?thesis using refused g2 2 by blast
qed

lemma async_erase_main:
  assumes L: "nv_laws env g" and O: "observes env g c Q"
    and I: "flush_inv env g c s" and Qs: "Q (nv_flash s)"
    and st: "fl s = NV_STATE_IDLE \<and> is_update (nv_flush_state s) \<or> fl s = NV_STATE_MAIN_ERASING"
  shows "step_ok env g c Q s (flush_main_async env s)"
proof -
  let ?s = "if fl s = NV_STATE_IDLE then set_fl NV_STATE_MAIN_ERASING s else s"
  let ?r = "norflash_api_erase (nv_api env) (main_sec env) NV_EXTENSION_SIZE True (nv_flash s)"
  have law: "norflash_laws (nv_api env) g (nv_sectors env)" using L by simp
  have u: "is_update (nv_flush_state s)" using st I by (auto simp: flush_inv_def fresh_inv_def)
  have f: "nv_flash ?s = nv_flash s" by simp
  have b: "c \<or> False \<longrightarrow> sector_good env g (nv_flash ?s) (bak_sec env)"
    using st I by (auto simp: flush_inv_def phase_inv_def Let_def)
  have base: "base_inv env g s" using I by (simp add: flush_inv_def)
  have eq: "flush_main_async env s = request_async env NV_STATE_MAIN_ERASED ?r ?s"
    using st base lawsD(1) [OF law] by (auto simp: flush_main_async_def Let_def base_inv_def)
  have req: "request_law g (nv_sectors env) (main_sec env) erased (nv_flash ?s) ?r"
    unfolding f by (rule lawsD(2) [OF law]) simp
  have obs: "some_good env g c (snd ?r) \<longrightarrow> Q (snd ?r)" using observe_erase(1) [OF O _ Qs] by simp
  have x: "bak_sec env \<in> nv_sectors env" "main_sec env \<noteq> bak_sec env" by simp_all
  from law req O obs x b show ?thesis
  proof (cases rule: request_async_observed [where nxt = NV_STATE_MAIN_ERASED])
    case accepted
    have "flush_inv env g c (set_fl NV_STATE_MAIN_ERASED (?s\<lparr>nv_flash := snd ?r\<rparr>))"
      using base accepted(3,4) u
      by (auto simp: flush_inv_def base_inv_def phase_inv_def fresh_inv_def)
    then show ?thesis using eq accepted(1,2) st u
      by (auto simp: step_ok_def flush_progress_def fl_rank_def)
  next
    case (refused f)
    have "flush_inv env g c (?s\<lparr>nv_flash := f\<rparr>)"
      using base refused(3) u st by (auto simp: flush_inv_def base_inv_def phase_inv_def fresh_inv_def)
    then show ?thesis using eq refused(1,2,5) st u
      by (auto simp: step_ok_def flush_progress_def fl_rank_def)
  qed
qed

lemma prepare_step:
  assumes L: "nv_laws env g" and I: "flush_inv env g c s" and st: "fl s = NV_STATE_MAIN_ERASED"
  obtains s' where "flush_main_prepare env s = NvDone s'" "flush_inv env g c s'"
    "nv_flush_state s' = (nv_flush_state s)\<lparr>fl_state := NV_STATE_MAIN_WRITE_PENDING, is_update := False\<rparr>"
    "nv_flash s' = nv_flash s" "nv_body s' = nv_body s" "\<not> nv_mpu_rw s'"
proof -
  let ?h = "(nv_header s)\<lparr>crc32 := crc32_c env (take (NV_EXTENSION_VALID_LEN env) (nv_encode env (nv_body s)))\<rparr>"
  let ?buf = "record_image env ?h (nv_body s)"
  let ?s = "s\<lparr>nv_mpu_rw := False, nv_header := ?h, nv_burn_buf := ?buf,
    nv_flush_state := (nv_flush_state s)\<lparr>fl_state := NV_STATE_MAIN_WRITE_PENDING, is_update := False\<rparr>\<rparr>"
  have env: "nv_env_ok env" and base: "base_inv env g s"
    and ph: "c \<longrightarrow> sector_good env g (nv_flash s) (bak_sec env)" "nf_view g (nv_flash s) (main_sec env) = erased"
    using L I st by (auto simp: flush_inv_def phase_inv_def Let_def)
  have h: "header_ok env ?h" using base by (simp add: base_inv_def header_ok_def)
  have v: "record_valid env ?buf" by (rule image_valid [OF env h]) simp
  have "stored_payload env ?buf = nv_decode env (nv_encode env (nv_body s))"
    using env by (simp add: stored_payload_def record_image_def nv_sizes nv_env_ok_def)
  then have r: "rec_ok env g ?buf" using v base by (simp add: rec_ok_def base_inv_def)
  have hold: "holds env g ?buf s"
    using env by (simp add: holds_def stored_payload_def record_image_def nv_sizes nv_env_ok_def)
  have "flush_main_prepare env s = NvDone ?s"
    using v by (simp add: flush_main_prepare_def Let_def nv_ops set_fl_def)
  moreover have "flush_inv env g c ?s"
    using base ph h r hold image_length [OF env]
    by (simp add: flush_inv_def base_inv_def phase_inv_def fresh_inv_def holds_def)
  ultimately show ?thesis by (rule that) simp_all
qed

lemma async_prepare_main:
  assumes L: "nv_laws env g" and I: "flush_inv env g c s" and Qs: "Q (nv_flash s)"
    and st: "fl s = NV_STATE_MAIN_ERASED"
  shows "step_ok env g c Q s (flush_main_async env s)"
proof -
  obtain s' where s': "flush_main_prepare env s = NvDone s'" "flush_inv env g c s'"
    "nv_flush_state s' = (nv_flush_state s)\<lparr>fl_state := NV_STATE_MAIN_WRITE_PENDING, is_update := False\<rparr>"
    "nv_flash s' = nv_flash s" "nv_body s' = nv_body s" "\<not> nv_mpu_rw s'"
    using prepare_step [OF L I st] by blast
  have "flush_main_async env s = NvDone (0, s')"
    using st s'(1) I lawsD(1) [of "nv_api env" g "nv_sectors env"] L
    by (simp add: flush_main_async_def Let_def ret_int_def flush_inv_def base_inv_def)
  then show ?thesis using s' Qs st by (simp add: step_ok_def flush_progress_def fl_rank_def)
qed

text \<open>Programming a whole record into an erased sector.\<close>

lemma program_record:
  assumes "nv_env_ok env" and "length d = record_size env"
  shows "take (record_size env) (nor_program d erased) = d"
    and "length (nor_program d erased) = NV_EXTENSION_SIZE"
    and "rec_ok env g (nor_program d erased) = rec_ok env g d"
    and "holds env g (nor_program d erased) s = holds env g d s"
proof -
  have n: "length d \<le> NV_EXTENSION_SIZE" using assms by (simp add: nv_env_ok_def nv_sizes)
  note p = program_erased [OF n]
  show t: "take (record_size env) (nor_program d erased) = d" using p assms(2) by simp
  show "length (nor_program d erased) = NV_EXTENSION_SIZE" using p n by simp
  show "rec_ok env g (nor_program d erased) = rec_ok env g d"
    using rec_ok_take [of env "record_size env" g "nor_program d erased"] t by simp
  have "take (NV_EXTENSION_VALID_LEN env) (drop 16 (nor_program d erased)) =
      take (NV_EXTENSION_VALID_LEN env) (drop 16 d)"
    using p assms(2) by (simp add: nv_sizes)
  then show "holds env g (nor_program d erased) s = holds env g d s"
    by (simp add: holds_def stored_payload_def NV_EXTENSION_HEADER_SIZE_def)
qed

lemma async_write_main:
  assumes L: "nv_laws env g" and O: "observes env g c Q"
    and I: "flush_inv env g c s" and Qs: "Q (nv_flash s)" and st: "fl s = NV_STATE_MAIN_WRITE_PENDING"
  shows "step_ok env g c Q s (flush_main_async env s)"
proof -
  let ?d = "nv_burn_buf s" and ?f = "nv_flash s"
  let ?r = "norflash_api_write (nv_api env) (main_sec env) ?d ?f"
  have law: "norflash_laws (nv_api env) g (nv_sectors env)" and env: "nv_env_ok env" using L by simp_all
  have base: "base_inv env g s" and fr: "fresh_inv env g s"
    and b: "c \<or> False \<longrightarrow> sector_good env g ?f (bak_sec env)"
    and e: "nf_view g ?f (main_sec env) = erased"
    and d: "length ?d = record_size env" "rec_ok env g ?d"
    using I st by (auto simp: flush_inv_def phase_inv_def Let_def)
  have eq: "flush_main_async env s = request_async env NV_STATE_MAIN_WRITTEN ?r s"
    using st base lawsD(1) [OF law] by (simp add: flush_main_async_def Let_def base_inv_def)
  have req: "request_law g (nv_sectors env) (main_sec env) (nor_program ?d erased) ?f ?r"
    using lawsD(3) [OF law, of "main_sec env" ?d ?f] e by simp
  have obs: "some_good env g c (snd ?r) \<longrightarrow> Q (snd ?r)" 
    using observe_erase(2) [OF O _ _ Qs, of "main_sec env" ?d] d e by (simp add: write_ok_def)
  have x: "bak_sec env \<in> nv_sectors env" "main_sec env \<noteq> bak_sec env" by simp_all
  from law req O obs x b show ?thesis
  proof (cases rule: request_async_observed [where nxt = NV_STATE_MAIN_WRITTEN])
    case accepted
    have "flush_inv env g c (set_fl NV_STATE_MAIN_WRITTEN (s\<lparr>nv_flash := snd ?r\<rparr>))"
      using base accepted(3,4) d(2) fr st program_record [OF env d(1)]
      by (auto simp: flush_inv_def base_inv_def phase_inv_def fresh_inv_def holds_def)
    then show ?thesis using eq accepted(1,2) st
      by (auto simp: step_ok_def flush_progress_def fl_rank_def)
  next
    case (refused f)
    have "flush_inv env g c (s\<lparr>nv_flash := f\<rparr>)"
      using base refused(3,4) e d fr st
      by (auto simp: flush_inv_def base_inv_def phase_inv_def fresh_inv_def holds_def)
    then show ?thesis using eq refused(1,2,5) st
      by (auto simp: step_ok_def flush_progress_def fl_rank_def)
  qed
qed

text \<open>A driver flush while sector \<open>x\<close> is good.\<close>

lemma flush_observed:
  assumes law: "norflash_laws (nv_api env) g (nv_sectors env)"
    and O: "observes env g c Q" and Qs: "Q f"
    and x: "x \<in> nv_sectors env" and good: "c \<or> d \<longrightarrow> sector_good env g f x"
  shows "Q (norflash_api_flush (nv_api env) f)"
    and "c \<or> d \<longrightarrow> sector_good env g (norflash_api_flush (nv_api env) f) x"
proof -
  show *: "c \<or> d \<longrightarrow> sector_good env g (norflash_api_flush (nv_api env) f) x"
    using good sector_good_mono [OF _ lawsD(4) [OF law] lawsD(5) [OF law x]] by blast
  then show "Q (norflash_api_flush (nv_api env) f)"
    by (intro observe_erase(3) [OF O Qs] some_goodI [OF _ x]) simp
qed

lemma work_of_used: "norflash_laws api g A \<Longrightarrow> used_buffers api f \<noteq> 0 \<Longrightarrow> 0 < nf_work g f"
  using lawsD(8) [of api g A f] by (cases "nf_work g f") auto

lemma async_await_main:
  assumes L: "nv_laws env g" and O: "observes env g c Q"
    and I: "flush_inv env g c s" and Qs: "Q (nv_flash s)" and st: "fl s = NV_STATE_MAIN_WRITTEN"
  shows "step_ok env g c Q s (flush_main_async env s)"
proof -
  let ?f = "norflash_api_flush (nv_api env) (nv_flash s)"
  have law: "norflash_laws (nv_api env) g (nv_sectors env)" using L by simp
  have base: "base_inv env g s" and fr: "fresh_inv env g s"
    and b: "c \<or> False \<longrightarrow> sector_good env g (nv_flash s) (bak_sec env)"
    and m: "rec_ok env g (nf_view g (nv_flash s) (main_sec env))"
      "length (nf_view g (nv_flash s) (main_sec env)) = NV_EXTENSION_SIZE"
    using I st by (auto simp: flush_inv_def phase_inv_def Let_def)
  have eq: "flush_main_async env s = await_async env NV_STATE_MAIN_DONE s"
    using st base lawsD(1) [OF law] by (simp add: flush_main_async_def Let_def base_inv_def)
  show ?thesis
  proof (cases "used_buffers (nv_api env) (nv_flash s) = 0")
    case True
    then have "main_sec env \<notin> nf_pend g (nv_flash s)" using lawsD(9) [OF law] by blast
    then have "flush_inv env g c (set_fl NV_STATE_MAIN_DONE s)"
      using base fr m st by (auto simp: flush_inv_def base_inv_def phase_inv_def fresh_inv_def holds_def
          sector_good_def)
    then show ?thesis using True Qs st eq
      by (simp add: await_async_def step_ok_def flush_progress_def fl_rank_def)
  next
    case False
    have v: "nf_view g ?f (main_sec env) = nf_view g (nv_flash s) (main_sec env)"
      using lawsD(5) [OF law] by simp
    have fo: "Q ?f" "c \<or> False \<longrightarrow> sector_good env g ?f (bak_sec env)"
      using flush_observed [OF law O Qs _ b] by simp_all
    have "flush_inv env g c (s\<lparr>nv_flash := ?f\<rparr>)"
      using base fr m fo(2) st v
      by (auto simp: flush_inv_def base_inv_def phase_inv_def fresh_inv_def holds_def)
    then show ?thesis using False eq fo(1) lawsD(6) [OF law work_of_used [OF law False]]
      by (simp add: await_async_def step_ok_def flush_progress_def)
  qed
qed

lemma async_erase_bak:
  assumes L: "nv_laws env g" and O: "observes env g c Q"
    and I: "flush_inv env g c s" and Qs: "Q (nv_flash s)"
    and st: "fl s = NV_STATE_MAIN_DONE \<or> fl s = NV_STATE_BAK_ERASING"
  shows "step_ok env g c Q s (flush_bak_async env s)"
proof -
  let ?s = "if fl s = NV_STATE_MAIN_DONE then set_fl NV_STATE_BAK_ERASING s else s"
  let ?r = "norflash_api_erase (nv_api env) (bak_sec env) NV_EXTENSION_SIZE True (nv_flash s)"
  have law: "norflash_laws (nv_api env) g (nv_sectors env)" using L by simp
  have f: "nv_flash ?s = nv_flash s" by simp
  have m: "c \<or> True \<longrightarrow> sector_good env g (nv_flash ?s) (main_sec env)"
    using st I by (auto simp: flush_inv_def phase_inv_def Let_def)
  have base: "base_inv env g s" and fr: "fresh_inv env g s" using I by (simp_all add: flush_inv_def)
  have eq: "flush_bak_async env s = nv_bind (request_async env NV_STATE_BAK_ERASED ?r ?s) bak_finish"
    using st base lawsD(1) [OF law] by (auto simp: flush_bak_async_def Let_def base_inv_def)
  have req: "request_law g (nv_sectors env) (bak_sec env) erased (nv_flash ?s) ?r"
    unfolding f by (rule lawsD(2) [OF law]) simp
  have obs: "some_good env g c (snd ?r) \<longrightarrow> Q (snd ?r)" using observe_erase(1) [OF O _ Qs] by simp
  have x: "main_sec env \<in> nv_sectors env" "bak_sec env \<noteq> main_sec env" by simp_all
  from law req O obs x m show ?thesis
  proof (cases rule: request_async_observed [where nxt = NV_STATE_BAK_ERASED])
    case accepted
    have v: "nf_view g (snd ?r) (main_sec env) = nf_view g (nv_flash s) (main_sec env)"
      "nf_view g (snd ?r) (bak_sec env) = erased" using accepted(4) by simp_all
    have "flush_inv env g c (set_fl NV_STATE_BAK_ERASED (?s\<lparr>nv_flash := snd ?r\<rparr>))"
      using base accepted(3) v fr st
      by (elim disjE; simp add: flush_inv_def base_inv_def phase_inv_def fresh_inv_def holds_def)
    then show ?thesis using eq accepted(1,2) st
      by (auto simp: step_ok_def flush_progress_def fl_rank_def bak_finish_def)
  next
    case (refused f)
    have v: "nf_view g f (main_sec env) = nf_view g (nv_flash s) (main_sec env)" using refused(4) by simp
    have "flush_inv env g c (?s\<lparr>nv_flash := f\<rparr>)"
      using base refused(3) v fr st
      by (elim disjE; simp add: flush_inv_def base_inv_def phase_inv_def fresh_inv_def holds_def)
    then show ?thesis using eq refused(1,2,5) st
      by (auto simp: step_ok_def flush_progress_def fl_rank_def bak_finish_def)
  qed
qed

text \<open>Reading the main sector into the burn buffer, from the state after the erase.\<close>

lemma bak_read:
  assumes L: "nv_laws env g" and base: "base_inv env g s"
  shows "flush_bak_read env (set_fl st s) = NvDone (set_fl NV_STATE_BAK_WRITE_PENDING
     (s\<lparr>nv_burn_buf := take (record_size env) (nf_view g (nv_flash s) (main_sec env))\<rparr>))"
  using lawsD(10) [of "nv_api env" g "nv_sectors env" "main_sec env"] L base
  by (simp add: flush_bak_read_def base_inv_def set_fl_def)

lemma async_read_bak:
  assumes L: "nv_laws env g" and I: "flush_inv env g c s" and Qs: "Q (nv_flash s)"
    and st: "fl s = NV_STATE_BAK_ERASED"
  shows "step_ok env g c Q s (flush_bak_async env s)"
proof -
  let ?s = "set_fl NV_STATE_BAK_WRITE_PENDING
     (s\<lparr>nv_burn_buf := take (record_size env) (nf_view g (nv_flash s) (main_sec env))\<rparr>)"
  have base: "base_inv env g s" using I by (simp add: flush_inv_def)
  have "flush_bak_async env s = NvDone (0, ?s)"
    using st bak_read [OF L base] lawsD(1) [of "nv_api env" g "nv_sectors env"] L
    by (simp add: flush_bak_async_def Let_def ret_int_def bak_finish_def)
  moreover have "flush_inv env g c ?s"
    using I st by (auto simp: flush_inv_def base_inv_def phase_inv_def fresh_inv_def holds_def Let_def)
  ultimately show ?thesis using Qs st by (simp add: step_ok_def flush_progress_def fl_rank_def)
qed

lemma async_write_bak:
  assumes L: "nv_laws env g" and O: "observes env g c Q"
    and I: "flush_inv env g c s" and Qs: "Q (nv_flash s)" and st: "fl s = NV_STATE_BAK_WRITE_PENDING"
  shows "step_ok env g c Q s (flush_bak_async env s)"
proof -
  let ?d = "nv_burn_buf s" and ?f = "nv_flash s"
  let ?r = "norflash_api_write (nv_api env) (bak_sec env) ?d ?f"
  have law: "norflash_laws (nv_api env) g (nv_sectors env)" and env: "nv_env_ok env" using L by simp_all
  have base: "base_inv env g s" and fr: "fresh_inv env g s"
    and m: "c \<or> True \<longrightarrow> sector_good env g ?f (main_sec env)"
    and e: "nf_view g ?f (bak_sec env) = erased"
    and d: "?d = take (record_size env) (nf_view g ?f (main_sec env))"
    using I st by (auto simp: flush_inv_def phase_inv_def Let_def)
  have len: "length ?d = record_size env"
    using d m env by (simp add: sector_good_def nv_env_ok_def nv_sizes)
  have eq: "flush_bak_async env s = nv_bind (request_async env NV_STATE_BAK_WRITTEN ?r s) bak_finish"
    using st base lawsD(1) [OF law] by (simp add: flush_bak_async_def Let_def base_inv_def)
  have req: "request_law g (nv_sectors env) (bak_sec env) (nor_program ?d erased) ?f ?r"
    using lawsD(3) [OF law, of "bak_sec env" ?d ?f] e by simp
  have "rec_ok env g ?d" using d m rec_ok_take [of env "record_size env" g] by (simp add: sector_good_def)
  then have obs: "some_good env g c (snd ?r) \<longrightarrow> Q (snd ?r)" 
    using observe_erase(2) [OF O _ _ Qs, of "bak_sec env" ?d] len e by (simp add: write_ok_def)
  have x: "main_sec env \<in> nv_sectors env" "bak_sec env \<noteq> main_sec env" by simp_all
  from law req O obs x m show ?thesis
  proof (cases rule: request_async_observed [where nxt = NV_STATE_BAK_WRITTEN])
    case accepted
    have v: "nf_view g (snd ?r) (main_sec env) = nf_view g ?f (main_sec env)"
      "nf_view g (snd ?r) (bak_sec env) = nor_program ?d erased" using accepted(4) by simp_all
    have "flush_inv env g c (set_fl NV_STATE_BAK_WRITTEN (s\<lparr>nv_flash := snd ?r\<rparr>))"
      using base accepted(3) v fr st program_record(1,2) [OF env len] d [symmetric]
      by (simp add: flush_inv_def base_inv_def phase_inv_def fresh_inv_def holds_def)
    then show ?thesis using eq accepted(1,2) st
      by (auto simp: step_ok_def flush_progress_def fl_rank_def bak_finish_def)
  next
    case (refused f)
    have v: "nf_view g f (main_sec env) = nf_view g ?f (main_sec env)" "nf_view g f (bak_sec env) = erased"
      using refused(4) e by simp_all
    have "flush_inv env g c (s\<lparr>nv_flash := f\<rparr>)"
      using base refused(3) v d fr st
      by (simp add: flush_inv_def base_inv_def phase_inv_def fresh_inv_def holds_def)
    then show ?thesis using eq refused(1,2,5) st
      by (auto simp: step_ok_def flush_progress_def fl_rank_def bak_finish_def)
  qed
qed

lemma async_await_bak:
  assumes L: "nv_laws env g" and O: "observes env g c Q"
    and I: "flush_inv env g c s" and Qs: "Q (nv_flash s)" and st: "fl s = NV_STATE_BAK_WRITTEN"
  shows "step_ok env g c Q s (flush_bak_async env s)"
proof -
  let ?f = "norflash_api_flush (nv_api env) (nv_flash s)" and ?n = "record_size env"
  have law: "norflash_laws (nv_api env) g (nv_sectors env)" using L by simp
  have base: "base_inv env g s" and fr: "fresh_inv env g s"
    and m: "c \<or> True \<longrightarrow> sector_good env g (nv_flash s) (main_sec env)"
    and b: "take ?n (nf_view g (nv_flash s) (bak_sec env)) = take ?n (nf_view g (nv_flash s) (main_sec env))"
      "length (nf_view g (nv_flash s) (bak_sec env)) = NV_EXTENSION_SIZE"
    using I st by (auto simp: flush_inv_def phase_inv_def Let_def)
  have eq: "flush_bak_async env s = nv_bind (await_async env NV_STATE_BAK_DONE s) bak_finish"
    using st base lawsD(1) [OF law] by (simp add: flush_bak_async_def Let_def base_inv_def)
  show ?thesis
  proof (cases "used_buffers (nv_api env) (nv_flash s) = 0")
    case True
    have p: "bak_sec env \<notin> nf_pend g (nv_flash s)" using lawsD(9) [OF law True] by simp
    have "rec_ok env g (nf_view g (nv_flash s) (bak_sec env)) =
        rec_ok env g (nf_view g (nv_flash s) (main_sec env))"
      using rec_ok_take [of env ?n] b(1) by (metis order_refl)
    then have "sector_good env g (nv_flash s) (bak_sec env)"
      using m b(2) p by (simp add: sector_good_def)
    then have "flush_inv env g c (set_fl NV_STATE_IDLE s)"
      using base fr st m b(1) by (simp add: flush_inv_def base_inv_def phase_inv_def fresh_inv_def holds_def)
    moreover have "flush_bak_async env s = NvDone (0, set_fl NV_STATE_IDLE s)"
      using eq True by (simp add: await_async_def bak_finish_def set_fl_def)
    ultimately show ?thesis using Qs st
      by (simp add: step_ok_def flush_progress_def fl_rank_def)
  next
    case False
    have v: "nf_view g ?f (main_sec env) = nf_view g (nv_flash s) (main_sec env)"
      "nf_view g ?f (bak_sec env) = nf_view g (nv_flash s) (bak_sec env)"
      using lawsD(5) [OF law] by simp_all
    have fo: "Q ?f" "c \<or> True \<longrightarrow> sector_good env g ?f (main_sec env)"
      using flush_observed [OF law O Qs _ m] by simp_all
    have "flush_inv env g c (s\<lparr>nv_flash := ?f\<rparr>)"
      using base fr b fo(2) st v
      by (simp add: flush_inv_def base_inv_def phase_inv_def fresh_inv_def holds_def)
    then show ?thesis using False eq fo(1) st lawsD(6) [OF law work_of_used [OF law False]]
      by (simp add: await_async_def step_ok_def flush_progress_def bak_finish_def)
  qed
qed

text \<open>One round of the asynchronous flush, from any state of the invariant that has work to do.\<close>

lemma extension_flush_async_step:
  assumes L: "nv_laws env g" and O: "observes env g c Q"
    and I: "flush_inv env g c s" and Qs: "Q (nv_flash s)"
    and st: "\<not> (fl s = NV_STATE_IDLE \<and> \<not> is_update (nv_flush_state s))"
  shows "step_ok env g c Q s (extension_flush_async env s)"
proof (cases "main_phase (nv_flush_state s)")
  case True
  then have "extension_flush_async env s = flush_main_async env s"
    using st by (auto simp: extension_flush_async_def)
  moreover have "fl s \<noteq> NV_STATE_MAIN_WRITTING" using I by (auto simp: flush_inv_def phase_inv_def Let_def)
  ultimately show ?thesis
    using True async_erase_main [OF L O I Qs] async_prepare_main [OF L I] Qs
      async_write_main [OF L O I Qs] async_await_main [OF L O I Qs]
    by (auto simp: main_phase_def)
next
  case False
  have "fl s \<noteq> NV_STATE_BAK_WRITTING \<and> fl s \<noteq> NV_STATE_BAK_DONE"
    using I by (auto simp: flush_inv_def phase_inv_def Let_def)
  moreover have ph: "bak_phase (nv_flush_state s)"
    using False st by (cases "fl s") (auto simp: main_phase_def bak_phase_def)
  moreover have "extension_flush_async env s = flush_bak_async env s"
    using False st ph by (auto simp: extension_flush_async_def)
  ultimately show ?thesis
    using async_erase_bak [OF L O I Qs] async_read_bak [OF L I] Qs
      async_write_bak [OF L O I Qs] async_await_bak [OF L O I Qs]
    by (auto simp: bak_phase_def)
qed

section \<open>The synchronous flush\<close>

text \<open>With enough rounds the computation ends, always with the same result.\<close>

definition ends :: "(nat \<Rightarrow> 'a nv_out) \<Rightarrow> ('a \<Rightarrow> bool) \<Rightarrow> bool" where
  "ends F P \<longleftrightarrow> (\<exists>N x. (\<forall>n\<ge>N. F n = NvDone x) \<and> P x)"

lemma ends_done [intro]: "P x \<Longrightarrow> ends (\<lambda>n. NvDone x) P"
  by (auto simp: ends_def)

lemma ends_bind:
  assumes "ends F P" and "\<And>x. P x \<Longrightarrow> ends (\<lambda>n. G x n) R"
  shows "ends (\<lambda>n. nv_bind (F n) (\<lambda>x. G x n)) R"
proof -
  obtain N x where F: "\<And>n. N \<le> n \<Longrightarrow> F n = NvDone x" and "P x" using assms(1) by (auto simp: ends_def)
  from assms(2) [OF this(2)] obtain M y where G: "\<And>n. M \<le> n \<Longrightarrow> G x n = NvDone y" "R y"
    by (auto simp: ends_def)
  have "nv_bind (F n) (\<lambda>x. G x n) = NvDone y" if "max N M \<le> n" for n using that F G by simp
  with G(2) show ?thesis unfolding ends_def by blast
qed

lemma ends_Suc:
  assumes "ends (\<lambda>n. F (Suc n)) P"
  shows "ends F P"
proof -
  obtain N x where F: "\<And>n. N \<le> n \<Longrightarrow> F (Suc n) = NvDone x" and P: "P x" using assms by (auto simp: ends_def)
  have "F n = NvDone x" if "Suc N \<le> n" for n using that F [of "n - 1"] by (cases n) auto
  with P show ?thesis unfolding ends_def by blast
qed

lemma ends_mono: "ends F P \<Longrightarrow> (\<And>x. P x \<Longrightarrow> R x) \<Longrightarrow> ends F R"
  by (auto simp: ends_def)

text \<open>Waiting for the driver ends, because every flush does some of the outstanding work.\<close>

lemma flush_until_ends:
  assumes law: "norflash_laws api g A" and P: "\<And>f. P f \<Longrightarrow> P (norflash_api_flush api f)"
    and again: "\<And>f. again f \<Longrightarrow> 0 < nf_work g f" and f: "P f"
  shows "ends (\<lambda>n. flush_until n again api f)
    (\<lambda>f'. P f' \<and> \<not> again f' \<and> (0 < nf_work g f \<longrightarrow> nf_work g f' < nf_work g f))"
  using f
proof (induction "nf_work g f" arbitrary: f rule: less_induct)
  case less
  let ?f = "norflash_api_flush api f"
  show ?case
  proof (cases "again ?f")
    case False
    then show ?thesis using P [OF less.prems] lawsD(6) [OF law]
      by - (rule ends_Suc, auto simp: Let_def intro!: ends_done)
  next
    case True
    then have "0 < nf_work g ?f" by (rule again)
    then have w: "0 < nf_work g f" using lawsD(7) [OF law, of f] by (cases "nf_work g f") auto
    then have lt: "nf_work g ?f < nf_work g f" by (rule lawsD(6) [OF law])
    have "ends (\<lambda>n. flush_until n again api ?f)
        (\<lambda>f'. P f' \<and> \<not> again f' \<and> (0 < nf_work g f \<longrightarrow> nf_work g f' < nf_work g f))"
      by (rule ends_mono [OF less.hyps [OF lt P [OF less.prems]]])
        (use \<open>0 < nf_work g ?f\<close> lt in auto)
    then show ?thesis using True by - (rule ends_Suc, simp add: Let_def)
  qed
qed

lemma request_sync_ends:
  assumes law: "norflash_laws api g A"
    and P: "\<And>f. P f \<Longrightarrow> P (norflash_api_flush api f)"
    and full: "\<And>f. P f \<Longrightarrow> fst (req f) \<noteq> NORFLASH_API_OK \<Longrightarrow> P (snd (req f)) \<and>
      fst (req f) = NORFLASH_API_BUFFER_FULL \<and> 0 < nf_work g f \<and> nf_work g (snd (req f)) = nf_work g f"
    and free: "\<And>f. free f = 0 \<Longrightarrow> 0 < nf_work g f" and f: "P f"
  shows "ends (\<lambda>n. request_sync n req free api f)
    (\<lambda>f'. \<exists>f1. P f1 \<and> fst (req f1) = NORFLASH_API_OK \<and> f' = snd (req f1))"
  using f
proof (induction "nf_work g f" arbitrary: f rule: less_induct)
  case less
  show ?case
  proof (cases "fst (req f) = NORFLASH_API_OK")
    case True
    then show ?thesis using less.prems
      by - (rule ends_Suc, auto simp: Let_def case_prod_beta)
  next
    case False
    note r = full [OF less.prems False]
    have "ends (\<lambda>n. nv_bind (flush_until n (\<lambda>f. free f = 0) api (snd (req f)))
        (\<lambda>f. request_sync n req free api f))
      (\<lambda>f'. \<exists>f1. P f1 \<and> fst (req f1) = NORFLASH_API_OK \<and> f' = snd (req f1))"
    proof (rule ends_bind)
      show "ends (\<lambda>n. flush_until n (\<lambda>f. free f = 0) api (snd (req f)))
          (\<lambda>f'. P f' \<and> nf_work g f' < nf_work g f)"
        by (rule ends_mono, rule flush_until_ends [where P = P, OF law]) (use r P free in auto)
    qed (use less.hyps in blast)
    then show ?thesis using r by - (rule ends_Suc, simp add: Let_def case_prod_beta)
  qed
qed

text \<open>
  What stays true of the driver while a request for sector \<open>a\<close> is retried: the observer, the good
  sector \<open>x\<close>, and the content of both sectors.
\<close>

definition calm :: "'f nv_env \<Rightarrow> 'f nf_ghost \<Rightarrow> bool \<Rightarrow> bool \<Rightarrow> ('f \<Rightarrow> bool) \<Rightarrow> nat \<Rightarrow> 'f \<Rightarrow> 'f \<Rightarrow> bool" where
  "calm env g c d Q x f0 f \<longleftrightarrow>
     Q f \<and> (c \<or> d \<longrightarrow> sector_good env g f x) \<and>
     (\<forall>y \<in> nv_sectors env. nf_view g f y = nf_view g f0 y)"

lemma calm_flush:
  assumes law: "norflash_laws (nv_api env) g (nv_sectors env)"
    and O: "observes env g c Q" and x: "x \<in> nv_sectors env"
    and f: "calm env g c d Q x f0 f"
  shows "calm env g c d Q x f0 (norflash_api_flush (nv_api env) f)"
proof -
  have "Q f" "c \<or> d \<longrightarrow> sector_good env g f x" using f by (simp_all add: calm_def)
  from flush_observed [OF law O this(1) x this(2)] show ?thesis
    using f lawsD(5) [OF law] by (simp add: calm_def)
qed

lemma request_law_frame:
  assumes "request_law g A a new f r"
  shows "nf_pend g (snd r) \<subseteq> insert a (nf_pend g f)"
    and "x \<in> A \<Longrightarrow> a \<noteq> x \<Longrightarrow> nf_view g (snd r) x = nf_view g f x"
    and "fst r \<noteq> NORFLASH_API_OK \<Longrightarrow> fst r = NORFLASH_API_BUFFER_FULL \<and> 0 < nf_work g f \<and>
      nf_work g (snd r) = nf_work g f \<and> (\<forall>x\<in>A. nf_view g (snd r) x = nf_view g f x)"
    and "fst r = NORFLASH_API_OK \<Longrightarrow> \<forall>x\<in>A. nf_view g (snd r) x = (if x = a then new else nf_view g f x)"
  using assms by (auto simp: request_law_def)

lemma request_phase_ends:
  assumes law: "norflash_laws (nv_api env) g (nv_sectors env)"
    and O: "observes env g c Q"
    and req: "\<And>f. nf_view g f a = nf_view g (nv_flash s) a \<Longrightarrow> request_law g (nv_sectors env) a new f (req f)"
    and obs: "\<And>f. nf_view g f a = nf_view g (nv_flash s) a \<Longrightarrow> Q f \<Longrightarrow> some_good env g c (snd (req f)) \<Longrightarrow>
      Q (snd (req f))"
    and free: "\<And>f. free f = 0 \<Longrightarrow> 0 < nf_work g f"
    and x: "x \<in> nv_sectors env" "a \<in> nv_sectors env" "a \<noteq> x"
    and s: "Q (nv_flash s)" "c \<or> d \<longrightarrow> sector_good env g (nv_flash s) x"
  shows "ends (\<lambda>n. request_phase n req free env nxt s)
    (\<lambda>s'. \<exists>f. s' = set_fl nxt (s\<lparr>nv_flash := f\<rparr>) \<and> Q f \<and> (c \<or> d \<longrightarrow> sector_good env g f x) \<and>
       (\<forall>y \<in> nv_sectors env. nf_view g f y = (if y = a then new else nf_view g (nv_flash s) y)))"
proof -
  let ?P = "calm env g c d Q x (nv_flash s)"
  have law': "request_law g (nv_sectors env) a new f (req f)" if "?P f" for f
    by (rule req) (use that x(2) in \<open>auto simp: calm_def\<close>)
  have keep: "Q (snd (req f)) \<and> (c \<or> d \<longrightarrow> sector_good env g (snd (req f)) x)"
    if f: "?P f" for f
  proof -
    have gx: "c \<or> d \<longrightarrow> sector_good env g f x" and "Q f" "nf_view g f a = nf_view g (nv_flash s) a"
      using f x(2) by (auto simp: calm_def)
    note r = request_law_frame [OF law' [OF f]]
    have "c \<or> d \<longrightarrow> sector_good env g (snd (req f)) x"
      using gx sector_good_keep [OF _ r(1) x(3) r(2) [OF x(1,3)]] by blast
    moreover from this have "Q (snd (req f))"
      by (intro obs [OF \<open>nf_view g f a = nf_view g (nv_flash s) a\<close> \<open>Q f\<close>] some_goodI [OF _ x(1)]) simp
    ultimately show ?thesis by blast
  qed
  have full: "?P (snd (req f)) \<and> fst (req f) = NORFLASH_API_BUFFER_FULL \<and> 0 < nf_work g f \<and>
      nf_work g (snd (req f)) = nf_work g f" if "?P f" "fst (req f) \<noteq> NORFLASH_API_OK" for f
    using request_law_frame(3) [OF law' [OF that(1)] that(2)] keep [OF that(1)] that(1)
    by (simp add: calm_def)
  have "ends (\<lambda>n. request_sync n req free (nv_api env) (nv_flash s))
    (\<lambda>f'. \<exists>f1. ?P f1 \<and> fst (req f1) = NORFLASH_API_OK \<and> f' = snd (req f1))"
    by (rule request_sync_ends [OF law calm_flush [OF law O x(1)] full free])
      (use s in \<open>simp_all add: calm_def\<close>)
  then show ?thesis unfolding request_phase_def
  proof (rule ends_bind)
    fix f
    assume "\<exists>f1. ?P f1 \<and> fst (req f1) = NORFLASH_API_OK \<and> f = snd (req f1)"
    then obtain f1 where f1: "?P f1" "fst (req f1) = NORFLASH_API_OK" "f = snd (req f1)" by blast
    have "\<forall>y \<in> nv_sectors env. nf_view g f y = (if y = a then new else nf_view g (nv_flash s) y)"
      using request_law_frame(4) [OF law' [OF f1(1)] f1(2)] f1(1,3) by (simp add: calm_def)
    with keep [OF f1(1)] f1(3) show "ends (\<lambda>n. NvDone (set_fl nxt (s\<lparr>nv_flash := f\<rparr>)))
      (\<lambda>s'. \<exists>f. s' = set_fl nxt (s\<lparr>nv_flash := f\<rparr>) \<and> Q f \<and> (c \<or> d \<longrightarrow> sector_good env g f x) \<and>
       (\<forall>y \<in> nv_sectors env. nf_view g f y = (if y = a then new else nf_view g (nv_flash s) y)))"
      by (intro ends_done) blast
  qed
qed

lemma await_phase_ends:
  assumes law: "norflash_laws (nv_api env) g (nv_sectors env)"
    and O: "observes env g c Q" and x: "x \<in> nv_sectors env"
    and s: "Q (nv_flash s)" "c \<or> d \<longrightarrow> sector_good env g (nv_flash s) x"
  shows "ends (\<lambda>n. await_phase n env nxt s)
    (\<lambda>s'. \<exists>f. s' = set_fl nxt (s\<lparr>nv_flash := f\<rparr>) \<and> calm env g c d Q x (nv_flash s) f \<and>
       nf_pend g f \<inter> nv_sectors env = {})"
  unfolding await_phase_def
proof (rule ends_bind)
  show "ends (\<lambda>n. flush_until n (\<lambda>f. 0 < used_buffers (nv_api env) f) (nv_api env) (nv_flash s))
     (\<lambda>f. calm env g c d Q x (nv_flash s) f \<and> nf_pend g f \<inter> nv_sectors env = {})"
    by (rule ends_mono, rule flush_until_ends [where P = "calm env g c d Q x (nv_flash s)", OF law])
      (use s calm_flush [OF law O x] work_of_used [OF law] lawsD(9) [OF law] in \<open>auto simp: calm_def\<close>)
qed (auto intro!: ends_done)

text \<open>What every phase keeps: the invariant, the observer and the mirror; and the state it reaches.\<close>

definition sync_ok ::
    "'f nv_env \<Rightarrow> 'f nf_ghost \<Rightarrow> bool \<Rightarrow> ('f \<Rightarrow> bool) \<Rightarrow> NV_STATE \<Rightarrow> bool \<Rightarrow> 'f nv_state \<Rightarrow> 'f nv_state \<Rightarrow> bool" where
  "sync_ok env g c Q st u s s' \<longleftrightarrow>
     flush_inv env g c s' \<and> Q (nv_flash s') \<and> nv_body s' = nv_body s \<and> (nv_mpu_rw s' \<longrightarrow> nv_mpu_rw s) \<and>
     fl s' = st \<and> is_update (nv_flush_state s') = u"

lemma free_work: "norflash_laws api g A \<Longrightarrow> free_erasing api f = 0 \<Longrightarrow> 0 < nf_work g f"
  "norflash_laws api g A \<Longrightarrow> free_writing api f = 0 \<Longrightarrow> 0 < nf_work g f"
  using lawsD(8) [of api g A f] by (cases "nf_work g f"; auto)+

lemma sync_erase_main:
  assumes L: "nv_laws env g" and O: "observes env g c Q"
    and I: "flush_inv env g c s" and Qs: "Q (nv_flash s)"
    and st: "fl s = NV_STATE_IDLE \<and> is_update (nv_flush_state s) \<or> fl s = NV_STATE_MAIN_ERASING"
  shows "ends (\<lambda>n. request_phase n (norflash_api_erase (nv_api env) (main_sec env) NV_EXTENSION_SIZE True)
     (free_erasing (nv_api env)) env NV_STATE_MAIN_ERASED s) (sync_ok env g c Q NV_STATE_MAIN_ERASED True s)"
proof -
  have law: "norflash_laws (nv_api env) g (nv_sectors env)" using L by simp
  have u: "is_update (nv_flush_state s)" using st I by (auto simp: flush_inv_def fresh_inv_def)
  have b: "c \<or> False \<longrightarrow> sector_good env g (nv_flash s) (bak_sec env)"
    using st I by (auto simp: flush_inv_def phase_inv_def Let_def)
  have base: "base_inv env g s" using I by (simp add: flush_inv_def)
  have x: "bak_sec env \<in> nv_sectors env" "main_sec env \<in> nv_sectors env" "main_sec env \<noteq> bak_sec env" by simp_all
  show ?thesis
    by (rule ends_mono [OF request_phase_ends [OF law O lawsD(2) [OF law x(2)] observe_erase(1) [OF O x(2)]
          free_work(1) [OF law] x Qs b]])
      (use base u in \<open>auto simp: sync_ok_def flush_inv_def base_inv_def phase_inv_def fresh_inv_def\<close>)
qed

lemma sync_write_main:
  assumes L: "nv_laws env g" and O: "observes env g c Q"
    and I: "flush_inv env g c s" and Qs: "Q (nv_flash s)" and st: "fl s = NV_STATE_MAIN_WRITE_PENDING"
  shows "ends (\<lambda>n. request_phase n (norflash_api_write (nv_api env) (main_sec env) (nv_burn_buf s))
     (free_writing (nv_api env)) env NV_STATE_MAIN_WRITTEN s)
     (sync_ok env g c Q NV_STATE_MAIN_WRITTEN (is_update (nv_flush_state s)) s)"
proof -
  let ?d = "nv_burn_buf s"
  have law: "norflash_laws (nv_api env) g (nv_sectors env)" and env: "nv_env_ok env" using L by simp_all
  have base: "base_inv env g s" and fr: "fresh_inv env g s"
    and b: "c \<or> False \<longrightarrow> sector_good env g (nv_flash s) (bak_sec env)"
    and e: "nf_view g (nv_flash s) (main_sec env) = erased"
    and d: "length ?d = record_size env" "rec_ok env g ?d"
    using I st by (auto simp: flush_inv_def phase_inv_def Let_def)
  have x: "bak_sec env \<in> nv_sectors env" "main_sec env \<in> nv_sectors env" "main_sec env \<noteq> bak_sec env" by simp_all
  have req: "request_law g (nv_sectors env) (main_sec env) (nor_program ?d erased) f
      (norflash_api_write (nv_api env) (main_sec env) ?d f)"
    if "nf_view g f (main_sec env) = nf_view g (nv_flash s) (main_sec env)" for f
    using lawsD(3) [OF law x(2), of ?d f] that e by simp
  have wr: "write_ok env g f (main_sec env) ?d"
    if "nf_view g f (main_sec env) = nf_view g (nv_flash s) (main_sec env)" for f
    using that d e by (simp add: write_ok_def)
  have "sync_ok env g c Q NV_STATE_MAIN_WRITTEN (is_update (nv_flush_state s)) s
      (set_fl NV_STATE_MAIN_WRITTEN (s\<lparr>nv_flash := f\<rparr>))"
    if "Q f" "c \<or> False \<longrightarrow> sector_good env g f (bak_sec env)"
      "nf_view g f (main_sec env) = nor_program ?d erased" for f
    using base fr d st that program_record [OF env d(1)]
    by (simp add: sync_ok_def flush_inv_def base_inv_def phase_inv_def fresh_inv_def holds_def)
  then show ?thesis
    by (intro ends_mono [OF request_phase_ends [OF law O req observe_erase(2) [OF O x(2) wr]
          free_work(2) [OF law] x Qs b]]) auto
qed

lemma sync_await_main:
  assumes L: "nv_laws env g" and O: "observes env g c Q"
    and I: "flush_inv env g c s" and Qs: "Q (nv_flash s)" and st: "fl s = NV_STATE_MAIN_WRITTEN"
  shows "ends (\<lambda>n. await_phase n env NV_STATE_MAIN_DONE s)
     (sync_ok env g c Q NV_STATE_MAIN_DONE (is_update (nv_flush_state s)) s)"
proof -
  have law: "norflash_laws (nv_api env) g (nv_sectors env)" using L by simp
  have base: "base_inv env g s" and fr: "fresh_inv env g s"
    and b: "c \<or> False \<longrightarrow> sector_good env g (nv_flash s) (bak_sec env)"
    and m: "rec_ok env g (nf_view g (nv_flash s) (main_sec env))"
      "length (nf_view g (nv_flash s) (main_sec env)) = NV_EXTENSION_SIZE"
    using I st by (auto simp: flush_inv_def phase_inv_def Let_def)
  have x: "bak_sec env \<in> nv_sectors env" by simp
  have "sync_ok env g c Q NV_STATE_MAIN_DONE (is_update (nv_flush_state s)) s
      (set_fl NV_STATE_MAIN_DONE (s\<lparr>nv_flash := f\<rparr>))"
    if "calm env g c False Q (bak_sec env) (nv_flash s) f" "nf_pend g f \<inter> nv_sectors env = {}" for f
    using base fr m st that
    by (simp add: sync_ok_def flush_inv_def base_inv_def phase_inv_def fresh_inv_def holds_def
        calm_def sector_good_def)
  then show ?thesis
    by (intro ends_mono [OF await_phase_ends [OF law O x Qs b]]) auto
qed

lemma sync_okD:
  assumes "sync_ok env g c Q st u s s'"
  shows "flush_inv env g c s'" "Q (nv_flash s')" "fl s' = st" "is_update (nv_flush_state s') = u"
  using assms by (simp_all add: sync_ok_def)

lemma sync_ok_trans:
  "sync_ok env g c Q st u s s' \<Longrightarrow> sync_ok env g c Q st' u' s' s'' \<Longrightarrow> sync_ok env g c Q st' u' s s''"
  by (auto simp: sync_ok_def)

lemma sync_ok_refl:
  "flush_inv env g c s \<Longrightarrow> Q (nv_flash s) \<Longrightarrow> sync_ok env g c Q (fl s) (is_update (nv_flush_state s)) s s"
  by (simp add: sync_ok_def)

text \<open>The marker after the main phase: it is cleared unless the burn buffer was filled before.\<close>

definition main_update :: "NV_FLUSH_STATE \<Rightarrow> bool" where
  "main_update st \<longleftrightarrow> is_update st \<and>
     fl_state st \<in> {NV_STATE_MAIN_WRITE_PENDING, NV_STATE_MAIN_WRITTEN}"

lemma main_sync_write_ends:
  assumes L: "nv_laws env g" and O: "observes env g c Q"
    and I: "flush_inv env g c s" and Qs: "Q (nv_flash s)"
    and st: "fl s = NV_STATE_MAIN_WRITE_PENDING \<or> fl s = NV_STATE_MAIN_WRITTEN"
  shows "ends (\<lambda>n. main_sync_write n env s)
    (\<lambda>r. fst r = 0 \<and> sync_ok env g c Q NV_STATE_MAIN_DONE (is_update (nv_flush_state s)) s (snd r))"
  unfolding main_sync_write_def
proof (rule ends_bind)
  show "ends (\<lambda>n. if fl s = NV_STATE_MAIN_WRITE_PENDING
        then request_phase n (norflash_api_write (nv_api env) (main_sec env) (nv_burn_buf s))
               (free_writing (nv_api env)) env NV_STATE_MAIN_WRITTEN s else NvDone s)
      (sync_ok env g c Q NV_STATE_MAIN_WRITTEN (is_update (nv_flush_state s)) s)"
    using st sync_write_main [OF L O I Qs] sync_ok_refl [OF I, of Q, OF Qs] by auto
next
  fix s1
  assume s1: "sync_ok env g c Q NV_STATE_MAIN_WRITTEN (is_update (nv_flush_state s)) s s1"
  show "ends (\<lambda>n. nv_bind (await_phase n env NV_STATE_MAIN_DONE s1) (\<lambda>s. NvDone (0::int, s)))
      (\<lambda>r. fst r = 0 \<and> sync_ok env g c Q NV_STATE_MAIN_DONE (is_update (nv_flush_state s)) s (snd r))"
    by (rule ends_bind [OF sync_await_main [OF L O sync_okD(1-3) [OF s1]]])
      (use sync_ok_trans [OF s1] sync_okD(4) [OF s1] in \<open>auto intro!: ends_done\<close>)
qed

lemma main_sync_prepare_ends:
  assumes L: "nv_laws env g" and O: "observes env g c Q"
    and I: "flush_inv env g c s" and Qs: "Q (nv_flash s)"
    and st: "fl s = NV_STATE_MAIN_ERASED \<or> fl s = NV_STATE_MAIN_WRITE_PENDING \<or> fl s = NV_STATE_MAIN_WRITTEN"
  shows "ends (\<lambda>n. main_sync_prepare n env s)
    (\<lambda>r. fst r = 0 \<and> sync_ok env g c Q NV_STATE_MAIN_DONE (main_update (nv_flush_state s)) s (snd r))"
proof (cases "fl s = NV_STATE_MAIN_ERASED")
  case True
  then obtain s1 where s1: "flush_main_prepare env s = NvDone s1" "flush_inv env g c s1"
    "nv_flush_state s1 = (nv_flush_state s)\<lparr>fl_state := NV_STATE_MAIN_WRITE_PENDING, is_update := False\<rparr>"
    "nv_flash s1 = nv_flash s" "nv_body s1 = nv_body s" "\<not> nv_mpu_rw s1"
    using prepare_step [OF L I] by blast
  have ok: "sync_ok env g c Q NV_STATE_MAIN_WRITE_PENDING False s s1"
    using s1 Qs by (simp add: sync_ok_def)
  have "fl s1 = NV_STATE_MAIN_WRITE_PENDING \<or> fl s1 = NV_STATE_MAIN_WRITTEN" using s1(3) by simp
  note ends_mono [OF main_sync_write_ends [OF L O sync_okD(1,2) [OF ok] this]]
  moreover have "(\<lambda>n. main_sync_prepare n env s) = (\<lambda>n. main_sync_write n env s1)"
    using True s1(1) by (simp add: main_sync_prepare_def)
  ultimately show ?thesis using True sync_ok_trans [OF ok] sync_okD(4) [OF ok]
    by (simp add: main_update_def)
next
  case False
  with st show ?thesis using main_sync_write_ends [OF L O I Qs]
    by (simp add: main_update_def main_sync_prepare_def)
qed

lemma main_sync_ends:
  assumes L: "nv_laws env g" and O: "observes env g c Q"
    and I: "flush_inv env g c s" and Qs: "Q (nv_flash s)" and st: "main_phase (nv_flush_state s)"
  shows "ends (\<lambda>n. flush_main_sync n env s)
    (\<lambda>r. fst r = 0 \<and> sync_ok env g c Q NV_STATE_MAIN_DONE (main_update (nv_flush_state s)) s (snd r))"
proof -
  have p: "nvrecord_extension_p s" using I by (simp add: flush_inv_def base_inv_def)
  have dev: "norflash_api_get_dev_id (nv_api env) f = NORFLASH_API_OK" for f
    using L lawsD(1) [of "nv_api env" g "nv_sectors env"] by simp
  have nw: "fl s \<noteq> NV_STATE_MAIN_WRITTING" using I by (auto simp: flush_inv_def phase_inv_def Let_def)
  show ?thesis
  proof (cases "fl s = NV_STATE_IDLE \<or> fl s = NV_STATE_MAIN_ERASING")
    case True
    then have "fl s = NV_STATE_IDLE \<and> is_update (nv_flush_state s) \<or> fl s = NV_STATE_MAIN_ERASING"
      using st by (auto simp: main_phase_def)
    note er = sync_erase_main [OF L O I Qs this]
    have "ends (\<lambda>n. nv_bind (request_phase n (norflash_api_erase (nv_api env) (main_sec env) NV_EXTENSION_SIZE True)
          (free_erasing (nv_api env)) env NV_STATE_MAIN_ERASED s) (\<lambda>s. main_sync_prepare n env s))
     (\<lambda>r. fst r = 0 \<and> sync_ok env g c Q NV_STATE_MAIN_DONE False s (snd r))"
    proof (rule ends_bind [OF er])
      fix s1
      assume s1: "sync_ok env g c Q NV_STATE_MAIN_ERASED True s s1"
      have "main_update (nv_flush_state s1) = False" using sync_okD(3) [OF s1] by (simp add: main_update_def)
      with main_sync_prepare_ends [OF L O sync_okD(1,2) [OF s1]] sync_okD(3) [OF s1]
      have "ends (\<lambda>n. main_sync_prepare n env s1)
          (\<lambda>r. fst r = 0 \<and> sync_ok env g c Q NV_STATE_MAIN_DONE False s1 (snd r))" by simp
      then show "ends (\<lambda>n. main_sync_prepare n env s1)
          (\<lambda>r. fst r = 0 \<and> sync_ok env g c Q NV_STATE_MAIN_DONE False s (snd r))"
        by (rule ends_mono) (use sync_ok_trans [OF s1] in blast)
    qed
    then show ?thesis using True p dev by (auto simp: flush_main_sync_def Let_def main_update_def)
  next
    case False
    then have "fl s = NV_STATE_MAIN_ERASED \<or> fl s = NV_STATE_MAIN_WRITE_PENDING \<or> fl s = NV_STATE_MAIN_WRITTEN"
      using st nw by (auto simp: main_phase_def)
    from main_sync_prepare_ends [OF L O I Qs this] show ?thesis
      using False p dev by (simp add: flush_main_sync_def Let_def)
  qed
qed

lemma sync_erase_bak:
  assumes L: "nv_laws env g" and O: "observes env g c Q"
    and I: "flush_inv env g c s" and Qs: "Q (nv_flash s)"
    and st: "fl s = NV_STATE_MAIN_DONE \<or> fl s = NV_STATE_BAK_ERASING"
  shows "ends (\<lambda>n. request_phase n (norflash_api_erase (nv_api env) (bak_sec env) NV_EXTENSION_SIZE True)
     (free_erasing (nv_api env)) env NV_STATE_BAK_ERASED s)
     (sync_ok env g c Q NV_STATE_BAK_ERASED (is_update (nv_flush_state s)) s)"
proof -
  have law: "norflash_laws (nv_api env) g (nv_sectors env)" using L by simp
  have m: "c \<or> True \<longrightarrow> sector_good env g (nv_flash s) (main_sec env)"
    using st I by (auto simp: flush_inv_def phase_inv_def Let_def)
  have base: "base_inv env g s" and fr: "fresh_inv env g s" using I by (simp_all add: flush_inv_def)
  have x: "main_sec env \<in> nv_sectors env" "bak_sec env \<in> nv_sectors env" "bak_sec env \<noteq> main_sec env" by simp_all
  have "sync_ok env g c Q NV_STATE_BAK_ERASED (is_update (nv_flush_state s)) s
      (set_fl NV_STATE_BAK_ERASED (s\<lparr>nv_flash := f\<rparr>))"
    if "Q f" "c \<or> True \<longrightarrow> sector_good env g f (main_sec env)" "nf_view g f (bak_sec env) = erased"
      "nf_view g f (main_sec env) = nf_view g (nv_flash s) (main_sec env)" for f
    using st base fr that
    by (elim disjE; simp add: sync_ok_def flush_inv_def base_inv_def phase_inv_def fresh_inv_def holds_def)
  then show ?thesis
    by (intro ends_mono [OF request_phase_ends [OF law O lawsD(2) [OF law x(2)] observe_erase(1) [OF O x(2)]
          free_work(1) [OF law] x Qs m]]) auto
qed

text \<open>
  The write of the backup, also when it repeats one that the asynchronous flush made: the sector
  is erased or has the record already.
\<close>

lemma sync_write_bak:
  assumes L: "nv_laws env g" and O: "observes env g c Q"
    and base: "base_inv env g s" and Qs: "Q (nv_flash s)"
    and m: "sector_good env g (nv_flash s) (main_sec env)"
    and d: "nv_burn_buf s = take (record_size env) (nf_view g (nv_flash s) (main_sec env))"
    and b: "nf_view g (nv_flash s) (bak_sec env) = erased \<or>
      take (record_size env) (nf_view g (nv_flash s) (bak_sec env)) = nv_burn_buf s \<and>
      length (nf_view g (nv_flash s) (bak_sec env)) = NV_EXTENSION_SIZE"
    and fr: "is_update (nv_flush_state s) \<or> holds env g (nf_view g (nv_flash s) (main_sec env)) s"
  shows "ends (\<lambda>n. request_phase n (norflash_api_write (nv_api env) (bak_sec env) (nv_burn_buf s))
     (free_writing (nv_api env)) env NV_STATE_BAK_WRITTEN s)
     (sync_ok env g c Q NV_STATE_BAK_WRITTEN (is_update (nv_flush_state s)) s)"
proof -
  let ?d = "nv_burn_buf s" and ?v = "nf_view g (nv_flash s)" and ?n = "record_size env"
  have law: "norflash_laws (nv_api env) g (nv_sectors env)" and env: "nv_env_ok env" using L by simp_all
  have m': "c \<or> True \<longrightarrow> sector_good env g (nv_flash s) (main_sec env)" using m by simp
  have x: "main_sec env \<in> nv_sectors env" "bak_sec env \<in> nv_sectors env" "bak_sec env \<noteq> main_sec env" by simp_all
  have len: "length ?d = ?n" using d m env by (simp add: sector_good_def nv_env_ok_def nv_sizes)
  have pr: "take ?n (nor_program ?d (?v (bak_sec env))) = ?d"
    "length (nor_program ?d (?v (bak_sec env))) = NV_EXTENSION_SIZE"
    using b program_record(1,2) [OF env len] program_same [of ?d "?v (bak_sec env)"] len by auto
  have req: "request_law g (nv_sectors env) (bak_sec env) (nor_program ?d (?v (bak_sec env))) f
      (norflash_api_write (nv_api env) (bak_sec env) ?d f)"
    if "nf_view g f (bak_sec env) = ?v (bak_sec env)" for f
    using lawsD(3) [OF law x(2), of ?d f] that by simp
  have "rec_ok env g ?d" using d m rec_ok_take [of env ?n g] by (simp add: sector_good_def)
  then have wr: "write_ok env g f (bak_sec env) ?d" if "nf_view g f (bak_sec env) = ?v (bak_sec env)" for f
    using that len b by (auto simp: write_ok_def)
  have "sync_ok env g c Q NV_STATE_BAK_WRITTEN (is_update (nv_flush_state s)) s
      (set_fl NV_STATE_BAK_WRITTEN (s\<lparr>nv_flash := f\<rparr>))"
    if "Q f" "c \<or> True \<longrightarrow> sector_good env g f (main_sec env)"
      "nf_view g f (bak_sec env) = nor_program ?d (?v (bak_sec env))"
      "nf_view g f (main_sec env) = ?v (main_sec env)" for f
    using base fr d pr that
    by (simp add: sync_ok_def flush_inv_def base_inv_def phase_inv_def fresh_inv_def holds_def)
  then show ?thesis
    by (intro ends_mono [OF request_phase_ends [OF law O req observe_erase(2) [OF O x(2) wr]
          free_work(2) [OF law] x Qs m']]) auto
qed

lemma sync_await_bak:
  assumes L: "nv_laws env g" and O: "observes env g c Q"
    and I: "flush_inv env g c s" and Qs: "Q (nv_flash s)" and st: "fl s = NV_STATE_BAK_WRITTEN"
  shows "ends (\<lambda>n. nv_bind (await_phase n env NV_STATE_BAK_DONE s) (\<lambda>s. bak_finish (0, s)))
     (\<lambda>r. fst r = 0 \<and> sync_ok env g c Q NV_STATE_IDLE (is_update (nv_flush_state s)) s (snd r))"
proof -
  have law: "norflash_laws (nv_api env) g (nv_sectors env)" using L by simp
  let ?n = "record_size env"
  have base: "base_inv env g s" and fr: "fresh_inv env g s"
    and m: "c \<or> True \<longrightarrow> sector_good env g (nv_flash s) (main_sec env)"
    and b: "take ?n (nf_view g (nv_flash s) (bak_sec env)) = take ?n (nf_view g (nv_flash s) (main_sec env))"
      "length (nf_view g (nv_flash s) (bak_sec env)) = NV_EXTENSION_SIZE"
    using I st by (auto simp: flush_inv_def phase_inv_def Let_def)
  have v: "rec_ok env g (nf_view g (nv_flash s) (bak_sec env))"
    using rec_ok_take [of env ?n] b(1) m by (metis order_refl sector_good_def)
  have x: "main_sec env \<in> nv_sectors env" by simp
  have ok: "sync_ok env g c Q NV_STATE_IDLE (is_update (nv_flush_state s)) s
      (set_fl NV_STATE_IDLE (s\<lparr>nv_flash := f\<rparr>))"
    if "calm env g c True Q (main_sec env) (nv_flash s) f" "nf_pend g f \<inter> nv_sectors env = {}" for f
    using base fr b v m st that
    by (simp add: sync_ok_def flush_inv_def base_inv_def phase_inv_def fresh_inv_def holds_def
        calm_def sector_good_def)
  show ?thesis
    by (rule ends_bind [OF await_phase_ends [OF law O x Qs m]])
      (use ok in \<open>auto intro!: ends_done simp: bak_finish_def set_fl_def\<close>)
qed

lemma bak_sync_write_ends:
  assumes L: "nv_laws env g" and O: "observes env g c Q"
    and base: "base_inv env g s" and Qs: "Q (nv_flash s)" and st: "fl s = NV_STATE_BAK_WRITE_PENDING"
    and m: "sector_good env g (nv_flash s) (main_sec env)"
    and d: "nv_burn_buf s = take (record_size env) (nf_view g (nv_flash s) (main_sec env))"
    and b: "nf_view g (nv_flash s) (bak_sec env) = erased \<or>
      take (record_size env) (nf_view g (nv_flash s) (bak_sec env)) = nv_burn_buf s \<and>
      length (nf_view g (nv_flash s) (bak_sec env)) = NV_EXTENSION_SIZE"
    and fr: "is_update (nv_flush_state s) \<or> holds env g (nf_view g (nv_flash s) (main_sec env)) s"
  shows "ends (\<lambda>n. bak_sync_write n env s)
    (\<lambda>r. fst r = 0 \<and> sync_ok env g c Q NV_STATE_IDLE (is_update (nv_flush_state s)) s (snd r))"
proof -
  have a: "user_data_bak_start s + written_size (nv_flush_state s) = bak_sec env"
    using base by (simp add: base_inv_def)
  have "ends (\<lambda>n. nv_bind (request_phase n (norflash_api_write (nv_api env) (bak_sec env) (nv_burn_buf s))
        (free_writing (nv_api env)) env NV_STATE_BAK_WRITTEN s)
      (\<lambda>s. nv_bind (await_phase n env NV_STATE_BAK_DONE s) (\<lambda>s. bak_finish (0, s))))
    (\<lambda>r. fst r = 0 \<and> sync_ok env g c Q NV_STATE_IDLE (is_update (nv_flush_state s)) s (snd r))"
  proof (rule ends_bind [OF sync_write_bak [OF L O base Qs m d b fr]])
    fix s1
    assume s1: "sync_ok env g c Q NV_STATE_BAK_WRITTEN (is_update (nv_flush_state s)) s s1"
    from sync_await_bak [OF L O sync_okD(1-3) [OF s1]]
    show "ends (\<lambda>n. nv_bind (await_phase n env NV_STATE_BAK_DONE s1) (\<lambda>s. bak_finish (0, s)))
        (\<lambda>r. fst r = 0 \<and> sync_ok env g c Q NV_STATE_IDLE (is_update (nv_flush_state s)) s (snd r))"
      by (rule ends_mono) (use sync_ok_trans [OF s1] sync_okD(4) [OF s1] in auto)
  qed
  then show ?thesis using st a by (simp add: bak_sync_write_def)
qed

lemma bak_sync_read_ends:
  assumes L: "nv_laws env g" and O: "observes env g c Q"
    and I: "flush_inv env g c s" and Qs: "Q (nv_flash s)"
    and st: "fl s \<in> {NV_STATE_BAK_ERASED, NV_STATE_BAK_WRITE_PENDING, NV_STATE_BAK_WRITTEN}"
  shows "ends (\<lambda>n. bak_sync_read n env s)
    (\<lambda>r. fst r = 0 \<and> sync_ok env g c Q NV_STATE_IDLE (is_update (nv_flush_state s)) s (snd r))"
proof (cases "fl s = NV_STATE_BAK_WRITE_PENDING")
  case True
  then have "ends (\<lambda>n. bak_sync_write n env s)
      (\<lambda>r. fst r = 0 \<and> sync_ok env g c Q NV_STATE_IDLE (is_update (nv_flush_state s)) s (snd r))"
    using I Qs by (intro bak_sync_write_ends [OF L O])
      (auto simp: flush_inv_def phase_inv_def fresh_inv_def Let_def)
  then show ?thesis using True by (simp add: bak_sync_read_def)
next
  case False
  let ?s = "set_fl NV_STATE_BAK_WRITE_PENDING
     (s\<lparr>nv_burn_buf := take (record_size env) (nf_view g (nv_flash s) (main_sec env))\<rparr>)"
  have base: "base_inv env g s" using I by (simp add: flush_inv_def)
  have "ends (\<lambda>n. bak_sync_write n env ?s)
      (\<lambda>r. fst r = 0 \<and> sync_ok env g c Q NV_STATE_IDLE (is_update (nv_flush_state ?s)) ?s (snd r))"
    using I Qs st False by (intro bak_sync_write_ends [OF L O])
      (auto simp: flush_inv_def phase_inv_def fresh_inv_def Let_def base_inv_def holds_def)
  then have "ends (\<lambda>n. bak_sync_write n env ?s)
      (\<lambda>r. fst r = 0 \<and> sync_ok env g c Q NV_STATE_IDLE (is_update (nv_flush_state s)) s (snd r))"
    by (rule ends_mono) (simp add: sync_ok_def)
  then show ?thesis using False st bak_read [OF L base] by (auto simp: bak_sync_read_def)
qed

lemma bak_sync_ends:
  assumes L: "nv_laws env g" and O: "observes env g c Q"
    and I: "flush_inv env g c s" and Qs: "Q (nv_flash s)" and st: "bak_phase (nv_flush_state s)"
  shows "ends (\<lambda>n. flush_bak_sync n env s)
    (\<lambda>r. fst r = 0 \<and> sync_ok env g c Q NV_STATE_IDLE (is_update (nv_flush_state s)) s (snd r))"
proof -
  have dev: "norflash_api_get_dev_id (nv_api env) f = NORFLASH_API_OK" for f
    using L lawsD(1) [of "nv_api env" g "nv_sectors env"] by simp
  have nb: "fl s \<noteq> NV_STATE_BAK_WRITTING" "fl s \<noteq> NV_STATE_BAK_DONE"
    and a: "user_data_bak_start s = bak_sec env"
    using I by (auto simp: flush_inv_def phase_inv_def base_inv_def Let_def)
  show ?thesis
  proof (cases "fl s = NV_STATE_MAIN_DONE \<or> fl s = NV_STATE_BAK_ERASING")
    case True
    have "ends (\<lambda>n. nv_bind (request_phase n (norflash_api_erase (nv_api env) (bak_sec env) NV_EXTENSION_SIZE True)
          (free_erasing (nv_api env)) env NV_STATE_BAK_ERASED s) (\<lambda>s. bak_sync_read n env s))
      (\<lambda>r. fst r = 0 \<and> sync_ok env g c Q NV_STATE_IDLE (is_update (nv_flush_state s)) s (snd r))"
    proof (rule ends_bind [OF sync_erase_bak [OF L O I Qs True]])
      fix s1
      assume s1: "sync_ok env g c Q NV_STATE_BAK_ERASED (is_update (nv_flush_state s)) s s1"
      from bak_sync_read_ends [OF L O sync_okD(1,2) [OF s1]] sync_okD(3,4) [OF s1]
      have "ends (\<lambda>n. bak_sync_read n env s1)
          (\<lambda>r. fst r = 0 \<and> sync_ok env g c Q NV_STATE_IDLE (is_update (nv_flush_state s)) s1 (snd r))" by simp
      then show "ends (\<lambda>n. bak_sync_read n env s1)
          (\<lambda>r. fst r = 0 \<and> sync_ok env g c Q NV_STATE_IDLE (is_update (nv_flush_state s)) s (snd r))"
        by (rule ends_mono) (use sync_ok_trans [OF s1] in blast)
    qed
    then show ?thesis using True dev a by (auto simp: flush_bak_sync_def Let_def)
  next
    case False
    then have "fl s \<in> {NV_STATE_BAK_ERASED, NV_STATE_BAK_WRITE_PENDING, NV_STATE_BAK_WRITTEN}"
      using st nb by (auto simp: bak_phase_def)
    from bak_sync_read_ends [OF L O I Qs this] show ?thesis
      using False dev by (simp add: flush_bak_sync_def Let_def)
  qed
qed

text \<open>The phase that a state of the invariant is in.\<close>

lemma phase_cases [consumes 1, case_names idle main bak]:
  assumes "flush_inv env g c s"
  obtains (idle) "fl s = NV_STATE_IDLE" "\<not> is_update (nv_flush_state s)"
    | (main) "main_phase (nv_flush_state s)" "\<not> bak_phase (nv_flush_state s)"
    | (bak) "bak_phase (nv_flush_state s)" "\<not> main_phase (nv_flush_state s)"
  by (cases "fl s"; cases "is_update (nv_flush_state s)") (auto simp: main_phase_def bak_phase_def)

text \<open>One round of the synchronous flush: it leads to the idle state, marked or not.\<close>

definition round_update :: "NV_FLUSH_STATE \<Rightarrow> bool" where
  "round_update st \<longleftrightarrow> (if main_phase st then main_update st else is_update st)"

lemma bak_round:
  assumes L: "nv_laws env g" and O: "observes env g c Q"
    and I: "flush_inv env g c s" and Qs: "Q (nv_flash s)" and st: "bak_phase (nv_flush_state s)"
    and R: "\<And>s1. sync_ok env g c Q NV_STATE_IDLE (is_update (nv_flush_state s)) s s1 \<Longrightarrow>
      ends (\<lambda>n. extension_flush_sync n env 0 s1) R"
  shows "ends (\<lambda>n. nv_bind (flush_bak_sync n env s) (\<lambda>(ret, s). extension_flush_sync n env ret s)) R"
proof (rule ends_bind [OF bak_sync_ends [OF L O I Qs st]])
  fix r :: "int \<times> 'a nv_state"
  assume "fst r = 0 \<and> sync_ok env g c Q NV_STATE_IDLE (is_update (nv_flush_state s)) s (snd r)"
  with R [of "snd r"] show "ends (\<lambda>n. case r of (ret, s) \<Rightarrow> extension_flush_sync n env ret s) R"
    by (simp add: case_prod_beta)
qed

lemma sync_round:
  assumes L: "nv_laws env g" and O: "observes env g c Q"
    and I: "flush_inv env g c s" and Qs: "Q (nv_flash s)"
    and st: "main_phase (nv_flush_state s) \<or> bak_phase (nv_flush_state s)"
    and R: "\<And>s1. sync_ok env g c Q NV_STATE_IDLE (round_update (nv_flush_state s)) s s1 \<Longrightarrow>
      ends (\<lambda>n. extension_flush_sync n env 0 s1) R"
  shows "ends (\<lambda>n. extension_flush_sync n env ret s) R"
proof (rule ends_Suc, cases "main_phase (nv_flush_state s)")
  case False
  have "ends (\<lambda>n. nv_bind (flush_bak_sync n env s) (\<lambda>(ret, s). extension_flush_sync n env ret s)) R"
    by (rule bak_round [OF L O I Qs]) (use st False R in \<open>auto simp: round_update_def\<close>)
  then show "ends (\<lambda>n. extension_flush_sync (Suc n) env ret s) R"
    using st False by (auto simp: bak_phase_def)
next
  case True
  have "ends (\<lambda>n. nv_bind (flush_main_sync n env s) (\<lambda>(ret, s).
      nv_bind (if bak_phase (nv_flush_state s) then flush_bak_sync n env s else NvDone (ret, s))
        (\<lambda>(ret, s). extension_flush_sync n env ret s))) R"
  proof (rule ends_bind [OF main_sync_ends [OF L O I Qs True]])
    fix r :: "int \<times> 'a nv_state"
    assume r: "fst r = 0 \<and> sync_ok env g c Q NV_STATE_MAIN_DONE (main_update (nv_flush_state s)) s (snd r)"
    then have s1: "sync_ok env g c Q NV_STATE_MAIN_DONE (main_update (nv_flush_state s)) s (snd r)" by simp
    have b: "bak_phase (nv_flush_state (snd r))" using sync_okD(3) [OF s1] by (simp add: bak_phase_def)
    have "ends (\<lambda>n. nv_bind (flush_bak_sync n env (snd r)) (\<lambda>(ret, s). extension_flush_sync n env ret s)) R"
      by (rule bak_round [OF L O sync_okD(1,2) [OF s1] b], rule R)
        (use sync_ok_trans [OF s1] sync_okD(4) [OF s1] True in \<open>simp add: round_update_def\<close>)
    with b show "ends (\<lambda>n. case r of (ret, s) \<Rightarrow>
        nv_bind (if bak_phase (nv_flush_state s) then flush_bak_sync n env s else NvDone (ret, s))
          (\<lambda>(ret, s). extension_flush_sync n env ret s)) R"
      by (simp add: case_prod_beta)
  qed
  then show "ends (\<lambda>n. extension_flush_sync (Suc n) env ret s) R"
    using True by (auto simp: main_phase_def)
qed

lemma sync_idle_ends:
  assumes "flush_inv env g c s" and "Q (nv_flash s)"
    and "fl s = NV_STATE_IDLE" and "\<not> is_update (nv_flush_state s)"
  shows "ends (\<lambda>n. extension_flush_sync n env ret s) (\<lambda>r. sync_ok env g c Q NV_STATE_IDLE False s (snd r))"
  by (rule ends_Suc) (use assms in \<open>auto intro!: ends_done simp: sync_ok_def\<close>)

text \<open>At most three rounds: a change that was marked after the burn buffer was filled needs a second pass.\<close>

lemma extension_flush_sync_ends:
  assumes L: "nv_laws env g" and O: "observes env g c Q"
    and I: "flush_inv env g c s" and Qs: "Q (nv_flash s)"
  shows "ends (\<lambda>n. extension_flush_sync n env ret s) (\<lambda>r. sync_ok env g c Q NV_STATE_IDLE False s (snd r))"
proof -
  let ?R = "\<lambda>s r. sync_ok env g c Q NV_STATE_IDLE False s (snd r)"
  have clean: "ends (\<lambda>n. extension_flush_sync n env ret s) (?R s)"
    if I: "flush_inv env g c s" and Qs: "Q (nv_flash s)"
      and u: "\<not> round_update (nv_flush_state s)" for s ret
    using I
  proof (cases rule: phase_cases)
    case idle
    then show ?thesis using sync_idle_ends [where Q = Q, OF I Qs] by blast
  next
    case main
    show ?thesis
    proof (rule sync_round [OF L O I Qs])
      show "main_phase (nv_flush_state s) \<or> bak_phase (nv_flush_state s)" using main by simp
      fix s1
      assume s1: "sync_ok env g c Q NV_STATE_IDLE (round_update (nv_flush_state s)) s s1"
      show "ends (\<lambda>n. extension_flush_sync n env 0 s1) (?R s)"
        by (rule ends_mono [OF sync_idle_ends [where Q = Q, OF sync_okD(1-3) [OF s1]]])
          (use sync_okD(4) [OF s1] u sync_ok_trans [OF s1] in auto)
    qed
  next
    case bak
    show ?thesis
    proof (rule sync_round [OF L O I Qs])
      show "main_phase (nv_flush_state s) \<or> bak_phase (nv_flush_state s)" using bak by simp
      fix s1
      assume s1: "sync_ok env g c Q NV_STATE_IDLE (round_update (nv_flush_state s)) s s1"
      show "ends (\<lambda>n. extension_flush_sync n env 0 s1) (?R s)"
        by (rule ends_mono [OF sync_idle_ends [where Q = Q, OF sync_okD(1-3) [OF s1]]])
          (use sync_okD(4) [OF s1] u sync_ok_trans [OF s1] in auto)
    qed
  qed
  show ?thesis
  proof (cases "round_update (nv_flush_state s)")
    case False
    then show ?thesis by (rule clean [OF I Qs])
  next
    case True
    have ph: "main_phase (nv_flush_state s) \<or> bak_phase (nv_flush_state s)"
      using I True
    proof (cases rule: phase_cases)
      case idle
      then show ?thesis using True by (simp add: round_update_def main_phase_def)
    qed simp_all
    show ?thesis
    proof (rule sync_round [OF L O I Qs ph])
      fix s1
      assume s1: "sync_ok env g c Q NV_STATE_IDLE (round_update (nv_flush_state s)) s s1"
      have "\<not> round_update (nv_flush_state s1)"
        using sync_okD(3,4) [OF s1] by (auto simp: round_update_def main_phase_def main_update_def)
      then show "ends (\<lambda>n. extension_flush_sync n env 0 s1) (?R s)"
        by (rule ends_mono [OF clean [OF sync_okD(1,2) [OF s1]]]) (use sync_ok_trans [OF s1] in blast)
    qed
  qed
qed

end
