(* ===== verification/NvBle.thy ===== *)
theory NvBle
  imports NvFlush
begin

text \<open>
  \<open>nvrecord_ble.c\<close>: the table of bonded BLE devices in the mirror, the cached services of the
  peers, and the exchange of the BLE identity between the two earbuds. \<open>nvrecord_ble_p\<close> is null
  until \<open>nv_record_blerec_init\<close>; a function that uses it unchecked yields \<open>NullDeref\<close> then. Most
  writers end with one round of the asynchronous flush, so they take the environment of
  \<open>NvFlush\<close> and the clock. \<open>src/build.log\<close> switches LE audio and the cross-transport key code off
  and \<open>BLE_ADV_RPA_ENABLED\<close> on.
\<close>

section \<open>Loops over the table\<close>

abbreviation ble_info :: "'f nv_state \<Rightarrow> NV_RECORD_PAIRED_BLE_DEV_INFO_T" where
  "ble_info s \<equiv> ble_pair_info (nv_body s)"

abbreviation ble_key :: "BleDeviceinfo \<Rightarrow> bytes" where
  "ble_key d \<equiv> addr (peer_addr (pairingInfo d))"

definition ble_used :: "NV_RECORD_PAIRED_BLE_DEV_INFO_T \<Rightarrow> BleDeviceinfo list" where
  "ble_used info = take (saved_list_num info) (ble_nv info)"

text \<open>The first index whose element satisfies a condition, as the search loops compute it.\<close>

fun first_index :: "('a \<Rightarrow> bool) \<Rightarrow> 'a list \<Rightarrow> nat option" where
  "first_index P [] = None"
| "first_index P (x # xs) = (if P x then Some 0 else map_option Suc (first_index P xs))"

definition ble_index :: "bytes \<Rightarrow> 'f nv_state \<Rightarrow> nat option" where
  "ble_index a s = first_index (\<lambda>d. ble_key d = a) (ble_used (ble_info s))"

text \<open>The search by address and address type.\<close>

definition ble_full_index :: "BLE_ADDR_INFO_T \<Rightarrow> 'f nv_state \<Rightarrow> nat option" where
  "ble_full_index a s = first_index (\<lambda>d. peer_addr (pairingInfo d) = a) (ble_used (ble_info s))"

definition ble_upd_entry ::
    "nat \<Rightarrow> (BleDeviceinfo \<Rightarrow> BleDeviceinfo) \<Rightarrow> NV_RECORD_PAIRED_BLE_DEV_INFO_T \<Rightarrow> NV_RECORD_PAIRED_BLE_DEV_INFO_T" where
  "ble_upd_entry i f info = info\<lparr>ble_nv := (ble_nv info)[i := f (ble_nv info ! i)]\<rparr>"

text \<open>A store to the BLE section between opening and closing the mirror, and a store with a flush.\<close>

definition ble_store ::
    "(NV_RECORD_PAIRED_BLE_DEV_INFO_T \<Rightarrow> NV_RECORD_PAIRED_BLE_DEV_INFO_T) \<Rightarrow> 'f nv_state \<Rightarrow> 'f nv_state" where
  "ble_store f s =
     nv_record_post_write_operation (nv_write (upd_ble f) (nv_record_pre_write_operation s))"

definition ble_commit :: "'f nv_env \<Rightarrow> u32 \<Rightarrow> 'f nv_state \<Rightarrow> 'f nv_state nv_out" where
  "ble_commit env now s = nv_record_execute_async_flush env now (nv_record_update_runtime_userdata s)"

section \<open>Rebuilding and initialisation\<close>

text \<open>The random bytes of \<open>nvrecord_gen_local_random\<close> are \<open>gen_irk\<close> and \<open>gen_csrk\<close>.\<close>

definition nvrecord_rebuild_paired_ble_dev_info ::
    "'f nv_env \<Rightarrow> NV_RECORD_PAIRED_BLE_DEV_INFO_T" where
  "nvrecord_rebuild_paired_ble_dev_info env =
     (let info = zero_ble_paired_info in
      info\<lparr>saved_list_num := 0, local_database_hash := replicate 16 0,
        self_info := (self_info info)\<lparr>ble_irk := gen_irk env, ble_csrk := gen_csrk env\<rparr>,
        gatt_cache := replicate BLE_GATT_CACHE_NUM zero_gatt_cache\<rparr>)"

definition nv_record_blerec_init :: "bytes \<Rightarrow> 'f nv_state \<Rightarrow> 'f nv_state c_result" where
  "nv_record_blerec_init local_addr s =
     (let s = nv_record_pre_write_operation s in
      if \<not> nvrecord_ble_p s then
        if \<not> nvrecord_extension_p s then NullDeref
        else
          let s = s\<lparr>nvrecord_ble_p := True\<rparr>;
              s = (if ble_addr (self_info (ble_info s)) = replicate 6 0
                   then nv_write (upd_ble (\<lambda>i. i\<lparr>self_info := (self_info i)\<lparr>ble_addr := local_addr\<rparr>\<rparr>)) s
                   else s)
          in Ret (nv_record_post_write_operation s)
      else Ret (nv_record_post_write_operation s))"

definition nv_record_blerec_get_ptr :: "'f nv_state \<Rightarrow> NV_RECORD_PAIRED_BLE_DEV_INFO_T option" where
  "nv_record_blerec_get_ptr s = (if nvrecord_ble_p s then Some (ble_info s) else None)"

section \<open>Reading the table\<close>

definition nvrecord_find_arbitrary_peer_ble_device_address :: "'f nv_state \<Rightarrow> bytes option" where
  "nvrecord_find_arbitrary_peer_ble_device_address s =
     (if \<not> nvrecord_ble_p s then None
      else if saved_list_num (ble_info s) = 0 then None
      else map_option ble_key
        (find (\<lambda>d. ble_key d \<noteq> ble_addr (self_info (ble_info s))) (ble_used (ble_info s))))"

definition nv_record_get_paired_ble_dev_info_list_num :: "'f nv_state \<Rightarrow> nat" where
  "nv_record_get_paired_ble_dev_info_list_num s =
     (if \<not> nvrecord_ble_p s then 0 else saved_list_num (ble_info s))"

text \<open>The list length is read through the pointer before the pointer is checked.\<close>

definition nv_record_get_ble_pairing_info_through_list_index ::
    "nat \<Rightarrow> 'f nv_state \<Rightarrow> BleDevicePairingInfo option c_result" where
  "nv_record_get_ble_pairing_info_through_list_index listIndex s =
     (if \<not> nvrecord_ble_p s then NullDeref
      else let nv_ble_list_num = saved_list_num (ble_info s) in
        if nv_ble_list_num = 0 \<or> nv_ble_list_num \<le> listIndex then Ret None
        else Ret (Some (pairingInfo (ble_nv (ble_info s) ! listIndex))))"

definition nv_record_blerec_get_local_irk :: "'f nv_state \<Rightarrow> bytes c_result" where
  "nv_record_blerec_get_local_irk s =
     (if \<not> nvrecord_ble_p s then NullDeref else Ret (ble_irk (self_info (ble_info s))))"

definition nv_record_blerec_get_bd_addr_from_irk :: "bytes \<Rightarrow> 'f nv_state \<Rightarrow> bytes option c_result" where
  "nv_record_blerec_get_bd_addr_from_irk pIrk s =
     (if \<not> nvrecord_ble_p s then NullDeref
      else Ret (map_option ble_key
        (find (\<lambda>d. IRK (pairingInfo d) = pIrk) (ble_used (ble_info s)))))"

definition nv_record_blerec_get_irk_from_addr :: "bytes \<Rightarrow> 'f nv_state \<Rightarrow> bytes option" where
  "nv_record_blerec_get_irk_from_addr pBdAddr s =
     (if \<not> nvrecord_ble_p s then None
      else map_option (\<lambda>d. IRK (pairingInfo d))
        (find (\<lambda>d. ble_key d = pBdAddr) (ble_used (ble_info s))))"

text \<open>The return value and the records copied to the caller; the flag tells whether both pointers are given.\<close>

definition nv_record_blerec_enum_latest_two_paired_dev ::
    "bool \<Rightarrow> 'f nv_state \<Rightarrow> int \<times> BleDeviceinfo list" where
  "nv_record_blerec_enum_latest_two_paired_dev ptrs s =
     (let info = ble_info s in
      if \<not> ptrs \<or> \<not> nvrecord_ble_p s then (-1, [])
      else if 0 < saved_list_num info then
        if saved_list_num info = 1 then (1, [ble_nv info ! 0])
        else (2, [ble_nv info ! 0, ble_nv info ! 1])
      else (0, []))"

text \<open>A missing buffer or table fails the assertion.\<close>

definition nv_record_blerec_enum_paired_dev_addr ::
    "bool \<Rightarrow> 'f nv_state \<Rightarrow> (nat \<times> BLE_ADDR_INFO_T list) nv_out" where
  "nv_record_blerec_enum_paired_dev_addr ptr s =
     (if \<not> ptr \<or> \<not> nvrecord_ble_p s then NvAssert
      else NvDone (saved_list_num (ble_info s),
        map (\<lambda>d. peer_addr (pairingInfo d)) (ble_used (ble_info s))))"

definition nv_record_blerec_get_paired_dev_from_addr ::
    "bool \<Rightarrow> BLE_ADDR_INFO_T option \<Rightarrow> 'f nv_state \<Rightarrow> BleDevicePairingInfo option" where
  "nv_record_blerec_get_paired_dev_from_addr ptr pBdAddr s =
     (case pBdAddr of
        None \<Rightarrow> None
      | Some a \<Rightarrow> if \<not> ptr \<or> \<not> nvrecord_ble_p s then None
          else map_option pairingInfo (find (\<lambda>d. peer_addr (pairingInfo d) = a) (ble_used (ble_info s))))"

definition nv_record_blerec_is_paired_from_addr :: "bytes option \<Rightarrow> 'f nv_state \<Rightarrow> bool" where
  "nv_record_blerec_is_paired_from_addr pBdAddr s =
     (case pBdAddr of
        None \<Rightarrow> False
      | Some a \<Rightarrow> nvrecord_ble_p s \<and> find (\<lambda>d. ble_key d = a) (ble_used (ble_info s)) \<noteq> None)"

definition nv_record_ble_fill_irk :: "'f nv_state \<Rightarrow> nat \<times> bytes" where
  "nv_record_ble_fill_irk s =
     (if \<not> nvrecord_ble_p s \<or> saved_list_num (ble_info s) = 0 then (0, [])
      else (saved_list_num (ble_info s),
        concat (map (\<lambda>d. IRK (pairingInfo d)) (ble_used (ble_info s)))))"

text \<open>The key for an encryption request: the peer's own key or the local one, by the diversifier.\<close>

fun find_ltk_loop :: "bytes \<Rightarrow> u16 \<Rightarrow> BleDeviceinfo list \<Rightarrow> bytes option" where
  "find_ltk_loop a ediv [] = None"
| "find_ltk_loop a ediv (d # ds) =
     (if ble_key d = a then
        if ediv = 0 \<or> ediv \<noteq> 0 \<and> EDIV (pairingInfo d) = ediv then Some (LTK (pairingInfo d))
        else if LOCAL_EDIV (pairingInfo d) = ediv then Some (LOCAL_LTK (pairingInfo d))
        else find_ltk_loop a ediv ds
      else find_ltk_loop a ediv ds)"

definition nv_record_ble_record_find_ltk :: "bytes \<Rightarrow> u16 \<Rightarrow> 'f nv_state \<Rightarrow> bytes option" where
  "nv_record_ble_record_find_ltk pBdAddr ediv s =
     (if \<not> nvrecord_ble_p s then None
      else if saved_list_num (ble_info s) = 0 then None
      else find_ltk_loop pBdAddr ediv (ble_used (ble_info s)))"

text \<open>The loop does not stop at a match: the last one is returned.\<close>

definition nv_record_ble_record_find_device_security_info_through_static_bd_addr ::
    "bytes \<Rightarrow> 'f nv_state \<Rightarrow> BleDevicePairingInfo option" where
  "nv_record_ble_record_find_device_security_info_through_static_bd_addr pBdAddr s =
     (if \<not> nvrecord_ble_p s then None
      else if saved_list_num (ble_info s) = 0 then None
      else fold (\<lambda>d acc. if ble_key d = pBdAddr then Some (pairingInfo d) else acc)
        (ble_used (ble_info s)) None)"

definition BONDED_STATUS_POS :: nat where
  "BONDED_STATUS_POS = 0"

definition BONDED_WITH_IRK_DISTRIBUTED :: nat where
  "BONDED_WITH_IRK_DISTRIBUTED = 1"

definition nv_record_ble_record_Once_a_device_has_been_bonded :: "'f nv_state \<Rightarrow> bool" where
  "nv_record_ble_record_Once_a_device_has_been_bonded s =
     (if \<not> nvrecord_ble_p s \<or> saved_list_num (ble_info s) = 0 then False
      else list_ex (\<lambda>d. bit (bond_info_bf (pairingInfo d)) BONDED_STATUS_POS) (ble_used (ble_info s)))"

definition nv_record_ble_read_addr_resolv_supp_via_bdaddr :: "bytes \<Rightarrow> 'f nv_state \<Rightarrow> bool option" where
  "nv_record_ble_read_addr_resolv_supp_via_bdaddr pBdAddr s =
     (if \<not> nvrecord_ble_p s \<or> saved_list_num (ble_info s) = 0 then None
      else map_option (\<lambda>d. bit (bond_info_bf (pairingInfo d)) BONDED_WITH_IRK_DISTRIBUTED)
        (find (\<lambda>d. ble_key d = pBdAddr) (ble_used (ble_info s))))"

definition nv_record_ble_read_volume_via_bdaddr :: "bytes \<Rightarrow> 'f nv_state \<Rightarrow> u8 option" where
  "nv_record_ble_read_volume_via_bdaddr pBdAddr s =
     (if \<not> nvrecord_ble_p s \<or> saved_list_num (ble_info s) = 0 then None
      else map_option volume (find (\<lambda>d. ble_key d = pBdAddr) (ble_used (ble_info s))))"

section \<open>Adding a bonded device\<close>

datatype nv_ble_update = NV_BLE_DONT_UPDATE | NV_BLE_ADD_NEW_ITEM | NV_BLE_UPDATE_EXIST

text \<open>The edits of \<open>blerec_specific_value_prepare\<close>: clear the found entry, open slot 0 for a new one, move the found one to slot 0.\<close>

definition ble_clear_pairing :: "nat \<Rightarrow> NV_RECORD_PAIRED_BLE_DEV_INFO_T \<Rightarrow> NV_RECORD_PAIRED_BLE_DEV_INFO_T" where
  "ble_clear_pairing i info =
     (ble_upd_entry i (\<lambda>d. d\<lparr>pairingInfo := zero_pairing_info\<rparr>) info)\<lparr>saved_list_num := saved_list_num info - 1\<rparr>"

definition ble_open_slot :: "NV_RECORD_PAIRED_BLE_DEV_INFO_T \<Rightarrow> NV_RECORD_PAIRED_BLE_DEV_INFO_T" where
  "ble_open_slot info =
     (if saved_list_num info = BLE_RECORD_NUM
      then info\<lparr>ble_nv := (shift_up (BLE_RECORD_NUM - 1) (BLE_RECORD_NUM - 1) (ble_nv info))[0 := zero_ble_device],
             saved_list_num := saved_list_num info - 1\<rparr>
      else if 0 < saved_list_num info
      then info\<lparr>ble_nv := (shift_up (saved_list_num info) (saved_list_num info) (ble_nv info))[0 := zero_ble_device]\<rparr>
      else info)"

definition ble_move_slot ::
    "bool \<Rightarrow> nat \<Rightarrow> NV_RECORD_PAIRED_BLE_DEV_INFO_T \<Rightarrow> NV_RECORD_PAIRED_BLE_DEV_INFO_T" where
  "ble_move_slot malloc_ok entryToFree info =
     (let exist = ble_nv info ! entryToFree;
          a = shift_up entryToFree entryToFree (ble_nv info)
      in info\<lparr>ble_nv := if malloc_ok then a[0 := exist] else a\<rparr>)"

text \<open>\<open>malloc_ok\<close> is the outcome of \<open>btif_cobuf_malloc\<close>.\<close>

definition blerec_specific_value_prepare ::
    "bool \<Rightarrow> BleDevicePairingInfo \<Rightarrow> 'f nv_state \<Rightarrow> nv_ble_update \<times> 'f nv_state" where
  "blerec_specific_value_prepare malloc_ok param_rec s =
     (if 0 < saved_list_num (ble_info s) then
        (case ble_index (addr (peer_addr param_rec)) s of
           Some i \<Rightarrow>
             if param_rec = pairingInfo (ble_nv (ble_info s) ! i) then (NV_BLE_DONT_UPDATE, s)
             else let s = ble_store (ble_clear_pairing i) s;
                      s = ble_store (ble_move_slot malloc_ok i) s
                  in (NV_BLE_UPDATE_EXIST, s)
         | None \<Rightarrow> (NV_BLE_ADD_NEW_ITEM, ble_store ble_open_slot s))
      else (NV_BLE_ADD_NEW_ITEM, s))"

definition blerec_fill :: "BleDevicePairingInfo \<Rightarrow> NV_RECORD_PAIRED_BLE_DEV_INFO_T \<Rightarrow> NV_RECORD_PAIRED_BLE_DEV_INFO_T" where
  "blerec_fill param_rec info =
     (ble_upd_entry 0 (\<lambda>d. d\<lparr>pairingInfo := param_rec\<rparr>) info)\<lparr>saved_list_num := saved_list_num info + 1\<rparr>"

definition nv_record_blerec_add ::
    "'f nv_env \<Rightarrow> bool \<Rightarrow> u32 \<Rightarrow> BleDevicePairingInfo \<Rightarrow> 'f nv_state \<Rightarrow> (int \<times> 'f nv_state) nv_out c_result" where
  "nv_record_blerec_add env malloc_ok now param_rec s =
     (if \<not> nvrecord_ble_p s then NullDeref
      else let (isNeedToUpdateNv, s) = blerec_specific_value_prepare malloc_ok param_rec s in
        if isNeedToUpdateNv = NV_BLE_DONT_UPDATE then Ret (NvDone (0, s))
        else Ret (nv_bind (ble_commit env now (ble_store (blerec_fill param_rec) s)) (\<lambda>s. NvDone (0, s))))"

section \<open>Editing the table\<close>

definition nv_record_blerec_set_change_unaware ::
    "'f nv_env \<Rightarrow> u32 \<Rightarrow> 'f nv_state \<Rightarrow> 'f nv_state nv_out c_result" where
  "nv_record_blerec_set_change_unaware env now s =
     (if \<not> nvrecord_ble_p s then NullDeref
      else Ret (ble_commit env now (ble_store
        (\<lambda>info. fold (\<lambda>i. ble_upd_entry i (\<lambda>d. d\<lparr>pairingInfo := (pairingInfo d)
             \<lparr>server_cache := (server_cache (pairingInfo d))\<lparr>service_change_unaware := True\<rparr>\<rparr>\<rparr>))
           [0..<saved_list_num info] info) s)))"

definition nv_record_blerec_update_database_hash ::
    "'f nv_env \<Rightarrow> u32 \<Rightarrow> bytes \<Rightarrow> 'f nv_state \<Rightarrow> 'f nv_state nv_out c_result" where
  "nv_record_blerec_update_database_hash env now hash s =
     (if \<not> nvrecord_ble_p s then NullDeref
      else Ret (ble_commit env now (ble_store (\<lambda>i. i\<lparr>local_database_hash := take 16 hash\<rparr>) s)))"

definition nv_record_ble_write_addr_resolv_supp_via_bdaddr ::
    "'f nv_env \<Rightarrow> u32 \<Rightarrow> bytes \<Rightarrow> bool \<Rightarrow> 'f nv_state \<Rightarrow> (bool \<times> 'f nv_state) nv_out" where
  "nv_record_ble_write_addr_resolv_supp_via_bdaddr env now pBdAddr issupport s =
     (if \<not> nvrecord_ble_p s \<or> saved_list_num (ble_info s) = 0 then NvDone (False, s)
      else case ble_index pBdAddr s of
        None \<Rightarrow> NvDone (False, s)
      | Some i \<Rightarrow>
          let s = nv_record_pre_write_operation s;
              s = nv_record_update_runtime_userdata s;
              s = nv_write (upd_ble (ble_upd_entry i (\<lambda>d. d\<lparr>pairingInfo := (pairingInfo d)\<lparr>bond_info_bf :=
                    (if issupport then or (bond_info_bf (pairingInfo d)) (push_bit BONDED_WITH_IRK_DISTRIBUTED 1)
                     else and (bond_info_bf (pairingInfo d)) (not (push_bit BONDED_WITH_IRK_DISTRIBUTED 1)))\<rparr>\<rparr>))) s;
              s = nv_record_post_write_operation s
          in nv_bind (nv_record_execute_async_flush env now s) (\<lambda>s. NvDone (True, s)))"

definition nv_record_ble_write_volume_via_bdaddr :: "bytes \<Rightarrow> u8 \<Rightarrow> 'f nv_state \<Rightarrow> bool \<times> 'f nv_state" where
  "nv_record_ble_write_volume_via_bdaddr pBdAddr vol s =
     (if \<not> nvrecord_ble_p s \<or> saved_list_num (ble_info s) = 0 then (False, s)
      else case ble_index pBdAddr s of
        None \<Rightarrow> (False, s)
      | Some i \<Rightarrow>
          (True, snd (nv_record_touch_cause_flush (ble_store (ble_upd_entry i (\<lambda>d. d\<lparr>volume := vol\<rparr>)) s))))"

text \<open>Deletion closes the gap and clears the last used slot.\<close>

definition ble_remove_at :: "nat \<Rightarrow> NV_RECORD_PAIRED_BLE_DEV_INFO_T \<Rightarrow> NV_RECORD_PAIRED_BLE_DEV_INFO_T" where
  "ble_remove_at i info =
     (let n = saved_list_num info - 1 in
      info\<lparr>ble_nv := (shift_down i (n - i) (ble_nv info))[n := zero_ble_device], saved_list_num := n\<rparr>)"

definition nv_record_ble_delete_entry_by_index :: "nat \<Rightarrow> 'f nv_state \<Rightarrow> 'f nv_state c_result" where
  "nv_record_ble_delete_entry_by_index index_to_delete s =
     (if \<not> nvrecord_ble_p s then NullDeref
      else
        let s = nv_record_pre_write_operation s;
            s = (if index_to_delete < saved_list_num (ble_info s)
                 then nv_record_update_runtime_userdata (nv_write (upd_ble (ble_remove_at index_to_delete)) s)
                 else s)
        in Ret (nv_record_post_write_operation s))"

definition nv_record_ble_delete_entry :: "bytes \<Rightarrow> 'f nv_state \<Rightarrow> 'f nv_state c_result" where
  "nv_record_ble_delete_entry pBdAddr s =
     (if \<not> nvrecord_ble_p s \<or> saved_list_num (ble_info s) = 0 then Ret s
      else case ble_index pBdAddr s of
        None \<Rightarrow> Ret s
      | Some i \<Rightarrow> nv_record_ble_delete_entry_by_index i s)"

definition nv_record_ble_delete_all_entry :: "'f nv_state \<Rightarrow> 'f nv_state c_result" where
  "nv_record_ble_delete_all_entry s =
     (if \<not> nvrecord_ble_p s then NullDeref
      else
        let list_num = nv_record_get_paired_ble_dev_info_list_num s;
            s = nv_record_pre_write_operation s;
            s = nv_write (upd_ble (\<lambda>info. (fold (\<lambda>i. ble_upd_entry i (\<lambda>_. zero_ble_device)) [0..<list_num] info)
                  \<lparr>saved_list_num := 0\<rparr>)) s;
            s = nv_record_update_runtime_userdata s
        in Ret (nv_record_post_write_operation s))"

section \<open>Cached services\<close>

definition nv_record_ble_gatt_cache_get :: "BLE_ADDR_INFO_T option \<Rightarrow> 'f nv_state \<Rightarrow> gattc_nv_cache_t option" where
  "nv_record_ble_gatt_cache_get p_addr s =
     (case p_addr of
        None \<Rightarrow> None
      | Some a \<Rightarrow> if \<not> nvrecord_ble_p s then None
          else find (\<lambda>c. cache_peer_addr c = a) (take BLE_GATT_CACHE_NUM (gatt_cache (ble_info s))))"

text \<open>The scan for an entry of the address and for the entry with the smallest sequence number.\<close>

fun gatt_cache_scan ::
    "BLE_ADDR_INFO_T \<Rightarrow> nat \<Rightarrow> u8 \<Rightarrow> nat option \<Rightarrow> nat option \<Rightarrow> gattc_nv_cache_t list \<Rightarrow> nat option \<times> nat option" where
  "gatt_cache_scan a i smallest_seqn small found [] = (small, found)"
| "gatt_cache_scan a i smallest_seqn small found (c # cs) =
     gatt_cache_scan a (Suc i)
       (if cache_seqn c < smallest_seqn then cache_seqn c else smallest_seqn)
       (if cache_seqn c < smallest_seqn then Some i else small)
       (if found = None \<and> cache_seqn c \<noteq> 0 \<and> cache_peer_addr c = a then Some i else found) cs"

definition gatt_cache_store ::
    "BLE_ADDR_INFO_T \<Rightarrow> u8 \<Rightarrow> bytes \<Rightarrow> NV_RECORD_PAIRED_BLE_DEV_INFO_T \<Rightarrow> NV_RECORD_PAIRED_BLE_DEV_INFO_T" where
  "gatt_cache_store a cache_seq cache info =
     (let cs = gatt_cache info;
          (small, found) = gatt_cache_scan a 0 0xff None None (take BLE_GATT_CACHE_NUM cs)
      in case found of
           Some j \<Rightarrow> info\<lparr>gatt_cache := cs[j := (cs ! j)\<lparr>client_cache := cache\<rparr>]\<rparr>
         | None \<Rightarrow> (case small of
             Some j \<Rightarrow> info\<lparr>gatt_cache := cs[j := (cs ! j)\<lparr>cache_peer_addr := a, cache_seqn := cache_seq,
                 client_cache := cache\<rparr>]\<rparr>
           | None \<Rightarrow> info))"

definition nv_record_ble_gatt_cache_add ::
    "'f nv_env \<Rightarrow> u32 \<Rightarrow> BLE_ADDR_INFO_T option \<Rightarrow> u8 \<Rightarrow> bytes option \<Rightarrow> 'f nv_state \<Rightarrow> (int \<times> 'f nv_state) nv_out" where
  "nv_record_ble_gatt_cache_add env now p_addr cache_seq cache s =
     (case (p_addr, cache) of
        (Some a, Some c) \<Rightarrow>
          if \<not> nvrecord_ble_p s then NvDone (-1, s)
          else nv_bind (ble_commit env now (ble_store (gatt_cache_store a cache_seq c) s)) (\<lambda>s. NvDone (0, s))
      | _ \<Rightarrow> NvDone (-1, s))"

definition gatt_cache_remove :: "BLE_ADDR_INFO_T \<Rightarrow> NV_RECORD_PAIRED_BLE_DEV_INFO_T \<Rightarrow> NV_RECORD_PAIRED_BLE_DEV_INFO_T" where
  "gatt_cache_remove a info =
     (case first_index (\<lambda>c. cache_seqn c \<noteq> 0 \<and> cache_peer_addr c = a) (take BLE_GATT_CACHE_NUM (gatt_cache info)) of
        None \<Rightarrow> info
      | Some j \<Rightarrow> info\<lparr>gatt_cache := (gatt_cache info)[j := zero_gatt_cache]\<rparr>)"

definition nv_record_ble_gatt_cache_del ::
    "'f nv_env \<Rightarrow> u32 \<Rightarrow> BLE_ADDR_INFO_T option \<Rightarrow> 'f nv_state \<Rightarrow> (int \<times> 'f nv_state) nv_out" where
  "nv_record_ble_gatt_cache_del env now p_addr s =
     (case p_addr of
        None \<Rightarrow> NvDone (-1, s)
      | Some a \<Rightarrow> if \<not> nvrecord_ble_p s then NvDone (-1, s)
          else nv_bind (ble_commit env now (ble_store (gatt_cache_remove a) s)) (\<lambda>s. NvDone (0, s)))"

definition nv_record_ble_server_cache_get :: "BLE_ADDR_INFO_T option \<Rightarrow> 'f nv_state \<Rightarrow> gattc_server_cache_t option" where
  "nv_record_ble_server_cache_get p_addr s =
     (case p_addr of
        None \<Rightarrow> None
      | Some a \<Rightarrow> if \<not> nvrecord_ble_p s then None
          else map_option (\<lambda>d. server_cache (pairingInfo d))
            (find (\<lambda>d. peer_addr (pairingInfo d) = a) (ble_used (ble_info s))))"

definition server_cache_store ::
    "BLE_ADDR_INFO_T \<Rightarrow> gattc_server_cache_t \<Rightarrow> NV_RECORD_PAIRED_BLE_DEV_INFO_T \<Rightarrow> NV_RECORD_PAIRED_BLE_DEV_INFO_T" where
  "server_cache_store a c info =
     (case first_index (\<lambda>d. peer_addr (pairingInfo d) = a) (ble_used info) of
        None \<Rightarrow> info
      | Some i \<Rightarrow> ble_upd_entry i (\<lambda>d. d\<lparr>pairingInfo := (pairingInfo d)\<lparr>server_cache := c\<rparr>\<rparr>) info)"

definition nv_record_ble_server_cache_add ::
    "'f nv_env \<Rightarrow> u32 \<Rightarrow> BLE_ADDR_INFO_T option \<Rightarrow> gattc_server_cache_t option \<Rightarrow> 'f nv_state \<Rightarrow>
     (int \<times> 'f nv_state) nv_out" where
  "nv_record_ble_server_cache_add env now p_addr cache s =
     (case (p_addr, cache) of
        (Some a, Some c) \<Rightarrow>
          if \<not> nvrecord_ble_p s then NvDone (-1, s)
          else nv_bind (ble_commit env now (ble_store (server_cache_store a c) s)) (\<lambda>s. NvDone (0, s))
      | _ \<Rightarrow> NvDone (-1, s))"

definition nv_record_ble_server_cache_del ::
    "'f nv_env \<Rightarrow> u32 \<Rightarrow> BLE_ADDR_INFO_T option \<Rightarrow> 'f nv_state \<Rightarrow> (int \<times> 'f nv_state) nv_out" where
  "nv_record_ble_server_cache_del env now p_addr s =
     (case p_addr of
        None \<Rightarrow> NvDone (-1, s)
      | Some a \<Rightarrow> if \<not> nvrecord_ble_p s then NvDone (-1, s)
          else nv_bind (ble_commit env now (ble_store (server_cache_store a zero_server_cache) s))
            (\<lambda>s. NvDone (0, s)))"

section \<open>The identity of the pair of earbuds\<close>

definition tws_use_same_ble_addr :: "bytes \<Rightarrow> 'f nv_state \<Rightarrow> bool" where
  "tws_use_same_ble_addr peer_ble_addr s = (ble_addr (self_info (ble_info s)) = peer_ble_addr)"

text \<open>The identity received from the other earbud is stored in both places, then flushed until done.\<close>

definition tws_ble_info_edit :: "BLE_BASIC_INFO_T \<Rightarrow> 'f nv_state \<Rightarrow> bool \<times> 'f nv_state" where
  "tws_ble_info_edit info s =
     (let s = nv_record_pre_write_operation s;
          pend1 = (self_info (ble_info s) \<noteq> info);
          s = (if pend1 then nv_record_extension_update (nv_write (upd_ble (\<lambda>i. i\<lparr>self_info := info\<rparr>)) s) else s);
          pend2 = (tws_ble_info (nv_body s) \<noteq> info);
          s = (if pend2 then nv_record_extension_update (nv_write (\<lambda>b. b\<lparr>tws_ble_info := info\<rparr>) s) else s)
      in (pend1 \<or> pend2, nv_record_post_write_operation s))"

definition nv_record_extension_update_tws_ble_info ::
    "nat \<Rightarrow> 'f nv_env \<Rightarrow> u32 \<Rightarrow> NV_RECORD_PAIRED_BLE_DEV_INFO_T option \<Rightarrow> 'f nv_state \<Rightarrow> 'f nv_state nv_out c_result" where
  "nv_record_extension_update_tws_ble_info n env now info s =
     (case info of
        None \<Rightarrow> Ret NvAssert
      | Some i \<Rightarrow> if \<not> nvrecord_extension_p s then NullDeref
          else let (pending, s) = tws_ble_info_edit (self_info i) s in
            Ret (if pending then nv_record_flash_flush n env now s else NvDone s))"

text \<open>With resolvable private addresses in use, the two earbuds swap their identity keys.\<close>

definition nv_record_tws_exchange_ble_info :: "'f nv_state \<Rightarrow> 'f nv_state c_result" where
  "nv_record_tws_exchange_ble_info s =
     (if \<not> nvrecord_extension_p s then NullDeref
      else if tws_use_same_ble_addr (ble_addr (tws_ble_info (nv_body s))) s then Ret s
      else if ble_addr (tws_ble_info (nv_body s)) = replicate 6 0 then Ret s
      else
        let s = nv_record_pre_write_operation s;
            temp_ble_irk = ble_irk (self_info (ble_info s));
            s = nv_write (\<lambda>b. upd_ble (\<lambda>i. i\<lparr>self_info := (self_info i)\<lparr>ble_irk := ble_irk (tws_ble_info b)\<rparr>\<rparr>) b) s;
            s = nv_write (\<lambda>b. b\<lparr>tws_ble_info := (tws_ble_info b)\<lparr>ble_irk := temp_ble_irk\<rparr>\<rparr>) s;
            s = nv_record_extension_update s
        in Ret (nv_record_post_write_operation s))"

definition nv_record_tws_get_self_ble_info :: "'f nv_state \<Rightarrow> bytes c_result" where
  "nv_record_tws_get_self_ble_info s =
     (if \<not> nvrecord_extension_p s then NullDeref else Ret (ble_addr (self_info (ble_info s))))"

section \<open>The used part of the table\<close>

definition ble_info_ok :: "NV_RECORD_PAIRED_BLE_DEV_INFO_T \<Rightarrow> bool" where
  "ble_info_ok info \<longleftrightarrow>
     length (ble_nv info) = BLE_RECORD_NUM \<and> saved_list_num info \<le> BLE_RECORD_NUM \<and>
     distinct (map ble_key (ble_used info)) \<and>
     drop (saved_list_num info) (ble_nv info) =
       replicate (BLE_RECORD_NUM - saved_list_num info) zero_ble_device \<and>
     length (gatt_cache info) = BLE_GATT_CACHE_NUM"

definition ble_view :: "'f nv_state \<Rightarrow> BleDeviceinfo list" where
  "ble_view s = ble_used (ble_info s)"

definition ble_invar :: "'f nv_state \<Rightarrow> bool" where
  "ble_invar s \<longleftrightarrow> nvrecord_ble_p s \<and> nvrecord_extension_p s \<and> \<not> nv_mpu_fault s \<and> ble_info_ok (ble_info s)"

lemma first_index_None: "first_index P xs = None \<longleftrightarrow> (\<forall>x\<in>set xs. \<not> P x)"
  by (induction xs) auto

lemma first_index_Some: "first_index P xs = Some i \<Longrightarrow> i < length xs \<and> P (xs ! i)"
  by (induction xs arbitrary: i) (auto split: if_splits)

lemma find_first_index: "find P xs = map_option (nth xs) (first_index P xs)"
  by (induction xs) (auto simp: option.map_comp o_def)

lemma length_ble_used: "ble_info_ok info \<Longrightarrow> length (ble_used info) = saved_list_num info"
  by (simp add: ble_info_ok_def ble_used_def)

lemma ble_used_nth: "i < length (ble_used info) \<Longrightarrow> ble_used info ! i = ble_nv info ! i"
  by (simp add: ble_used_def)

lemma drop_nth_update: "drop_nth i (xs[i := y]) = drop_nth i xs"
  by (simp add: drop_nth_def)

text \<open>The entry that \<open>nv_record_blerec_add\<close> leaves in slot 0, and the table it leaves.\<close>

definition blerec_volume :: "bool \<Rightarrow> BleDevicePairingInfo \<Rightarrow> BleDeviceinfo list \<Rightarrow> u8" where
  "blerec_volume malloc_ok rec ds =
     (case find (\<lambda>d. ble_key d = addr (peer_addr rec)) ds of
        None \<Rightarrow> 0
      | Some d \<Rightarrow> if malloc_ok then volume d else volume (hd ds))"

definition blerec_info ::
    "bool \<Rightarrow> BleDevicePairingInfo \<Rightarrow> NV_RECORD_PAIRED_BLE_DEV_INFO_T \<Rightarrow> NV_RECORD_PAIRED_BLE_DEV_INFO_T" where
  "blerec_info malloc_ok rec info =
     (case first_index (\<lambda>d. ble_key d = addr (peer_addr rec)) (ble_used info) of
        Some i \<Rightarrow> if rec = pairingInfo (ble_nv info ! i) then info
          else blerec_fill rec (ble_move_slot malloc_ok i (ble_clear_pairing i info))
      | None \<Rightarrow> blerec_fill rec (ble_open_slot info))"

lemma fill_opened:
  assumes "n < length a"
  shows "take (Suc n) (((shift_up n n a)[0 := x])[0 := y]) = y # take n a"
    and "drop (Suc n) (((shift_up n n a)[0 := x])[0 := y]) = drop (Suc n) a"
  using assms shift_up_open [OF assms, of y] by simp_all

lemma ble_fill_new:
  assumes ok: "ble_info_ok info"
  shows "ble_used (blerec_fill rec (ble_open_slot info)) =
      \<lparr>pairingInfo = rec, volume = 0\<rparr> # take (BLE_RECORD_NUM - 1) (ble_used info)"
    and "ble_info_ok (blerec_fill rec (ble_open_slot info)) \<longleftrightarrow>
      distinct (map ble_key (ble_used (blerec_fill rec (ble_open_slot info))))"
proof -
  let ?a = "ble_nv info" and ?n = "saved_list_num info"
  let ?m = "if ?n = 5 then 4 else ?n" and ?r = "blerec_fill rec (ble_open_slot info)"
  have ok': "length ?a = 5" "?n \<le> 5" "drop ?n ?a = replicate (5 - ?n) zero_ble_device"
    "length (gatt_cache info) = BLE_GATT_CACHE_NUM"
    using ok by (auto simp: ble_info_ok_def BLE_RECORD_NUM_def)
  have m: "?m < length ?a" using ok' by auto
  have z: "?a ! 0 = zero_ble_device" if "?n = 0"
    using ok' that by (cases ?a) auto
  have 0: "ble_nv ?r ! 0 = \<lparr>pairingInfo = rec, volume = 0\<rparr>"
    using ok' z by (auto simp: blerec_fill_def ble_open_slot_def ble_upd_entry_def BLE_RECORD_NUM_def zero_ble_device_def)
  have nv: "ble_nv ?r = ((shift_up ?m ?m ?a)[0 := zero_ble_device])[0 := \<lparr>pairingInfo = rec, volume = 0\<rparr>]"
    using ok' z by (auto simp: blerec_fill_def ble_open_slot_def ble_upd_entry_def BLE_RECORD_NUM_def zero_ble_device_def)
  have num: "saved_list_num ?r = Suc ?m"
    using ok' by (auto simp: blerec_fill_def ble_open_slot_def ble_upd_entry_def BLE_RECORD_NUM_def)
  show used: "ble_used ?r = \<lparr>pairingInfo = rec, volume = 0\<rparr> # take (BLE_RECORD_NUM - 1) (ble_used info)"
  proof -
    have "?m = min 4 ?n" using ok' by auto
    then have "take ?m ?a = take 4 (take ?n ?a)" by simp
    then show ?thesis using fill_opened(1) [OF m] by (simp add: ble_used_def nv num BLE_RECORD_NUM_def)
  qed
  have "drop (Suc ?m) ?a = replicate (4 - ?m) zero_ble_device"
  proof (cases "?n = 5")
    case False
    have "drop (Suc ?n) ?a = drop 1 (drop ?n ?a)" by simp
    then show ?thesis using False ok' by simp
  qed (use ok' in simp)
  then have "drop (saved_list_num ?r) (ble_nv ?r) = replicate (5 - saved_list_num ?r) zero_ble_device"
    using fill_opened(2) [OF m] by (simp add: nv num)
  moreover have "length (ble_nv ?r) = 5" "saved_list_num ?r \<le> 5" "length (gatt_cache ?r) = BLE_GATT_CACHE_NUM"
    using ok' by (auto simp: nv num, auto simp: blerec_fill_def ble_open_slot_def ble_upd_entry_def)
  ultimately show "ble_info_ok ?r \<longleftrightarrow> distinct (map ble_key (ble_used ?r))"
    by (simp add: ble_info_ok_def BLE_RECORD_NUM_def)
qed

lemma ble_fill_moved:
  assumes ok: "ble_info_ok info" and i: "i < length (ble_used info)"
  shows "ble_used (blerec_fill rec (ble_move_slot malloc_ok i (ble_clear_pairing i info))) =
      \<lparr>pairingInfo = rec, volume = if malloc_ok then volume (ble_used info ! i) else volume (hd (ble_used info))\<rparr> #
        drop_nth i (ble_used info)"
    and "ble_info_ok (blerec_fill rec (ble_move_slot malloc_ok i (ble_clear_pairing i info))) \<longleftrightarrow>
      distinct (map ble_key (ble_used (blerec_fill rec (ble_move_slot malloc_ok i (ble_clear_pairing i info)))))"
proof -
  let ?a = "ble_nv info" and ?n = "saved_list_num info"
  let ?a' = "?a[i := (?a ! i)\<lparr>pairingInfo := zero_pairing_info\<rparr>]"
  let ?r = "blerec_fill rec (ble_move_slot malloc_ok i (ble_clear_pairing i info))"
  let ?x = "\<lparr>pairingInfo = rec, volume = if malloc_ok then volume (ble_used info ! i) else volume (hd (ble_used info))\<rparr>"
  have ok': "length ?a = 5" "?n \<le> 5" "drop ?n ?a = replicate (5 - ?n) zero_ble_device"
    "length (gatt_cache info) = BLE_GATT_CACHE_NUM" "i < ?n"
    using ok i by (auto simp: ble_info_ok_def BLE_RECORD_NUM_def ble_used_def)
  have hd: "hd (ble_used info) = ?a ! 0" using ok' by (cases ?a) (auto simp: ble_used_def)
  have "shift_up i i ?a' ! 0 = ?a' ! 0" using ok' by (simp add: nth_shift_up)
  then have x: "(if malloc_ok then ?a' ! i else shift_up i i ?a' ! 0)\<lparr>pairingInfo := rec\<rparr> = ?x"
    using ok' hd ble_used_nth [OF i] by (cases "i = 0") auto
  have nv: "ble_nv ?r = (shift_up i i ?a')[0 := ?x]"
    using ok' x by (auto simp: blerec_fill_def ble_move_slot_def ble_clear_pairing_def ble_upd_entry_def Let_def)
  have num: "saved_list_num ?r = ?n"
    using ok' by (simp add: blerec_fill_def ble_move_slot_def ble_clear_pairing_def ble_upd_entry_def Let_def)
  have u: "take ?n ?a' = (ble_used info)[i := (?a ! i)\<lparr>pairingInfo := zero_pairing_info\<rparr>]"
    by (simp add: ble_used_def take_update_swap)
  show "ble_used ?r = ?x # drop_nth i (ble_used info)"
    using table_move [of i ?n ?a' ?x] ok' by (simp add: ble_used_def [of ?r] nv num u drop_nth_update)
  have "drop ?n ((shift_up i i ?a')[0 := ?x]) = drop ?n ?a"
  proof -
    obtain k where k: "?n = Suc k" "i \<le> k" using ok' by (cases ?n) auto
    have "i < length ?a'" using ok' by simp
    from shift_up_open [OF this, of ?x] show ?thesis using k ok' by (simp add: min_def)
  qed
  moreover have "length (gatt_cache ?r) = BLE_GATT_CACHE_NUM"
    using ok' by (simp add: blerec_fill_def ble_move_slot_def ble_clear_pairing_def ble_upd_entry_def Let_def)
  ultimately show "ble_info_ok ?r \<longleftrightarrow> distinct (map ble_key (ble_used ?r))"
    using ok' by (simp add: ble_info_ok_def nv num BLE_RECORD_NUM_def)
qed

lemma ble_remove_at_used:
  assumes ok: "ble_info_ok info" and i: "i < length (ble_used info)"
  shows "ble_used (ble_remove_at i info) = drop_nth i (ble_used info)"
    and "ble_info_ok (ble_remove_at i info)"
proof -
  let ?a = "ble_nv info" and ?n = "saved_list_num info"
  have ok': "length ?a = 5" "?n \<le> 5" "drop ?n ?a = replicate (5 - ?n) zero_ble_device"
    "length (gatt_cache info) = BLE_GATT_CACHE_NUM" "i < ?n" "distinct (map ble_key (ble_used info))"
    using ok i by (auto simp: ble_info_ok_def BLE_RECORD_NUM_def ble_used_def)
  then obtain k where k: "?n = Suc k" "i \<le> k" by (cases ?n) auto
  have cl: "take k (shift_down i (k - i) ?a) = drop_nth i (ble_used info)"
    using table_close [of i ?n ?a] ok' k by (simp add: ble_used_def)
  show used: "ble_used (ble_remove_at i info) = drop_nth i (ble_used info)"
    using cl k unfolding ble_used_def [of "ble_remove_at i info"] by (simp add: ble_remove_at_def)
  have "drop k ((shift_down i (k - i) ?a)[k := zero_ble_device]) = zero_ble_device # drop ?n ?a"
    using ok' k by (simp add: drop_update_swap shift_down_close min_def Cons_nth_drop_Suc [symmetric])
  then have "drop k ((shift_down i (k - i) ?a)[k := zero_ble_device]) = replicate (5 - k) zero_ble_device"
    using ok' k by (simp add: Suc_diff_le flip: replicate_Suc)
  moreover have "distinct (map ble_key (drop_nth i (ble_used info)))"
    using drop_nth_filter [OF i ok'(6)] ok'(6) by (simp add: distinct_map_filter)
  ultimately show "ble_info_ok (ble_remove_at i info)"
    using ok' k used by (simp add: ble_info_ok_def ble_remove_at_def BLE_RECORD_NUM_def)
qed

lemma distinct_key_unique:
  "distinct (map f xs) \<Longrightarrow> x \<in> set xs \<Longrightarrow> y \<in> set xs \<Longrightarrow> f x = f y \<Longrightarrow> x = y"
  by (metis distinct_map inj_onD)

lemma blerec_known:
  assumes "ble_info_ok info" and "rec \<in> pairingInfo ` set (ble_used info)"
  shows "\<exists>i. first_index (\<lambda>d. ble_key d = addr (peer_addr rec)) (ble_used info) = Some i \<and>
    rec = pairingInfo (ble_nv info ! i)"
proof -
  obtain d where d: "d \<in> set (ble_used info)" "rec = pairingInfo d" using assms(2) by blast
  then obtain i where i: "first_index (\<lambda>d. ble_key d = addr (peer_addr rec)) (ble_used info) = Some i"
    by (cases "first_index (\<lambda>d. ble_key d = addr (peer_addr rec)) (ble_used info)")
      (auto simp: first_index_None)
  from first_index_Some [OF this] have "i < length (ble_used info)"
    "ble_key (ble_used info ! i) = ble_key d" using d by auto
  then have "ble_used info ! i = d"
    using assms(1) d(1) distinct_key_unique [of ble_key "ble_used info"] by (auto simp: ble_info_ok_def)
  then show ?thesis using i d \<open>i < length (ble_used info)\<close> ble_used_nth [of i info] by auto
qed

lemma blerec_info_used:
  assumes ok: "ble_info_ok info"
  shows "rec \<in> pairingInfo ` set (ble_used info) \<Longrightarrow> blerec_info malloc_ok rec info = info"
    and "rec \<notin> pairingInfo ` set (ble_used info) \<Longrightarrow>
      ble_used (blerec_info malloc_ok rec info) =
      \<lparr>pairingInfo = rec, volume = blerec_volume malloc_ok rec (ble_used info)\<rparr> #
        take (BLE_RECORD_NUM - 1) (filter (\<lambda>d. ble_key d \<noteq> addr (peer_addr rec)) (ble_used info))"
    and "ble_info_ok (blerec_info malloc_ok rec info)"
proof -
  let ?k = "addr (peer_addr rec)" and ?u = "ble_used info"
  let ?R = "\<lparr>pairingInfo = rec, volume = blerec_volume malloc_ok rec ?u\<rparr> #
    take (BLE_RECORD_NUM - 1) (filter (\<lambda>d. ble_key d \<noteq> ?k) ?u)"
  have d: "distinct (map ble_key ?u)" using ok by (simp add: ble_info_ok_def)
  then have dR: "distinct (map ble_key ?R)"
    by (auto simp: distinct_map_take distinct_map_filter dest: in_set_takeD)
  show same: "blerec_info malloc_ok rec info = info" if "rec \<in> pairingInfo ` set ?u"
    using blerec_known [OF ok that] by (auto simp: blerec_info_def)
  have "ble_used (blerec_info malloc_ok rec info) = ?R \<and> ble_info_ok (blerec_info malloc_ok rec info)"
    if new: "rec \<notin> pairingInfo ` set ?u"
  proof (cases "first_index (\<lambda>d. ble_key d = ?k) ?u")
    case None
    then have "find (\<lambda>d. ble_key d = ?k) ?u = None" "filter (\<lambda>d. ble_key d \<noteq> ?k) ?u = ?u"
      by (simp_all add: find_first_index first_index_None)
    then have "?R = \<lparr>pairingInfo = rec, volume = 0\<rparr> # take (BLE_RECORD_NUM - 1) ?u"
      by (simp add: blerec_volume_def)
    then show ?thesis using None ble_fill_new [OF ok] dR by (simp add: blerec_info_def)
  next
    case (Some i)
    note i = first_index_Some [OF Some]
    have v: "blerec_volume malloc_ok rec ?u = (if malloc_ok then volume (?u ! i) else volume (hd ?u))"
      using Some by (simp add: blerec_volume_def find_first_index)
    have "length (drop_nth i ?u) \<le> BLE_RECORD_NUM - 1"
      using i ok by (simp add: length_drop_nth length_ble_used ble_info_ok_def diff_le_mono)
    then have "?R = \<lparr>pairingInfo = rec, volume = if malloc_ok then volume (?u ! i) else volume (hd ?u)\<rparr> #
        drop_nth i ?u"
      using drop_nth_filter [of i ?u ble_key] i d v by simp
    moreover have "rec \<noteq> pairingInfo (ble_nv info ! i)"
      using new i ble_used_nth [of i info] by (metis image_eqI nth_mem)
    ultimately show ?thesis
      using Some ble_fill_moved [OF ok, of i rec malloc_ok] i dR by (simp add: blerec_info_def)
  qed
  then show "rec \<notin> pairingInfo ` set ?u \<Longrightarrow> ble_used (blerec_info malloc_ok rec info) = ?R"
    and "ble_info_ok (blerec_info malloc_ok rec info)"
    using same ok by (blast, metis)
qed

section \<open>Adding and deleting on the mirror\<close>

text \<open>What \<open>nv_record_blerec_add\<close> does before its flush.\<close>

definition blerec_add_edit :: "bool \<Rightarrow> BleDevicePairingInfo \<Rightarrow> 'f nv_state \<Rightarrow> 'f nv_state" where
  "blerec_add_edit malloc_ok rec s =
     (let (u, s) = blerec_specific_value_prepare malloc_ok rec s in
      if u = NV_BLE_DONT_UPDATE then s
      else nv_record_update_runtime_userdata (ble_store (blerec_fill rec) s))"

lemma blerec_add_split:
  assumes "ble_info_ok (ble_info s)"
  shows "nv_record_blerec_add env malloc_ok now rec s =
    (if nvrecord_ble_p s then Ret
       (if rec \<in> pairingInfo ` set (ble_view s) then NvDone (0, s)
        else nv_bind (nv_record_execute_async_flush env now (blerec_add_edit malloc_ok rec s)) (\<lambda>s. NvDone (0, s)))
     else NullDeref)"
    and "rec \<in> pairingInfo ` set (ble_view s) \<Longrightarrow> blerec_add_edit malloc_ok rec s = s"
proof -
  let ?p = "blerec_specific_value_prepare malloc_ok rec s"
  have "fst ?p = NV_BLE_DONT_UPDATE \<and> snd ?p = s" if "rec \<in> pairingInfo ` set (ble_view s)"
  proof -
    have "0 < saved_list_num (ble_info s)"
      using that assms length_ble_used [OF assms] by (cases "saved_list_num (ble_info s)") (auto simp: ble_view_def)
    then show ?thesis
      using blerec_known [OF assms that [unfolded ble_view_def]]
      by (auto simp: blerec_specific_value_prepare_def ble_index_def)
  qed
  moreover have "fst ?p \<noteq> NV_BLE_DONT_UPDATE" if "rec \<notin> pairingInfo ` set (ble_view s)"
  proof -
    have "rec \<noteq> pairingInfo (ble_nv (ble_info s) ! i)"
      if "first_index (\<lambda>d. ble_key d = addr (peer_addr rec)) (ble_used (ble_info s)) = Some i" for i
      using first_index_Some [OF that] ble_used_nth [of i "ble_info s"] \<open>rec \<notin> _\<close>
      by (metis ble_view_def image_eqI nth_mem)
    then show ?thesis
      by (auto simp: blerec_specific_value_prepare_def ble_index_def Let_def split: option.split)
  qed
  ultimately show "nv_record_blerec_add env malloc_ok now rec s =
    (if nvrecord_ble_p s then Ret
       (if rec \<in> pairingInfo ` set (ble_view s) then NvDone (0, s)
        else nv_bind (nv_record_execute_async_flush env now (blerec_add_edit malloc_ok rec s)) (\<lambda>s. NvDone (0, s)))
     else NullDeref)"
    and "rec \<in> pairingInfo ` set (ble_view s) \<Longrightarrow> blerec_add_edit malloc_ok rec s = s"
    by (auto simp: nv_record_blerec_add_def blerec_add_edit_def ble_commit_def case_prod_beta)
qed

lemma ble_store_simps [simp]:
  "nv_body (ble_store f s) = upd_ble f (nv_body s)" "nv_mpu_fault (ble_store f s) = nv_mpu_fault s"
  "nvrecord_ble_p (ble_store f s) = nvrecord_ble_p s"
  "nvrecord_extension_p (ble_store f s) = nvrecord_extension_p s" "\<not> nv_mpu_rw (ble_store f s)"
  "nv_core (ble_store f s) = nv_core s" "nv_flush_state (ble_store f s) = nv_flush_state s"
  "nv_hook_active (ble_store f s) = nv_hook_active s"
  by (simp_all add: ble_store_def) (simp_all add: nv_ops nv_core_upd)

lemma payload_ble_eq [simp]: "b\<lparr>ble_pair_info := ble_pair_info b\<rparr> = b"
  by (cases b) simp

lemma blerec_add_edit_body:
  assumes "ble_info_ok (ble_info s)"
  shows "nv_body (blerec_add_edit malloc_ok rec s) = upd_ble (blerec_info malloc_ok rec) (nv_body s)"
proof (cases "saved_list_num (ble_info s) = 0")
  case True
  then show ?thesis
    by (simp add: blerec_add_edit_def blerec_specific_value_prepare_def blerec_info_def ble_used_def
        ble_open_slot_def nv_ops BLE_RECORD_NUM_def)
next
  case False
  then show ?thesis
    by (auto simp: blerec_add_edit_def blerec_specific_value_prepare_def blerec_info_def ble_index_def
        nv_ops Let_def split: option.split)
qed

lemma blerec_add_edit_frame:
  "nv_mpu_fault (blerec_add_edit malloc_ok rec s) = nv_mpu_fault s"
  "nvrecord_ble_p (blerec_add_edit malloc_ok rec s) = nvrecord_ble_p s"
  "nvrecord_extension_p (blerec_add_edit malloc_ok rec s) = nvrecord_extension_p s"
  "nv_mpu_rw (blerec_add_edit malloc_ok rec s) \<Longrightarrow> nv_mpu_rw s"
  by (auto simp: blerec_add_edit_def blerec_specific_value_prepare_def nv_ops Let_def
      split: option.splits if_splits)

lemma blerec_add_edit_view:
  assumes "ble_invar s"
  shows "ble_invar (blerec_add_edit malloc_ok rec s)"
    and "rec \<notin> pairingInfo ` set (ble_view s) \<Longrightarrow> ble_view (blerec_add_edit malloc_ok rec s) =
      \<lparr>pairingInfo = rec, volume = blerec_volume malloc_ok rec (ble_view s)\<rparr> #
        take (BLE_RECORD_NUM - 1) (filter (\<lambda>d. ble_key d \<noteq> addr (peer_addr rec)) (ble_view s))"
proof -
  have ok: "ble_info_ok (ble_info s)" using assms by (simp add: ble_invar_def)
  show "ble_invar (blerec_add_edit malloc_ok rec s)"
    using assms blerec_info_used(3) [OF ok]
    by (simp add: ble_invar_def blerec_add_edit_frame blerec_add_edit_body [OF ok])
  show "rec \<notin> pairingInfo ` set (ble_view s) \<Longrightarrow> ble_view (blerec_add_edit malloc_ok rec s) =
      \<lparr>pairingInfo = rec, volume = blerec_volume malloc_ok rec (ble_view s)\<rparr> #
        take (BLE_RECORD_NUM - 1) (filter (\<lambda>d. ble_key d \<noteq> addr (peer_addr rec)) (ble_view s))"
    using blerec_info_used(2) [OF ok, of rec malloc_ok]
    by (simp add: ble_view_def blerec_add_edit_body [OF ok])
qed

text \<open>\<open>nv_record_ble_delete_entry\<close> returns; its result as a state.\<close>

definition ble_deleted :: "bytes \<Rightarrow> 'f nv_state \<Rightarrow> 'f nv_state" where
  "ble_deleted a s = (case nv_record_ble_delete_entry a s of Ret s' \<Rightarrow> s' | NullDeref \<Rightarrow> s)"

lemma ble_delete_returns: "nv_record_ble_delete_entry a s = Ret (ble_deleted a s)"
  by (simp add: ble_deleted_def nv_record_ble_delete_entry_def nv_record_ble_delete_entry_by_index_def
      Let_def split: option.split)

lemma ble_deleted_view:
  assumes "ble_invar s"
  shows "ble_view (ble_deleted a s) = filter (\<lambda>d. ble_key d \<noteq> a) (ble_view s)"
    and "ble_invar (ble_deleted a s)"
proof -
  let ?u = "ble_used (ble_info s)"
  have ok: "ble_info_ok (ble_info s)" and p: "nvrecord_ble_p s" "nvrecord_extension_p s" "\<not> nv_mpu_fault s"
    using assms by (auto simp: ble_invar_def)
  have d: "distinct (map ble_key ?u)" using ok by (simp add: ble_info_ok_def)
  have "ble_view (ble_deleted a s) = filter (\<lambda>d. ble_key d \<noteq> a) (ble_view s) \<and> ble_invar (ble_deleted a s)"
  proof (cases "ble_index a s")
    case None
    then have "ble_deleted a s = s" by (simp add: ble_deleted_def nv_record_ble_delete_entry_def)
    moreover have "filter (\<lambda>d. ble_key d \<noteq> a) ?u = ?u"
      using None by (simp add: ble_index_def first_index_None)
    ultimately show ?thesis using assms by (simp add: ble_view_def)
  next
    case (Some i)
    then have i: "i < length ?u" "ble_key (?u ! i) = a"
      using first_index_Some by (fastforce simp: ble_index_def)+
    then have n: "i < saved_list_num (ble_info s)" using ok by (simp add: length_ble_used)
    then have "nv_body (ble_deleted a s) = upd_ble (ble_remove_at i) (nv_body s)"
      "nvrecord_ble_p (ble_deleted a s)" "nvrecord_extension_p (ble_deleted a s)" "\<not> nv_mpu_fault (ble_deleted a s)"
      using Some p by (simp_all add: ble_deleted_def nv_record_ble_delete_entry_def
          nv_record_ble_delete_entry_by_index_def nv_ops Let_def)
    then show ?thesis
      using ble_remove_at_used [OF ok i(1)] drop_nth_filter [OF i(1) d] i by (simp add: ble_view_def ble_invar_def)
  qed
  then show "ble_view (ble_deleted a s) = filter (\<lambda>d. ble_key d \<noteq> a) (ble_view s)"
    and "ble_invar (ble_deleted a s)" by auto
qed

interpretation ble: keyed_table ble_key "\<lambda>rec. addr (peer_addr rec)" BLE_RECORD_NUM ble_view ble_invar
  "blerec_add_edit malloc_ok" ble_deleted "\<lambda>rec s. rec \<notin> pairingInfo ` set (ble_view s)"
proof
  fix s :: "'a nv_state" and rec :: BleDevicePairingInfo and a
  show "0 < BLE_RECORD_NUM" by (simp add: BLE_RECORD_NUM_def)
  assume inv: "ble_invar s"
  then have ok: "ble_info_ok (ble_info s)" by (simp add: ble_invar_def)
  then show "distinct (map ble_key (ble_view s))" "length (ble_view s) \<le> BLE_RECORD_NUM"
    by (auto simp: ble_view_def length_ble_used, auto simp: ble_info_ok_def)
  show "ble_invar (blerec_add_edit malloc_ok rec s)" by (rule blerec_add_edit_view [OF inv])
  show "ble_invar (ble_deleted a s)" "ble_view (ble_deleted a s) = filter (\<lambda>d. ble_key d \<noteq> a) (ble_view s)"
    by (rule ble_deleted_view [OF inv])+
  show "ble_view (blerec_add_edit malloc_ok rec s) = ble_view s \<and> addr (peer_addr rec) \<in> ble_key ` set (ble_view s)"
    if "\<not> rec \<notin> pairingInfo ` set (ble_view s)"
    using that blerec_add_split(2) [OF ok] by force
  show "map ble_key (ble_view (blerec_add_edit malloc_ok rec s)) =
      mru_touch BLE_RECORD_NUM (addr (peer_addr rec)) (map ble_key (ble_view s))"
    if "rec \<notin> pairingInfo ` set (ble_view s)"
    using blerec_add_edit_view(2) [OF inv that] by (simp add: mru_touch_def filter_map o_def take_map)
qed

end
