(* ===== verification/NvBleSafety.thy ===== *)
theory NvBleSafety
  imports NvBle
begin

text \<open>
  The table of bonded BLE devices over time: the frame of a flush, the step relation of all
  functions of \<open>nvrecord_ble.c\<close> that change state, its invariant, and the properties of the
  single operations.
\<close>

section \<open>A flush leaves the record alone\<close>

definition flush_keeps :: "'f nv_state \<Rightarrow> 'f nv_state \<Rightarrow> bool" where
  "flush_keeps s s' \<longleftrightarrow>
     nv_body s' = nv_body s \<and> nvrecord_extension_p s' = nvrecord_extension_p s \<and>
     nvrecord_ble_p s' = nvrecord_ble_p s \<and> nv_mpu_fault s' = nv_mpu_fault s \<and>
     (nv_mpu_rw s' \<longrightarrow> nv_mpu_rw s) \<and> nvrec_init s' = nvrec_init s"

lemma flush_keeps_refl [simp]: "flush_keeps s s"
  by (simp add: flush_keeps_def)

lemma flush_keeps_trans: "flush_keeps s t \<Longrightarrow> flush_keeps t u \<Longrightarrow> flush_keeps s u"
  by (auto simp: flush_keeps_def)

lemma nv_bind_done: "nv_bind m k = NvDone y \<longleftrightarrow> (\<exists>x. m = NvDone x \<and> k x = NvDone y)"
  by (cases m) auto

lemma flush_keeps_flash [simp]:
  "flush_keeps s (s\<lparr>nv_flash := f\<rparr>)" "flush_keeps s (set_fl st s)"
  "flush_keeps s (set_fl st (s\<lparr>nv_flash := f\<rparr>))"
  "flush_keeps (set_fl st s) t = flush_keeps s t" "flush_keeps s (set_fl st t) = flush_keeps s t"
  "flush_keeps (s\<lparr>nv_burn_buf := b\<rparr>) t = flush_keeps s t" "flush_keeps s (t\<lparr>nv_burn_buf := b\<rparr>) = flush_keeps s t"
  "flush_keeps s (nv_record_reset_flush_checkpoint now t) = flush_keeps s t"
  by (simp_all add: flush_keeps_def set_fl_def nv_record_reset_flush_checkpoint_def)

lemma request_async_keeps: "request_async env nxt r s = NvDone (x, s') \<Longrightarrow> flush_keeps s s'"
  by (auto simp: request_async_def Let_def split: if_splits)

lemma await_async_keeps: "await_async env nxt s = NvDone (x, s') \<Longrightarrow> flush_keeps s s'"
  by (auto simp: await_async_def split: if_splits)

lemma prepare_keeps: "flush_main_prepare env s = NvDone s' \<Longrightarrow> flush_keeps s s'"
  by (auto simp: flush_main_prepare_def Let_def nv_ops flush_keeps_def set_fl_def split: if_splits)

lemma bak_read_keeps: "flush_bak_read env s = NvDone s' \<Longrightarrow> flush_keeps s s'"
  by (auto simp: flush_bak_read_def Let_def split: if_splits prod.splits)

lemma bak_finish_keeps: "bak_finish r = NvDone (x, s') \<Longrightarrow> flush_keeps (snd r) s'"
  by (auto simp: bak_finish_def split: if_splits)

lemma flush_main_async_keeps: "flush_main_async env s = NvDone (x, s') \<Longrightarrow> flush_keeps s s'"
  by (auto simp: flush_main_async_def Let_def nv_bind_done split: if_splits
      dest!: request_async_keeps await_async_keeps prepare_keeps)

lemma flush_bak_async_keeps: "flush_bak_async env s = NvDone (x, s') \<Longrightarrow> flush_keeps s s'"
  by (auto simp: flush_bak_async_def Let_def nv_bind_done split: if_splits
      dest!: request_async_keeps await_async_keeps bak_read_keeps bak_finish_keeps
      intro: flush_keeps_trans)

lemma async_flush_keeps: "extension_flush_async env s = NvDone (x, s') \<Longrightarrow> flush_keeps s s'"
  by (auto simp: extension_flush_async_def split: if_splits
      dest: flush_main_async_keeps flush_bak_async_keeps)

lemma execute_async_flush_keeps: "nv_record_execute_async_flush env now s = NvDone s' \<Longrightarrow> flush_keeps s s'"
  by (auto simp: nv_record_execute_async_flush_def nv_record_extension_flush_def nv_bind_done
      dest!: async_flush_keeps split: if_splits)

lemma request_phase_keeps: "request_phase n req free env nxt s = NvDone s' \<Longrightarrow> flush_keeps s s'"
  by (auto simp: request_phase_def nv_bind_done)

lemma await_phase_keeps: "await_phase n env nxt s = NvDone s' \<Longrightarrow> flush_keeps s s'"
  by (auto simp: await_phase_def nv_bind_done)

lemma main_sync_write_keeps: "main_sync_write n env s = NvDone (x, s') \<Longrightarrow> flush_keeps s s'"
  by (auto simp: main_sync_write_def nv_bind_done split: if_splits
      dest!: request_phase_keeps await_phase_keeps intro: flush_keeps_trans)

lemma main_sync_prepare_keeps: "main_sync_prepare n env s = NvDone (x, s') \<Longrightarrow> flush_keeps s s'"
  by (auto simp: main_sync_prepare_def nv_bind_done split: if_splits
      dest!: prepare_keeps main_sync_write_keeps intro: flush_keeps_trans)

lemma flush_main_sync_keeps: "flush_main_sync n env s = NvDone (x, s') \<Longrightarrow> flush_keeps s s'"
  by (auto simp: flush_main_sync_def Let_def nv_bind_done split: if_splits
      dest!: request_phase_keeps main_sync_prepare_keeps intro: flush_keeps_trans)

lemma bak_sync_write_keeps: "bak_sync_write n env s = NvDone (x, s') \<Longrightarrow> flush_keeps s s'"
  by (auto simp: bak_sync_write_def nv_bind_done split: if_splits
      dest!: request_phase_keeps await_phase_keeps bak_finish_keeps intro: flush_keeps_trans)

lemma bak_sync_read_keeps: "bak_sync_read n env s = NvDone (x, s') \<Longrightarrow> flush_keeps s s'"
  by (auto simp: bak_sync_read_def nv_bind_done split: if_splits
      dest!: bak_read_keeps bak_sync_write_keeps intro: flush_keeps_trans)

lemma flush_bak_sync_keeps: "flush_bak_sync n env s = NvDone (x, s') \<Longrightarrow> flush_keeps s s'"
  by (auto simp: flush_bak_sync_def Let_def nv_bind_done split: if_splits
      dest!: request_phase_keeps bak_sync_read_keeps intro: flush_keeps_trans)

lemma sync_flush_keeps: "extension_flush_sync n env ret s = NvDone (x, s') \<Longrightarrow> flush_keeps s s'"
proof (induction n arbitrary: ret s)
  case (Suc n)
  show ?case
  proof (cases "fl s = NV_STATE_IDLE \<and> \<not> is_update (nv_flush_state s)")
    case True
    then show ?thesis using Suc.prems by simp
  next
    case False
    then obtain r1 s1 r2 s2 where
      m: "(if main_phase (nv_flush_state s) then flush_main_sync n env s else NvDone (ret, s)) = NvDone (r1, s1)"
      and b: "(if bak_phase (nv_flush_state s1) then flush_bak_sync n env s1 else NvDone (r1, s1)) = NvDone (r2, s2)"
      and rest: "extension_flush_sync n env r2 s2 = NvDone (x, s')"
      using Suc.prems by (auto simp: nv_bind_done)
    have "flush_keeps s s1" using m flush_main_sync_keeps by (auto split: if_splits)
    moreover have "flush_keeps s1 s2" using b flush_bak_sync_keeps by (auto split: if_splits)
    ultimately show ?thesis using Suc.IH [OF rest] by (blast intro: flush_keeps_trans)
  qed
qed simp

lemma flash_flush_keeps: "nv_record_flash_flush n env now s = NvDone s' \<Longrightarrow> flush_keeps s s'"
  by (auto simp: nv_record_flash_flush_def nv_record_extension_flush_def nv_bind_done dest!: sync_flush_keeps)

lemma flush_keeps_ble: "flush_keeps s s' \<Longrightarrow> ble_invar s \<Longrightarrow> ble_invar s' \<and> ble_view s' = ble_view s"
  by (simp add: flush_keeps_def ble_invar_def ble_view_def)

section \<open>The operations as steps\<close>

text \<open>
  A step is one call that returns, with any arguments; addresses are six bytes long. The
  environment is that of the flush that most calls end with.
\<close>

inductive ble_step :: "'f nv_env \<Rightarrow> 'f nv_state \<Rightarrow> 'f nv_state \<Rightarrow> bool" for env where
  add: "nv_record_blerec_add env malloc_ok now rec s = Ret (NvDone (r, s')) \<Longrightarrow> ble_step env s s'"
| unaware: "nv_record_blerec_set_change_unaware env now s = Ret (NvDone s') \<Longrightarrow> ble_step env s s'"
| hash: "nv_record_blerec_update_database_hash env now h s = Ret (NvDone s') \<Longrightarrow> ble_step env s s'"
| resolv: "nv_record_ble_write_addr_resolv_supp_via_bdaddr env now a b s = NvDone (r, s') \<Longrightarrow> ble_step env s s'"
| volume: "nv_record_ble_write_volume_via_bdaddr a v s = (r, s') \<Longrightarrow> ble_step env s s'"
| del_index: "nv_record_ble_delete_entry_by_index i s = Ret s' \<Longrightarrow> ble_step env s s'"
| del: "nv_record_ble_delete_entry a s = Ret s' \<Longrightarrow> ble_step env s s'"
| del_all: "nv_record_ble_delete_all_entry s = Ret s' \<Longrightarrow> ble_step env s s'"
| gatt_add: "nv_record_ble_gatt_cache_add env now pa q c s = NvDone (r, s') \<Longrightarrow> ble_step env s s'"
| gatt_del: "nv_record_ble_gatt_cache_del env now pa s = NvDone (r, s') \<Longrightarrow> ble_step env s s'"
| server_add: "nv_record_ble_server_cache_add env now pa sc s = NvDone (r, s') \<Longrightarrow> ble_step env s s'"
| server_del: "nv_record_ble_server_cache_del env now pa s = NvDone (r, s') \<Longrightarrow> ble_step env s s'"
| tws_update: "nv_record_extension_update_tws_ble_info n env now info s = Ret (NvDone s') \<Longrightarrow> ble_step env s s'"
| tws_exchange: "nv_record_tws_exchange_ble_info s = Ret s' \<Longrightarrow> ble_step env s s'"

text \<open>
  What an edit of the BLE section may change: the BLE section and the identity of the other
  earbud, with a request for a flush when it changes anything.
\<close>

definition ble_frame :: "'f nv_state \<Rightarrow> 'f nv_state \<Rightarrow> bool" where
  "ble_frame s s' \<longleftrightarrow>
     bt_tracked s s' \<and> nvrecord_extension_p s' = nvrecord_extension_p s \<and>
     nvrecord_ble_p s' = nvrecord_ble_p s \<and>
     nv_mpu_fault s' = nv_mpu_fault s \<and> (nv_mpu_rw s' \<longrightarrow> nv_mpu_rw s) \<and>
     bt_pair_info (nv_body s') = bt_pair_info (nv_body s) \<and>
     bt_pair_info_cache (nv_body s') = bt_pair_info_cache (nv_body s) \<and>
     system_info (nv_body s') = system_info (nv_body s) \<and> app_mode (nv_body s') = app_mode (nv_body s) \<and>
     nv_rest (nv_body s') = nv_rest (nv_body s) \<and> adda_test (nv_body s') = adda_test (nv_body s) \<and>
     sdk_rest (nv_body s') = sdk_rest (nv_body s) \<and>
     (ble_info_ok (ble_info s) \<longrightarrow> ble_info_ok (ble_info s'))"

lemma ble_frame_refl [simp]: "ble_frame s s"
  by (simp add: ble_frame_def)

text \<open>Two contents that differ in the BLE section and the other earbud's identity at most.\<close>

definition same_but_ble :: "nv_payload \<Rightarrow> nv_payload \<Rightarrow> bool" where
  "same_but_ble b c \<longleftrightarrow>
     system_info b = system_info c \<and> bt_pair_info b = bt_pair_info c \<and> bt_pair_info_cache b = bt_pair_info_cache c \<and>
     app_mode b = app_mode c \<and> nv_rest b = nv_rest c \<and> adda_test b = adda_test c \<and> sdk_rest b = sdk_rest c"

lemma same_but_ble_eq:
  "same_but_ble b c \<Longrightarrow> b = c\<lparr>ble_pair_info := ble_pair_info b, tws_ble_info := tws_ble_info b\<rparr>"
  unfolding same_but_ble_def by (rule nv_payload.equality) simp_all

lemma ble_frame_same: "ble_frame s s' \<Longrightarrow> same_but_ble (nv_body s') (nv_body s)"
  by (simp add: ble_frame_def same_but_ble_def)

lemma ble_frame_store:
  assumes "ble_info_ok (ble_info s) \<Longrightarrow> ble_info_ok (f (ble_info s))"
  shows "ble_frame s (nv_record_update_runtime_userdata (ble_store f s))"
  using assms by (simp add: ble_frame_def bt_tracked_def) (simp add: nv_ops nv_core_upd)

subsection \<open>The edits keep the table well formed\<close>

lemma ble_upd_entry_shape [simp]:
  "length (ble_nv (ble_upd_entry i f info)) = length (ble_nv info)"
  "saved_list_num (ble_upd_entry i f info) = saved_list_num info"
  "gatt_cache (ble_upd_entry i f info) = gatt_cache info"
  by (simp_all add: ble_upd_entry_def)

lemma ble_upd_entry_keys:
  assumes "\<And>d. ble_key (f d) = ble_key d"
  shows "map ble_key (ble_used (ble_upd_entry i f info)) = map ble_key (ble_used info)"
proof (cases "i < length (ble_nv info)")
  case True
  then show ?thesis
    by (intro nth_equalityI) (auto simp: ble_used_def ble_upd_entry_def nth_list_update assms)
next
  case False
  then show ?thesis by (simp add: ble_upd_entry_def ble_used_def list_update_beyond)
qed

lemma ble_upd_entry_ok:
  assumes "ble_info_ok info" and "i < saved_list_num info" and "\<And>d. ble_key (f d) = ble_key d"
  shows "ble_info_ok (ble_upd_entry i f info)"
  using assms ble_upd_entry_keys [OF assms(3), of i info]
  by (simp add: ble_info_ok_def) (simp add: ble_upd_entry_def)

lemma ble_upd_entries_ok:
  assumes "ble_info_ok info" and "\<And>d. ble_key (f d) = ble_key d" and "n \<le> saved_list_num info"
  shows "ble_info_ok (fold (\<lambda>i. ble_upd_entry i f) [0..<n] info) \<and>
    saved_list_num (fold (\<lambda>i. ble_upd_entry i f) [0..<n] info) = saved_list_num info"
  using assms(3) by (induction n) (simp_all add: assms(1,2) ble_upd_entry_ok)

lemma ble_clear_entries:
  assumes "n \<le> length (ble_nv info)"
  shows "ble_nv (fold (\<lambda>i. ble_upd_entry i (\<lambda>_. z)) [0..<n] info) = replicate n z @ drop n (ble_nv info)"
  using assms
proof (induction n)
  case (Suc n)
  then have "ble_nv (fold (\<lambda>i. ble_upd_entry i (\<lambda>_. z)) [0..<Suc n] info) =
      (replicate n z @ drop n (ble_nv info))[n := z]"
    by (simp add: ble_upd_entry_def [of n])
  also have "\<dots> = replicate n z @ z # drop (Suc n) (ble_nv info)"
    using Suc.prems by (simp add: list_update_append Cons_nth_drop_Suc [symmetric])
  finally show ?case by (simp add: replicate_app_Cons_same)
qed simp

lemma gatt_clear_entries [simp]:
  "gatt_cache (fold (\<lambda>i. ble_upd_entry i (\<lambda>_. z)) is info) = gatt_cache info"
  by (induction "is" arbitrary: info) simp_all

lemma ble_clear_all_ok:
  assumes "ble_info_ok info"
  shows "ble_info_ok ((fold (\<lambda>i. ble_upd_entry i (\<lambda>_. zero_ble_device)) [0..<saved_list_num info] info)
    \<lparr>saved_list_num := 0\<rparr>)"
proof -
  let ?n = "saved_list_num info"
  have n: "?n \<le> length (ble_nv info)" using assms by (simp add: ble_info_ok_def)
  then have "replicate ?n zero_ble_device @ drop ?n (ble_nv info) = replicate BLE_RECORD_NUM zero_ble_device"
    using assms by (simp add: ble_info_ok_def flip: replicate_add)
  then show ?thesis using assms ble_clear_entries [OF n, of zero_ble_device]
    by (simp add: ble_info_ok_def ble_used_def)
qed

lemma ble_info_ok_cong:
  "ble_nv info' = ble_nv info \<Longrightarrow> saved_list_num info' = saved_list_num info \<Longrightarrow>
     length (gatt_cache info') = length (gatt_cache info) \<Longrightarrow> ble_info_ok info' = ble_info_ok info"
  by (simp add: ble_info_ok_def ble_used_def)

lemma gatt_edits_ok:
  "ble_info_ok (gatt_cache_store a q c info) = ble_info_ok info"
  "ble_info_ok (gatt_cache_remove a info) = ble_info_ok info"
  by (rule ble_info_ok_cong;
      simp add: gatt_cache_store_def gatt_cache_remove_def Let_def split: option.split prod.split)+

lemma server_cache_store_ok: "ble_info_ok info \<Longrightarrow> ble_info_ok (server_cache_store a c info)"
proof -
  assume ok: "ble_info_ok info"
  show ?thesis
  proof (cases "first_index (\<lambda>d. peer_addr (pairingInfo d) = a) (ble_used info)")
    case (Some i)
    then have "i < saved_list_num info" using first_index_Some length_ble_used [OF ok] by fastforce
    then show ?thesis using Some ok by (simp add: server_cache_store_def ble_upd_entry_ok)
  qed (simp add: server_cache_store_def ok)
qed

lemma ble_index_bound: "ble_index a s = Some i \<Longrightarrow> ble_info_ok (ble_info s) \<Longrightarrow> i < saved_list_num (ble_info s)"
  using first_index_Some length_ble_used by (fastforce simp: ble_index_def)

subsection \<open>Each call is an edit, possibly followed by a flush\<close>

definition then_flush :: "'f nv_env \<Rightarrow> 'f nv_state \<Rightarrow> 'f nv_state \<Rightarrow> bool" where
  "then_flush env s s' \<longleftrightarrow>
     s' = s \<or> (\<exists>now. nv_record_execute_async_flush env now s = NvDone s') \<or>
     (\<exists>n now. nv_record_flash_flush n env now s = NvDone s')"

lemma then_flush_keeps: "then_flush env s s' \<Longrightarrow> flush_keeps s s'"
  using execute_async_flush_keeps flash_flush_keeps by (fastforce simp: then_flush_def)

lemma no_flush [simp]: "then_flush env s s"
  by (simp add: then_flush_def)

lemma ble_no_step: "\<exists>s1. ble_frame s s1 \<and> then_flush env s1 s"
  using ble_frame_refl no_flush by blast

lemma ble_commit_step:
  assumes "ble_commit env now (ble_store f s) = NvDone s'"
    and "ble_info_ok (ble_info s) \<Longrightarrow> ble_info_ok (f (ble_info s))"
  shows "\<exists>s1. ble_frame s s1 \<and> then_flush env s1 s'"
  using ble_frame_store [of s f] assms by (auto simp: ble_commit_def then_flush_def)

lemma blerec_add_edit_frame_all:
  assumes "ble_info_ok (ble_info s)"
  shows "ble_frame s (blerec_add_edit malloc_ok rec s)"
proof -
  have core: "nv_core (blerec_add_edit malloc_ok rec s) = nv_core s"
    by (simp add: blerec_add_edit_def blerec_specific_value_prepare_def Let_def split: option.split)
  have upd: "blerec_add_edit malloc_ok rec s = s \<or>
      is_update (nv_flush_state (blerec_add_edit malloc_ok rec s)) \<and>
      nv_hook_active (blerec_add_edit malloc_ok rec s)"
    by (auto simp: blerec_add_edit_def blerec_specific_value_prepare_def nv_record_update_runtime_userdata_def
        nv_record_extension_update_def Let_def split: option.split)
  show ?thesis
  proof (cases "blerec_add_edit malloc_ok rec s = s")
    case False
    then show ?thesis
      using core upd blerec_info_used(3) [OF assms]
      by (auto simp: ble_frame_def bt_tracked_def blerec_add_edit_frame blerec_add_edit_body [OF assms]
          dest: blerec_add_edit_frame(4))
  qed simp
qed

lemma ble_delete_index_frame:
  "nv_record_ble_delete_entry_by_index i s = Ret s' \<Longrightarrow> ble_frame s s'"
proof -
  assume r: "nv_record_ble_delete_entry_by_index i s = Ret s'"
  have "ble_info_ok (ble_remove_at i (ble_info s))"
    if "ble_info_ok (ble_info s)" "i < saved_list_num (ble_info s)"
    using that ble_remove_at_used(2) length_ble_used by metis
  with r show ?thesis
    by (auto simp: nv_record_ble_delete_entry_by_index_def ble_frame_def bt_tracked_def nv_ops Let_def nv_core_def
        split: if_splits)
qed

lemma tws_ble_info_edit_frame: "ble_frame s (snd (tws_ble_info_edit info s))"
  by (cases "self_info (ble_info s) = info"; cases "tws_ble_info (nv_body s) = info";
      simp add: tws_ble_info_edit_def ble_frame_def bt_tracked_def nv_ops Let_def nv_core_def
      ble_info_ok_def ble_used_def)

lemma ble_window_frame: "ble_frame s (nv_record_post_write_operation (nv_record_pre_write_operation s))"
  by (simp add: ble_frame_def bt_tracked_def nv_ops nv_core_def)

lemma ble_resolv_frame:
  assumes "\<And>d. ble_key (f d) = ble_key d" and "ble_index a s = Some i"
  shows "ble_frame s (nv_record_post_write_operation (nv_write (upd_ble (ble_upd_entry i f))
    (nv_record_update_runtime_userdata (nv_record_pre_write_operation s))))"
  using ble_upd_entry_ok [OF _ ble_index_bound [OF assms(2)] assms(1)]
  by (simp add: ble_frame_def bt_tracked_def nv_ops nv_core_def)

lemma ble_step_split:
  assumes "ble_step env s s'" and ok: "ble_info_ok (ble_info s)"
  shows "\<exists>s1. ble_frame s s1 \<and> then_flush env s1 s'"
  using assms
proof (cases rule: ble_step.cases)
  case (add m now rec r)
  have "s' = s \<or> then_flush env (blerec_add_edit m rec s) s'"
    using add by (auto simp: blerec_add_split(1) [OF ok] nv_bind_done then_flush_def split: if_splits)
  then show ?thesis using blerec_add_edit_frame_all [OF ok] ble_no_step by blast
next
  case (unaware now)
  then show ?thesis
    by (auto simp: nv_record_blerec_set_change_unaware_def split: if_splits
        intro!: ble_commit_step ble_upd_entries_ok [THEN conjunct1])
next
  case (hash now h)
  then show ?thesis
    by (auto simp: nv_record_blerec_update_database_hash_def split: if_splits
        intro!: ble_commit_step, simp add: ble_info_ok_def ble_used_def)
next
  case (resolv now a b r)
  then consider "s' = s" | i where "ble_index a s = Some i"
    "nv_record_ble_write_addr_resolv_supp_via_bdaddr env now a b s = NvDone (r, s')"
    "nvrecord_ble_p s" "saved_list_num (ble_info s) \<noteq> 0"
    by (auto simp: nv_record_ble_write_addr_resolv_supp_via_bdaddr_def split: if_splits option.splits)
  then show ?thesis
  proof cases
    case 2
    let ?f = "\<lambda>d. d\<lparr>pairingInfo := (pairingInfo d)\<lparr>bond_info_bf :=
      (if b then or (bond_info_bf (pairingInfo d)) (push_bit BONDED_WITH_IRK_DISTRIBUTED 1)
       else and (bond_info_bf (pairingInfo d)) (not (push_bit BONDED_WITH_IRK_DISTRIBUTED 1)))\<rparr>\<rparr>"
    let ?s1 = "nv_record_post_write_operation (nv_write (upd_ble (ble_upd_entry i ?f))
      (nv_record_update_runtime_userdata (nv_record_pre_write_operation s)))"
    have "ble_frame s ?s1" by (rule ble_resolv_frame [OF _ 2(1)]) simp
    moreover have "then_flush env ?s1 s'"
      using 2 by (auto simp: nv_record_ble_write_addr_resolv_supp_via_bdaddr_def Let_def nv_bind_done then_flush_def)
    ultimately show ?thesis by blast
  qed (simp add: ble_no_step)
next
  case (volume a v r)
  have "ble_frame s s'" if "s' \<noteq> s"
    using volume that
    by (auto simp: nv_record_ble_write_volume_via_bdaddr_def nv_record_touch_cause_flush_def
        split: if_splits option.splits intro!: ble_frame_store ble_upd_entry_ok dest: ble_index_bound)
  then show ?thesis using ble_no_step no_flush by blast
next
  case (del_index i)
  then show ?thesis using ble_delete_index_frame no_flush by blast
next
  case (del a)
  then have "ble_frame s s'"
    by (auto simp: nv_record_ble_delete_entry_def split: if_splits option.splits dest: ble_delete_index_frame)
  then show ?thesis using no_flush by blast
next
  case del_all
  then have "ble_frame s s'"
    using ble_clear_all_ok
    by (auto simp: nv_record_ble_delete_all_entry_def nv_record_get_paired_ble_dev_info_list_num_def
        ble_frame_def bt_tracked_def nv_ops Let_def nv_core_def split: if_splits)
  then show ?thesis using no_flush by blast
next
  case (gatt_add now pa q c r)
  then show ?thesis
    by (auto simp: nv_record_ble_gatt_cache_add_def nv_bind_done ble_no_step gatt_edits_ok
        split: if_splits option.splits intro: ble_commit_step)
next
  case (gatt_del now pa r)
  then show ?thesis
    by (auto simp: nv_record_ble_gatt_cache_del_def nv_bind_done ble_no_step gatt_edits_ok
        split: if_splits option.splits intro: ble_commit_step)
next
  case (server_add now pa sc r)
  then show ?thesis
    by (auto simp: nv_record_ble_server_cache_add_def nv_bind_done ble_no_step server_cache_store_ok
        split: if_splits option.splits intro: ble_commit_step)
next
  case (server_del now pa r)
  then show ?thesis
    by (auto simp: nv_record_ble_server_cache_del_def nv_bind_done ble_no_step server_cache_store_ok
        split: if_splits option.splits intro: ble_commit_step)
next
  case (tws_update n now info)
  then obtain i where i: "info = Some i"
    by (auto simp: nv_record_extension_update_tws_ble_info_def split: option.splits)
  have "then_flush env (snd (tws_ble_info_edit (self_info i) s)) s'"
    using tws_update i
    by (auto simp: nv_record_extension_update_tws_ble_info_def then_flush_def case_prod_beta split: if_splits)
  then show ?thesis using tws_ble_info_edit_frame by blast
next
  case tws_exchange
  then have "ble_frame s s'"
    by (auto simp: nv_record_tws_exchange_ble_info_def ble_frame_def bt_tracked_def nv_ops Let_def nv_core_def
        ble_info_ok_def ble_used_def split: if_splits)
  then show ?thesis using no_flush by blast
qed

section \<open>Properties\<close>

text \<open>The environment of the witnesses: a driver that accepts every request at once.\<close>

definition demo_api :: "unit norflash" where
  "demo_api = \<lparr>norflash_api_register = (\<lambda>_ f. (NORFLASH_API_OK, f)),
     norflash_api_get_dev_id = (\<lambda>_. NORFLASH_API_OK),
     norflash_api_erase = (\<lambda>_ _ _ f. (NORFLASH_API_OK, f)),
     norflash_api_write = (\<lambda>_ _ f. (NORFLASH_API_OK, f)),
     norflash_api_read = (\<lambda>_ n f. (NORFLASH_API_OK, replicate n 0xFF)),
     norflash_api_flush = (\<lambda>f. f), used_buffers = (\<lambda>_. 0), free_erasing = (\<lambda>_. 1),
     free_writing = (\<lambda>_. 1), flash_mapped = (\<lambda>_ n _. replicate n 0xFF)\<rparr>"

definition demo_env :: "unit nv_env" where
  "demo_env = \<lparr>nv_api = demo_api, crc32_c = (\<lambda>_. 0), nv_encode = (\<lambda>_. []), nv_decode = (\<lambda>_. zero_nv_payload),
     NV_EXTENSION_VALID_LEN = 0, userdata_start = 0, env_size = 0, default_peer = None, default_role = 0,
     gen_irk = replicate 16 0, gen_csrk = replicate 16 0, ticks_max_ms = 0\<rparr>"

definition demo_ble_state :: "unit nv_state" where
  "demo_ble_state = demo_nv_state\<lparr>nvrecord_ble_p := True\<rparr>"

definition demo_bond :: "u8 \<Rightarrow> BleDevicePairingInfo" where
  "demo_bond n = zero_pairing_info\<lparr>peer_addr := \<lparr>addr = [n, 0, 0, 0, 0, 0], addr_type = 0\<rparr>,
     LTK := replicate 16 n, IRK := replicate 16 n\<rparr>"

lemma demo_ble_invar: "ble_invar demo_ble_state"
  by (simp add: ble_invar_def demo_ble_state_def demo_nv_state_def zero_nv_state_def zero_nv_payload_def
      ble_info_ok_def zero_ble_paired_info_def ble_used_def)

lemma demo_ble_view: "ble_view demo_ble_state = []"
  by (simp add: ble_view_def demo_ble_state_def demo_nv_state_def zero_nv_state_def zero_nv_payload_def
      zero_ble_paired_info_def ble_used_def)

text \<open>From the idle state the accepted erase request ends the first round.\<close>

lemma demo_commit:
  assumes "nvrecord_extension_p s" and "fl s = NV_STATE_IDLE" and "is_update (nv_flush_state s)"
  shows "\<exists>s'. nv_record_execute_async_flush demo_env now s = NvDone s'"
  using assms by (simp add: nv_record_execute_async_flush_def nv_record_extension_flush_def
      extension_flush_async_def main_phase_def flush_main_async_def demo_env_def demo_api_def
      request_async_def Let_def)

lemma demo_add_returns: "\<exists>s'. nv_record_blerec_add demo_env True 0 (demo_bond 1) demo_ble_state = Ret (NvDone (0, s'))"
proof -
  let ?s = "blerec_add_edit True (demo_bond 1) demo_ble_state"
  have ok: "ble_info_ok (ble_info demo_ble_state)" using demo_ble_invar by (simp add: ble_invar_def)
  have "nvrecord_extension_p ?s" "fl ?s = NV_STATE_IDLE" "is_update (nv_flush_state ?s)"
    by (simp_all add: blerec_add_edit_def blerec_specific_value_prepare_def demo_ble_state_def demo_nv_state_def
        zero_nv_state_def zero_nv_payload_def zero_ble_paired_info_def nv_ops ble_store_def)
  then obtain s' where "nv_record_execute_async_flush demo_env 0 ?s = NvDone s'" using demo_commit by blast
  moreover have "nvrecord_ble_p demo_ble_state" by (simp add: demo_ble_state_def)
  ultimately show ?thesis by (simp add: blerec_add_split(1) [OF ok] demo_ble_view)
qed

lemma blerec_add_correct_aux:
  assumes "ble_invar s" and "nv_record_blerec_add env malloc_ok now rec s = Ret (NvDone (r, s'))"
  shows "r = 0 \<and> ble_invar s' \<and>
    (if rec \<in> pairingInfo ` set (ble_view s) then s' = s
     else ble_view s' =
       \<lparr>pairingInfo = rec, volume = blerec_volume malloc_ok rec (ble_view s)\<rparr> #
         take (BLE_RECORD_NUM - 1) (filter (\<lambda>d. ble_key d \<noteq> addr (peer_addr rec)) (ble_view s)))"
proof -
  have ok: "ble_info_ok (ble_info s)" using assms(1) by (simp add: ble_invar_def)
  show ?thesis
  proof (cases "rec \<in> pairingInfo ` set (ble_view s)")
    case True
    then show ?thesis using assms by (auto simp: blerec_add_split(1) [OF ok] split: if_splits)
  next
    case False
    then have "r = 0" "nv_record_execute_async_flush env now (blerec_add_edit malloc_ok rec s) = NvDone s'"
      using assms by (auto simp: blerec_add_split(1) [OF ok] nv_bind_done split: if_splits)
    then show ?thesis
      using flush_keeps_ble [OF execute_async_flush_keeps] False
        blerec_add_edit_view(1) [OF assms(1)] blerec_add_edit_view(2) [OF assms(1) False] by metis
  qed
qed

text \<open>
  C7: \<open>nv_record_blerec_add\<close>, when it returns, succeeds and keeps the table well formed. A record
  that is stored already, byte for byte, changes nothing, not even its place in the order. Any
  other record comes first, followed by the other devices in their old order, of which the fifth
  is dropped; a known device keeps its volume when the temporary buffer could be allocated and
  otherwise takes the volume of the device that was first.
\<close>

theorem blerec_add_correct:
  assumes "ble_invar s" and "nv_record_blerec_add env malloc_ok now rec s = Ret (NvDone (r, s'))"
  shows "r = 0 \<and> ble_invar s' \<and>
    (if rec \<in> pairingInfo ` set (ble_view s) then s' = s
     else ble_view s' =
       \<lparr>pairingInfo = rec, volume = blerec_volume malloc_ok rec (ble_view s)\<rparr> #
         take (BLE_RECORD_NUM - 1) (filter (\<lambda>d. ble_key d \<noteq> addr (peer_addr rec)) (ble_view s)))"
  using assms by (rule blerec_add_correct_aux)

theorem blerec_add_correct_witness:
  "\<exists>s'. nv_record_blerec_add demo_env True 0 (demo_bond 1) demo_ble_state = Ret (NvDone (0, s')) \<and>
     ble_view s' = [\<lparr>pairingInfo = demo_bond 1, volume = 0\<rparr>]"
  using demo_add_returns blerec_add_correct [OF demo_ble_invar, of demo_env True 0 "demo_bond 1" 0]
  by (auto simp: demo_ble_view blerec_volume_def)

lemma blerec_add_found:
  assumes "ble_invar s" and "nv_record_blerec_add env malloc_ok now rec s = Ret (NvDone (r, s'))"
  shows "\<exists>d. find (\<lambda>d. ble_key d = addr (peer_addr rec)) (ble_view s') = Some d \<and> pairingInfo d = rec"
proof -
  note add = blerec_add_correct_aux [OF assms]
  show ?thesis
  proof (cases "rec \<in> pairingInfo ` set (ble_view s)")
    case True
    then have s': "s' = s" using add by simp
    obtain i where i: "first_index (\<lambda>d. ble_key d = addr (peer_addr rec)) (ble_used (ble_info s)) = Some i"
      "rec = pairingInfo (ble_nv (ble_info s) ! i)"
      using blerec_known [of "ble_info s" rec] True assms(1) by (auto simp: ble_view_def ble_invar_def)
    have "ble_used (ble_info s) ! i = ble_nv (ble_info s) ! i"
      using first_index_Some [OF i(1)] by (simp add: ble_used_nth)
    then show ?thesis using i s' by (simp add: find_first_index ble_view_def)
  next
    case False
    then show ?thesis using add by simp
  qed
qed

lemma find_take: "find P (take n xs) \<noteq> None \<Longrightarrow> find P (take n xs) = find P xs"
  by (induction xs arbitrary: n) (auto simp: take_Cons' split: if_splits)

lemma find_filter_key: "a \<noteq> b \<Longrightarrow>
    find (\<lambda>d. ble_key d = b) (filter (\<lambda>d. ble_key d \<noteq> a) ds) = find (\<lambda>d. ble_key d = b) ds"
  by (induction ds) auto

lemma blerec_add_others:
  assumes "ble_invar s" and "nv_record_blerec_add env malloc_ok now rec s = Ret (NvDone (r, s'))"
    and "b \<noteq> addr (peer_addr rec)" and "find (\<lambda>d. ble_key d = b) (ble_view s') \<noteq> None"
  shows "find (\<lambda>d. ble_key d = b) (ble_view s') = find (\<lambda>d. ble_key d = b) (ble_view s)"
proof (cases "rec \<in> pairingInfo ` set (ble_view s)")
  case True
  then show ?thesis using blerec_add_correct_aux [OF assms(1,2)] by simp
next
  case False
  then have v: "ble_view s' = \<lparr>pairingInfo = rec, volume = blerec_volume malloc_ok rec (ble_view s)\<rparr> #
      take (BLE_RECORD_NUM - 1) (filter (\<lambda>d. ble_key d \<noteq> addr (peer_addr rec)) (ble_view s))"
    using blerec_add_correct_aux [OF assms(1,2)] by simp
  have "find (\<lambda>d. ble_key d = b) (ble_view s') =
      find (\<lambda>d. ble_key d = b) (take (BLE_RECORD_NUM - 1) (filter (\<lambda>d. ble_key d \<noteq> addr (peer_addr rec)) (ble_view s)))"
    using v assms(3) by simp
  also have "\<dots> = find (\<lambda>d. ble_key d = b) (filter (\<lambda>d. ble_key d \<noteq> addr (peer_addr rec)) (ble_view s))"
    using assms(4) calculation by (intro find_take) simp
  also have "\<dots> = find (\<lambda>d. ble_key d = b) (ble_view s)"
    using assms(3) by (intro find_filter_key) simp
  finally show ?thesis .
qed

lemma find_ltk_found:
  "find (\<lambda>d. ble_key d = a) ds = Some d \<Longrightarrow> ediv = 0 \<or> ediv = EDIV (pairingInfo d) \<Longrightarrow>
     find_ltk_loop a ediv ds = Some (LTK (pairingInfo d))"
  by (induction ds) (auto split: if_splits)

text \<open>With distinct addresses the key search looks at one entry.\<close>

definition entry_ltk :: "u16 \<Rightarrow> BleDeviceinfo \<Rightarrow> bytes option" where
  "entry_ltk ediv d =
     (if ediv = 0 \<or> EDIV (pairingInfo d) = ediv then Some (LTK (pairingInfo d))
      else if LOCAL_EDIV (pairingInfo d) = ediv then Some (LOCAL_LTK (pairingInfo d)) else None)"

lemma find_ltk_absent: "a \<notin> ble_key ` set ds \<Longrightarrow> find_ltk_loop a ediv ds = None"
  by (induction ds) auto

lemma find_ltk_entry:
  "distinct (map ble_key ds) \<Longrightarrow>
     find_ltk_loop a ediv ds = Option.bind (find (\<lambda>d. ble_key d = a) ds) (entry_ltk ediv)"
  by (induction ds) (auto simp: entry_ltk_def find_ltk_absent)

lemma find_peer:
  assumes "distinct (map ble_key ds)" and "find (\<lambda>d. ble_key d = addr p) ds = Some d" and "peer_addr (pairingInfo d) = p"
  shows "find (\<lambda>d. peer_addr (pairingInfo d) = p) ds = Some d"
proof -
  have d: "d \<in> set ds" "ble_key d = addr p" using assms(2) by (auto simp: find_Some_iff)
  obtain d' where d': "find (\<lambda>d. peer_addr (pairingInfo d) = p) ds = Some d'"
    using d(1) assms(3) by (cases "find (\<lambda>d. peer_addr (pairingInfo d) = p) ds") (auto simp: find_None_iff)
  then have "d' \<in> set ds" "ble_key d' = addr p" by (auto simp: find_Some_iff)
  then have "d' = d" using d assms(1) inj_onD [of ble_key "set ds" d' d] by (simp add: distinct_map)
  with d' show ?thesis by simp
qed

text \<open>The readers as searches of the used part.\<close>

lemma ble_readers:
  assumes "ble_invar s"
  shows "nv_record_blerec_get_irk_from_addr a s = map_option (\<lambda>d. IRK (pairingInfo d)) (find (\<lambda>d. ble_key d = a) (ble_view s))"
    and "nv_record_ble_record_find_ltk a ediv s = find_ltk_loop a ediv (ble_view s)"
    and "nv_record_blerec_is_paired_from_addr (Some a) s \<longleftrightarrow> find (\<lambda>d. ble_key d = a) (ble_view s) \<noteq> None"
    and "nv_record_ble_read_volume_via_bdaddr a s = map_option volume (find (\<lambda>d. ble_key d = a) (ble_view s))"
    and "nv_record_blerec_get_paired_dev_from_addr True (Some p) s =
      map_option pairingInfo (find (\<lambda>d. peer_addr (pairingInfo d) = p) (ble_view s))"
  using assms
  by (simp_all add: nv_record_blerec_get_irk_from_addr_def nv_record_ble_record_find_ltk_def
      nv_record_blerec_is_paired_from_addr_def nv_record_ble_read_volume_via_bdaddr_def nv_record_blerec_get_paired_dev_from_addr_def ble_invar_def
      ble_view_def ble_used_def)

text \<open>
  C30: What the link layer asks for after a bond was added: the record itself by its address, the identity
  key, the encryption key for the diversifier zero and for the stored one, and membership are those
  of the record; for every other device that is still in the table the identity key, the encryption
  key for every diversifier and the volume are as before. After
  \<open>nv_record_ble_delete_entry\<close> of the address the device is unknown.
\<close>

theorem blerec_lookup_after:
  assumes "ble_invar s" and "nv_record_blerec_add env malloc_ok now rec s = Ret (NvDone (r, s'))"
    and "a = addr (peer_addr rec)"
  shows "nv_record_blerec_get_irk_from_addr a s' = Some (IRK rec) \<and>
    nv_record_ble_record_find_ltk a 0 s' = Some (LTK rec) \<and>
    nv_record_ble_record_find_ltk a (EDIV rec) s' = Some (LTK rec) \<and>
    nv_record_blerec_is_paired_from_addr (Some a) s' \<and>
    nv_record_blerec_get_paired_dev_from_addr True (Some (peer_addr rec)) s' = Some rec \<and>
    (\<forall>b. b \<noteq> a \<and> nv_record_blerec_is_paired_from_addr (Some b) s' \<longrightarrow>
       nv_record_blerec_get_irk_from_addr b s' = nv_record_blerec_get_irk_from_addr b s \<and>
       (\<forall>ediv. nv_record_ble_record_find_ltk b ediv s' = nv_record_ble_record_find_ltk b ediv s) \<and>
       nv_record_ble_read_volume_via_bdaddr b s' = nv_record_ble_read_volume_via_bdaddr b s) \<and>
    \<not> nv_record_blerec_is_paired_from_addr (Some a) (ble_deleted a s')"
proof -
  have inv: "ble_invar s'" using blerec_add_correct_aux [OF assms(1,2)] by simp
  obtain d where d: "find (\<lambda>d. ble_key d = a) (ble_view s') = Some d" "pairingInfo d = rec"
    using blerec_add_found [OF assms(1,2)] assms(3) by auto
  have dist: "distinct (map ble_key (ble_view s))" "distinct (map ble_key (ble_view s'))"
    using ble.invar_distinct assms(1) inv by blast+
  have "find (\<lambda>d. ble_key d = a) (ble_view (ble_deleted a s')) = None"
    by (simp add: ble_deleted_view(1) [OF inv] find_None_iff)
  moreover have "find (\<lambda>d. peer_addr (pairingInfo d) = peer_addr rec) (ble_view s') = Some d"
    using find_peer [OF dist(2)] d assms(3) by blast
  ultimately show ?thesis
    using d find_ltk_found [OF d(1)] blerec_add_others [OF assms(1,2)] assms(3)
    by (simp add: ble_readers [OF inv] ble_readers [OF assms(1)] ble_readers [OF ble_deleted_view(2) [OF inv]]
        find_ltk_entry [OF dist(1)] find_ltk_entry [OF dist(2)])
qed

theorem blerec_lookup_after_witness:
  "\<exists>s'. nv_record_blerec_add demo_env True 0 (demo_bond 1) demo_ble_state = Ret (NvDone (0, s')) \<and>
     nv_record_ble_record_find_ltk [1, 0, 0, 0, 0, 0] 0 s' = Some (replicate 16 1)"
proof -
  have "addr (peer_addr (demo_bond 1)) = [1, 0, 0, 0, 0, 0]" "LTK (demo_bond 1) = replicate 16 1"
    by (simp_all add: demo_bond_def)
  then show ?thesis
    using demo_add_returns
      blerec_lookup_after [OF demo_ble_invar, of demo_env True 0 "demo_bond 1" 0 _ "[1, 0, 0, 0, 0, 0]"]
    by fastforce
qed

text \<open>
  C8: The BLE section over time. After any sequence of returning calls of \<open>nvrecord_ble.c\<close> from a
  well-formed state, flushes included, the table has at most five devices with distinct
  addresses and cleared unused slots, the mirror is closed and was never written while closed,
  and every section of the mirror but the BLE section and the identity of the other earbud is
  untouched: the classic table and its stash, the system information, the application mode, the
  calibration and the remaining bytes.
\<close>

theorem ble_reach_safe:
  assumes "(ble_step env)\<^sup>*\<^sup>* s0 s" and "ble_invar s0" and "\<not> nv_mpu_rw s0"
  shows "ble_invar s \<and> \<not> nv_mpu_rw s \<and> length (ble_view s) \<le> BLE_RECORD_NUM \<and> distinct (map ble_key (ble_view s)) \<and>
    nv_body s = (nv_body s0)\<lparr>ble_pair_info := ble_pair_info (nv_body s), tws_ble_info := tws_ble_info (nv_body s)\<rparr>"
proof -
  have "ble_invar s \<and> \<not> nv_mpu_rw s \<and> same_but_ble (nv_body s) (nv_body s0)"
    using assms(1)
  proof (induction rule: rtranclp_induct)
    case base
    then show ?case using assms by (simp add: same_but_ble_def)
  next
    case (step t u)
    have "ble_info_ok (ble_info t)" using step by (simp add: ble_invar_def)
    then obtain v where v: "ble_frame t v" "flush_keeps v u"
      using ble_step_split [OF step(2)] then_flush_keeps by blast
    then have "same_but_ble (nv_body u) (nv_body t)" using ble_frame_same by (simp add: flush_keeps_def)
    then show ?case using v step.IH by (auto simp: ble_frame_def flush_keeps_def ble_invar_def same_but_ble_def)
  qed
  then show ?thesis using ble.invar_bounded ble.invar_distinct same_but_ble_eq by blast
qed

theorem ble_reach_safe_witness:
  "\<exists>s. (ble_step demo_env)\<^sup>*\<^sup>* demo_ble_state s \<and> length (ble_view s) = 1 \<and> ble_invar s"
proof -
  obtain s where s: "nv_record_blerec_add demo_env True 0 (demo_bond 1) demo_ble_state = Ret (NvDone (0, s))"
    using demo_add_returns by blast
  have r: "(ble_step demo_env)\<^sup>*\<^sup>* demo_ble_state s" using ble_step.add [OF s] by blast
  have "\<not> nv_mpu_rw demo_ble_state" by (simp add: demo_ble_state_def demo_nv_state_def zero_nv_state_def)
  then have "ble_invar s" using ble_reach_safe [OF r demo_ble_invar] by blast
  moreover have "length (ble_view s) = 1"
    using blerec_add_correct_aux [OF demo_ble_invar s] by (simp add: demo_ble_view)
  ultimately show ?thesis using r by blast
qed

text \<open>
  Retention of bonds. A bond whose record was new when it was added is still in the table after
  further additions as long as fewer than five different other devices were among them,
  whatever the outcome of the allocations.
\<close>

theorem blerec_retained:
  assumes "ble_invar s" and "rec \<notin> pairingInfo ` set (ble_view s)"
    and "card ((\<lambda>r. addr (peer_addr r)) ` set recs - {addr (peer_addr rec)}) < BLE_RECORD_NUM"
  shows "addr (peer_addr rec) \<in> ble_key ` set (ble_view
     (fold (blerec_add_edit malloc_ok) recs (blerec_add_edit malloc_ok rec s)))"
  using assms by (rule ble.touched_retained)

theorem blerec_retained_witness:
  "[1, 0, 0, 0, 0, 0] \<in> ble_key ` set (ble_view
     (fold (blerec_add_edit False) [demo_bond 2, demo_bond 3] (blerec_add_edit False (demo_bond 1) demo_ble_state)))"
proof -
  have "card ((\<lambda>r. addr (peer_addr r)) ` set [demo_bond 2, demo_bond 3] - {addr (peer_addr (demo_bond 1))}) \<le>
      card {addr (peer_addr (demo_bond 2)), addr (peer_addr (demo_bond 3))}"
    by (rule card_mono) auto
  also have "\<dots> < BLE_RECORD_NUM"
    by (simp add: demo_bond_def BLE_RECORD_NUM_def)
  finally show ?thesis
    using blerec_retained [OF demo_ble_invar, of "demo_bond 1" "[demo_bond 2, demo_bond 3]" False]
    by (simp add: demo_ble_view) (simp add: demo_bond_def)
qed

text \<open>
  C34: The cache of a peer's services. When the single slot holds the address under a non-zero
  sequence number, or its sequence number is below 255, the cache that is added is the one
  that is found for the address. In a slot with sequence number 255 of another peer nothing is
  stored, although the call reports success.
\<close>

theorem gatt_cache_roundtrip:
  assumes "ble_invar s" and "gatt_cache (ble_info s) = [slot]"
    and "nv_record_ble_gatt_cache_add env now (Some a) q (Some c) s = NvDone (r, s')"
  shows "r = 0 \<and>
    (if cache_seqn slot \<noteq> 0 \<and> cache_peer_addr slot = a \<or> cache_seqn slot < 0xff
     then \<exists>e. nv_record_ble_gatt_cache_get (Some a) s' = Some e \<and> client_cache e = c
     else gatt_cache (ble_info s') = [slot])"
proof -
  have p: "nvrecord_ble_p s" using assms(1) by (simp add: ble_invar_def)
  then have "r = 0" and f: "ble_commit env now (ble_store (gatt_cache_store a q c) s) = NvDone s'"
    using assms(3) by (auto simp: nv_record_ble_gatt_cache_add_def nv_bind_done)
  have "flush_keeps (nv_record_update_runtime_userdata (ble_store (gatt_cache_store a q c) s)) s'"
    using f execute_async_flush_keeps by (auto simp: ble_commit_def)
  then have "ble_info s' = gatt_cache_store a q c (ble_info s)" "nvrecord_ble_p s'"
    using p by (simp_all add: flush_keeps_def nv_record_update_runtime_userdata_def nv_record_extension_update_def)
  then show ?thesis
    using assms(2) \<open>r = 0\<close>
    by (auto simp: gatt_cache_store_def nv_record_ble_gatt_cache_get_def BLE_GATT_CACHE_NUM_def Let_def)
qed

lemma demo_gatt_returns:
  "\<exists>s'. nv_record_ble_gatt_cache_add demo_env 0 (Some a) q (Some c) demo_ble_state = NvDone (0, s')"
proof -
  let ?s = "nv_record_update_runtime_userdata (ble_store (gatt_cache_store a q c) demo_ble_state)"
  have "nvrecord_extension_p ?s" "fl ?s = NV_STATE_IDLE" "is_update (nv_flush_state ?s)"
    by (simp_all add: demo_ble_state_def demo_nv_state_def zero_nv_state_def nv_ops ble_store_def)
  then obtain s' where "nv_record_execute_async_flush demo_env 0 ?s = NvDone s'" using demo_commit by blast
  moreover have "nvrecord_ble_p demo_ble_state" by (simp add: demo_ble_state_def)
  ultimately show ?thesis by (simp add: nv_record_ble_gatt_cache_add_def ble_commit_def)
qed

theorem gatt_cache_roundtrip_witness:
  "\<exists>s' e. nv_record_ble_gatt_cache_add demo_env 0 (Some (peer_addr (demo_bond 1))) 7 (Some [1, 2, 3]) demo_ble_state =
       NvDone (0, s') \<and>
     nv_record_ble_gatt_cache_get (Some (peer_addr (demo_bond 1))) s' = Some e \<and> client_cache e = [1, 2, 3]"
proof -
  obtain s' where s': "nv_record_ble_gatt_cache_add demo_env 0 (Some (peer_addr (demo_bond 1))) 7 (Some [1, 2, 3])
      demo_ble_state = NvDone (0, s')"
    using demo_gatt_returns by blast
  have "gatt_cache (ble_info demo_ble_state) = [zero_gatt_cache]"
    by (simp add: demo_ble_state_def demo_nv_state_def zero_nv_state_def zero_nv_payload_def
        zero_ble_paired_info_def BLE_GATT_CACHE_NUM_def)
  from gatt_cache_roundtrip [OF demo_ble_invar this s'] s' show ?thesis
    by (auto simp: zero_gatt_cache_def)
qed

text \<open>
  The identity keys of the two earbuds. With the mirror in place, \<open>nv_record_tws_exchange_ble_info\<close>
  swaps the own and the other earbud's identity key and nothing else, so that doing it twice
  restores both; when the addresses are equal or the other one is unset it changes nothing.
\<close>

theorem tws_exchange_involution:
  assumes "nvrecord_extension_p s" and "nv_record_tws_exchange_ble_info s = Ret s'"
    and "nv_record_tws_exchange_ble_info s' = Ret s''"
  shows "nv_body s'' = nv_body s \<and>
    (if ble_addr (self_info (ble_info s)) = ble_addr (tws_ble_info (nv_body s)) \<or>
        ble_addr (tws_ble_info (nv_body s)) = replicate 6 0
     then s' = s
     else ble_irk (self_info (ble_info s')) = ble_irk (tws_ble_info (nv_body s)) \<and>
       ble_irk (tws_ble_info (nv_body s')) = ble_irk (self_info (ble_info s)) \<and>
       is_update (nv_flush_state s'))"
proof (cases "ble_addr (self_info (ble_info s)) = ble_addr (tws_ble_info (nv_body s)) \<or>
    ble_addr (tws_ble_info (nv_body s)) = replicate 6 0")
  case True
  then have "s' = s" using assms(1,2)
    by (auto simp: nv_record_tws_exchange_ble_info_def tws_use_same_ble_addr_def Let_def split: if_splits)
  then show ?thesis using assms True by simp
next
  case False
  have s': "nv_body s' = (nv_body s)\<lparr>ble_pair_info := (ble_info s)\<lparr>self_info := (self_info (ble_info s))
      \<lparr>ble_irk := ble_irk (tws_ble_info (nv_body s))\<rparr>\<rparr>,
      tws_ble_info := (tws_ble_info (nv_body s))\<lparr>ble_irk := ble_irk (self_info (ble_info s))\<rparr>\<rparr>"
    and p: "nvrecord_extension_p s'" "is_update (nv_flush_state s')"
    using assms(1,2) False
    by (auto simp: nv_record_tws_exchange_ble_info_def tws_use_same_ble_addr_def nv_ops Let_def split: if_splits)
  have "nv_body s'' = (nv_body s')\<lparr>ble_pair_info := (ble_info s')\<lparr>self_info := (self_info (ble_info s'))
      \<lparr>ble_irk := ble_irk (tws_ble_info (nv_body s'))\<rparr>\<rparr>,
      tws_ble_info := (tws_ble_info (nv_body s'))\<lparr>ble_irk := ble_irk (self_info (ble_info s'))\<rparr>\<rparr>"
    using assms(3) p False s'
    by (auto simp: nv_record_tws_exchange_ble_info_def tws_use_same_ble_addr_def nv_ops Let_def split: if_splits)
  then show ?thesis using False p s' by simp
qed

definition demo_tws_state :: "unit nv_state" where
  "demo_tws_state = demo_ble_state\<lparr>nv_body := (nv_body demo_ble_state)
     \<lparr>tws_ble_info := \<lparr>ble_addr = replicate 6 1, ble_irk = replicate 16 2, ble_csrk = replicate 16 3\<rparr>\<rparr>\<rparr>"

theorem tws_exchange_involution_witness:
  "\<exists>s' s''. nv_record_tws_exchange_ble_info demo_tws_state = Ret s' \<and> nv_record_tws_exchange_ble_info s' = Ret s'' \<and>
     nv_body s'' = nv_body demo_tws_state \<and> ble_irk (self_info (ble_info s')) = replicate 16 2"
proof -
  have p: "nvrecord_extension_p demo_tws_state"
    by (simp add: demo_tws_state_def demo_ble_state_def demo_nv_state_def)
  have ret: "\<exists>s'. nv_record_tws_exchange_ble_info s = Ret s' \<and> nvrecord_extension_p s'"
    if "nvrecord_extension_p s" for s :: "unit nv_state"
    using that by (simp add: nv_record_tws_exchange_ble_info_def nv_ops Let_def)
  obtain s' where s': "nv_record_tws_exchange_ble_info demo_tws_state = Ret s'" "nvrecord_extension_p s'"
    using ret [OF p] by blast
  obtain s'' where s'': "nv_record_tws_exchange_ble_info s' = Ret s''" using ret [OF s'(2)] by blast
  from tws_exchange_involution [OF p s'(1) s''] s'(1) s'' show ?thesis
    by (simp add: demo_tws_state_def demo_ble_state_def demo_nv_state_def zero_nv_state_def zero_nv_payload_def
        zero_ble_paired_info_def zero_ble_basic_info_def)
qed

text \<open>
  \<open>nv_record_blerec_init\<close>. Without the mirror it dereferences a null pointer. With it, the first
  call fills in an unset own address and later calls change nothing, but the new address is not
  marked for a flush: what was to be written stays as it was.
\<close>

theorem blerec_init_correct:
  "(\<not> nvrecord_extension_p s \<and> \<not> nvrecord_ble_p s \<longrightarrow> nv_record_blerec_init a s = NullDeref) \<and>
   (nvrecord_extension_p s \<longrightarrow>
      (\<exists>s'. nv_record_blerec_init a s = Ret s' \<and> nvrecord_ble_p s' \<and> \<not> nv_mpu_rw s' \<and>
         nv_flush_state s' = nv_flush_state s \<and>
         ble_addr (self_info (ble_info s')) =
           (if \<not> nvrecord_ble_p s \<and> ble_addr (self_info (ble_info s)) = replicate 6 0 then a
            else ble_addr (self_info (ble_info s))) \<and>
         nv_record_blerec_init b s' = Ret s'))"
  by (auto simp: nv_record_blerec_init_def nv_ops Let_def)

theorem blerec_init_correct_witness:
  "\<exists>s'. nv_record_blerec_init (replicate 6 9) demo_nv_state = Ret s' \<and>
     ble_addr (self_info (ble_info s')) = replicate 6 9 \<and> \<not> is_update (nv_flush_state s')"
proof -
  have "nvrecord_extension_p demo_nv_state" "\<not> nvrecord_ble_p demo_nv_state"
    "ble_addr (self_info (ble_info demo_nv_state)) = replicate 6 0" "\<not> is_update (nv_flush_state demo_nv_state)"
    by (simp_all add: demo_nv_state_def zero_nv_state_def zero_nv_payload_def zero_ble_paired_info_def
        zero_ble_basic_info_def)
  then show ?thesis
    using blerec_init_correct [of demo_nv_state "replicate 6 9" "replicate 6 9"] by auto
qed

end
