(* ===== verification/NvBoot.thy ===== *)
theory NvBoot
  imports NvBle
begin

text \<open>
  The rest of \<open>nvrecord_extension.c\<close>: the contents of the mirror at start-up, the default
  record, \<open>nv_record_extension_init\<close> with its choice between the main copy, the backup and the
  defaults, opening the record, and rebuilding it at run time. The customer-owned tail of
  \<open>NV_EXTENSION_RECORD_T\<close> is empty in this build, so clearing only it writes nothing.
\<close>

section \<open>Default records\<close>

datatype NV_REBUILD_TYPE_E = NV_REBUILD_ALL | NV_REBUILD_SDK_ONLY | NV_REBUILD_CUSTOMER_ONLY

text \<open>The floats of the calibration as their bits: 1.0, 1234.825, 1096.515 and 1032.47.\<close>

definition nvrecord_rebuild_sdk_info :: "nv_payload \<Rightarrow> nv_payload" where
  "nvrecord_rebuild_sdk_info b =
     b\<lparr>adda_test := \<lparr>ff_gain = 512, fb_gain = 512, calib_value = 0x3f800000, golden_flag = False,
          calib_gain = [0x449a5a66, 0x4489107b, 0x44810f0a]\<rparr>,
       sdk_rest := map (\<lambda>_. 0) (sdk_rest b)\<rparr>"

text \<open>\<open>memset\<close> of the record up to \<open>sdk_owned_end\<close>, which is its end.\<close>

definition nv_zeroed :: "nv_payload \<Rightarrow> nv_payload" where
  "nv_zeroed b = zero_nv_payload\<lparr>nv_rest := map (\<lambda>_. 0) (nv_rest b), sdk_rest := map (\<lambda>_. 0) (sdk_rest b)\<rparr>"

definition nv_default_header :: "'f nv_env \<Rightarrow> nv_payload \<Rightarrow> NVRECORD_HEADER_T" where
  "nv_default_header env b =
     \<lparr>magicNumber = NV_EXTENSION_MAGIC_NUMBER, majorVersion = NV_EXTENSION_MAJOR_VERSION,
      minorVersion = NV_EXTENSION_MINOR_VERSION, validLen = of_nat (NV_EXTENSION_VALID_LEN env),
      crc32 = crc32_c env (take (NV_EXTENSION_VALID_LEN env) (nv_encode env b))\<rparr>"

definition nv_default_body :: "'f nv_env \<Rightarrow> NV_REBUILD_TYPE_E \<Rightarrow> nv_payload \<Rightarrow> nv_payload" where
  "nv_default_body env rebuild_type b =
     (let b = (case rebuild_type of NV_REBUILD_CUSTOMER_ONLY \<Rightarrow> b | _ \<Rightarrow> nv_zeroed b);
          b = upd_env (nvrecord_rebuild_system_env (env_size env) True) b;
          b = (case default_peer env of
                 None \<Rightarrow> b
               | Some a \<Rightarrow> upd_env (\<lambda>e. e\<lparr>ibrt_mode := (ibrt_mode e)
                   \<lparr>ibrt_record := (ibrt_record (ibrt_mode e))\<lparr>bdAddr := a\<rparr>\<rparr>\<rparr>) b);
          b = upd_env (\<lambda>e. e\<lparr>ibrt_mode := (ibrt_mode e)\<lparr>mode := ucast (default_role env)\<rparr>\<rparr>) b;
          b = upd_bt nvrecord_rebuild_paired_bt_dev_info b;
          b = upd_ble (\<lambda>_. nvrecord_rebuild_paired_ble_dev_info env) b
      in nvrecord_rebuild_sdk_info b)"

text \<open>\<open>nvrecord_rebuild_system_env\<close> also copies the new system information to \<open>localSystemInfo\<close>, before the peer and the role are set.\<close>

definition nv_record_set_default :: "'f nv_env \<Rightarrow> NV_REBUILD_TYPE_E \<Rightarrow> 'f nv_state \<Rightarrow> 'f nv_state" where
  "nv_record_set_default env rebuild_type s =
     (let s = s\<lparr>localSystemInfo := nvrecord_rebuild_system_env (env_size env) True (system_info (nv_body s))\<rparr>;
          s = nv_write (nv_default_body env rebuild_type) s
      in nv_write_header (\<lambda>_. nv_default_header env (nv_body s)) s)"

text \<open>The rebuild at run time keeps the application mode, the stashed table and the calibration.\<close>

definition nv_reset_body :: "'f nv_env \<Rightarrow> nv_payload \<Rightarrow> nv_payload" where
  "nv_reset_body env b =
     (let b = upd_env (nvrecord_rebuild_system_env (env_size env) False) b;
          b = upd_bt nvrecord_rebuild_paired_bt_dev_info b;
          b = upd_ble (\<lambda>_. nvrecord_rebuild_paired_ble_dev_info env) b
      in b\<lparr>tws_ble_info := zero_ble_basic_info\<rparr>)"

definition nv_record_reset_sdk_info :: "'f nv_env \<Rightarrow> NV_REBUILD_TYPE_E \<Rightarrow> 'f nv_state \<Rightarrow> 'f nv_state" where
  "nv_record_reset_sdk_info env rebuild_type s =
     (let s = s\<lparr>localSystemInfo := nvrecord_rebuild_system_env (env_size env) False (system_info (nv_body s))\<rparr>;
          s = nv_write (nv_reset_body env) s
      in nv_write_header (\<lambda>_. nv_default_header env (nv_body s)) s)"

section \<open>Start-up\<close>

text \<open>
  The statics when the program starts: the mirror has the header of this firmware and the length
  of the system information, everything else is zero. The raw parts have the sizes \<open>rest\<close> and
  \<open>sdk\<close>.
\<close>

definition local_extension_data :: "'f nv_env \<Rightarrow> nat \<Rightarrow> nat \<Rightarrow> 'f \<Rightarrow> 'f nv_state" where
  "local_extension_data env rest sdk f = (zero_nv_state f)
     \<lparr>nv_header := \<lparr>magicNumber = NV_EXTENSION_MAGIC_NUMBER, majorVersion = NV_EXTENSION_MAJOR_VERSION,
        minorVersion = NV_EXTENSION_MINOR_VERSION, validLen = of_nat (NV_EXTENSION_VALID_LEN env), crc32 = 0\<rparr>,
      nv_body := zero_nv_payload\<lparr>system_info := zero_nvrecord_env\<lparr>nvrecord_env_len := env_size env\<rparr>,
        nv_rest := replicate rest 0, sdk_rest := replicate sdk 0\<rparr>\<rparr>"

definition nv_ext_register :: "'f nv_env \<Rightarrow> 'f nv_state \<Rightarrow> 'f nv_state nv_out" where
  "nv_ext_register env s =
     (let (result, f) = norflash_api_register (nv_api env) (userdata_start env) (nv_flash s)
      in if result = NORFLASH_API_OK then NvDone (s\<lparr>nv_flash := f\<rparr>) else NvAssert)"

text \<open>The stored copy at an address as it is read through the memory map.\<close>

definition stored_copy :: "'f nv_env \<Rightarrow> nat \<Rightarrow> 'f nv_state \<Rightarrow> bytes" where
  "stored_copy env a s = flash_mapped (nv_api env) a NV_EXTENSION_SIZE (nv_flash s)"

definition local_header_ok :: "NVRECORD_HEADER_T \<Rightarrow> bool" where
  "local_header_ok h \<longleftrightarrow> \<not> (magicNumber h \<noteq> NV_EXTENSION_MAGIC_NUMBER \<or>
     majorVersion h \<noteq> NV_EXTENSION_MAJOR_VERSION \<or> minorVersion h \<noteq> NV_EXTENSION_MINOR_VERSION \<or>
     NV_EXTENSION_SIZE - NV_EXTENSION_HEADER_SIZE \<le> unat (validLen h))"

text \<open>Copying a stored record into the mirror: always the length of this firmware's record.\<close>

definition load_copy :: "'f nv_env \<Rightarrow> bytes \<Rightarrow> 'f nv_state \<Rightarrow> 'f nv_state" where
  "load_copy env m s =
     (let s = nv_write (\<lambda>_. nv_decode env (take (NV_EXTENSION_VALID_LEN env) (drop NV_EXTENSION_HEADER_SIZE m))) s
      in nv_write_header (\<lambda>h. h\<lparr>crc32 := crc32_c env (take (unat (validLen h)) (nv_encode env (nv_body s)))\<rparr>) s)"

definition nv_ext_choose :: "'f nv_env \<Rightarrow> 'f nv_state \<Rightarrow> 'f nv_state" where
  "nv_ext_choose env s =
     (let main = stored_copy env (user_data_main_start s) s;
          bak = stored_copy env (user_data_bak_start s) s;
          main_is_valid = record_valid env main;
          bak_is_valid = record_valid env bak;
          s = (if main_is_valid then
                 if \<not> bak_is_valid
                 then set_fl NV_STATE_MAIN_DONE (s\<lparr>nv_flush_state := (nv_flush_state s)\<lparr>is_update := True\<rparr>\<rparr>)
                 else s
               else if bak_is_valid
               then set_fl NV_STATE_IDLE (s\<lparr>nv_flush_state := (nv_flush_state s)\<lparr>is_update := True\<rparr>\<rparr>)
               else s)
      in if main_is_valid \<or> bak_is_valid
         then load_copy env (if main_is_valid then main else bak) s
         else nv_record_extension_update (nv_record_set_default env NV_REBUILD_ALL s))"

definition nv_record_extension_init :: "nat \<Rightarrow> 'f nv_env \<Rightarrow> 'f nv_state \<Rightarrow> 'f nv_state nv_out" where
  "nv_record_extension_init n env s =
     (if nvrec_init s then NvDone s
      else
        let s = s\<lparr>user_data_main_start := userdata_start env,
                  user_data_bak_start := userdata_start env + NV_EXTENSION_SIZE\<rparr>;
            s = nv_record_pre_write_operation s
        in nv_bind (nv_ext_register env s) (\<lambda>s.
          let s = s\<lparr>nv_flush_state := \<lparr>is_update = False, fl_state = NV_STATE_IDLE, written_size = 0\<rparr>,
                    nvrecord_extension_p := True\<rparr>
          in if \<not> local_header_ok (nv_header s) then NvAssert
             else
               let s = (nv_ext_choose env s)\<lparr>nvrec_init := True\<rparr>;
                   s = nv_record_post_write_operation s
               in if is_update (nv_flush_state s)
                  then nv_bind (nv_record_extension_flush n env False s) (\<lambda>(_, s). NvDone s)
                  else NvDone s))"

text \<open>\<open>nv_record_open\<close> also installs the sleep hook and configures the flash interrupts, which keep no state here.\<close>

definition nv_record_open :: "nat \<Rightarrow> 'f nv_env \<Rightarrow> 'f nv_state \<Rightarrow> (bt_status_t \<times> 'f nv_state) nv_out" where
  "nv_record_open n env s =
     nv_bind (nv_record_extension_init n env s) (\<lambda>s. NvDone (BT_STS_SUCCESS, nvrecord_bt_init s))"

section \<open>Rebuilding at run time\<close>

definition nv_record_sector_clear :: "'f nv_env \<Rightarrow> 'f nv_state \<Rightarrow> 'f nv_state nv_out" where
  "nv_record_sector_clear env s =
     (let (ret, f) = norflash_api_erase (nv_api env) (userdata_start env) NV_EXTENSION_SIZE False (nv_flash s)
      in if ret \<noteq> NORFLASH_API_OK then NvAssert
         else let (ret, f) = norflash_api_erase (nv_api env) (userdata_start env + NV_EXTENSION_SIZE)
                    NV_EXTENSION_SIZE False f
              in if ret \<noteq> NORFLASH_API_OK then NvAssert else NvDone (s\<lparr>nv_flash := f\<rparr>))"

definition nv_record_rebuild ::
    "nat \<Rightarrow> 'f nv_env \<Rightarrow> u32 \<Rightarrow> NV_REBUILD_TYPE_E \<Rightarrow> 'f nv_state \<Rightarrow> 'f nv_state nv_out" where
  "nv_record_rebuild n env now rebuild_type s =
     (if nvrecord_extension_p s then
        let s = s\<lparr>nv_mpu_rw := True\<rparr>;
            s = nv_record_reset_sdk_info env rebuild_type s;
            s = s\<lparr>nv_mpu_rw := False\<rparr>;
            s = nv_record_extension_update s
        in nv_record_flash_flush n env now s
      else
        nv_bind (nv_record_sector_clear env s) (\<lambda>s. nv_record_extension_init n env (s\<lparr>nvrec_init := False\<rparr>)))"

end
