(* ===== verification/NvBootSafety.thy ===== *)
theory NvBootSafety
  imports NvBoot NvFlushSafety NvBleSafety
begin

text \<open>
  What \<open>nv_record_extension_init\<close> establishes: which record the mirror holds after a start, that
  the two copies are repaired, and that the invariant of the flush holds from then on.
\<close>

section \<open>The flash at start-up\<close>

definition flash_up :: "'f nv_env \<Rightarrow> 'f nf_ghost \<Rightarrow> 'f \<Rightarrow> bool" where
  "flash_up env g f \<longleftrightarrow>
     (\<forall>x\<in>nv_sectors env. x \<notin> nf_pend g f \<and> length (nf_view g f x) = NV_EXTENSION_SIZE)"

text \<open>Registering the module succeeds and leaves the contents alone.\<close>

definition register_law :: "'f norflash \<Rightarrow> 'f nf_ghost \<Rightarrow> nat set \<Rightarrow> bool" where
  "register_law api g A \<longleftrightarrow>
     (\<forall>a f. fst (norflash_api_register api a f) = NORFLASH_API_OK \<and>
        (\<forall>x\<in>A. nf_view g (snd (norflash_api_register api a f)) x = nf_view g f x) \<and>
        nf_pend g (snd (norflash_api_register api a f)) \<subseteq> nf_pend g f)"

abbreviation boot_laws :: "'f nv_env \<Rightarrow> 'f nf_ghost \<Rightarrow> bool" where
  "boot_laws env g \<equiv> nv_laws env g \<and> register_law (nv_api env) g (nv_sectors env)"

text \<open>The record a start chooses.\<close>

definition boot_body :: "'f nv_env \<Rightarrow> 'f nf_ghost \<Rightarrow> 'f \<Rightarrow> nv_payload \<Rightarrow> nv_payload" where
  "boot_body env g f b =
     (if record_valid env (nf_view g f (main_sec env)) then stored_payload env (nf_view g f (main_sec env))
      else if record_valid env (nf_view g f (bak_sec env)) then stored_payload env (nf_view g f (bak_sec env))
      else nv_default_body env NV_REBUILD_ALL b)"

definition some_valid :: "'f nv_env \<Rightarrow> 'f nf_ghost \<Rightarrow> 'f \<Rightarrow> bool" where
  "some_valid env g f \<longleftrightarrow>
     record_valid env (nf_view g f (main_sec env)) \<or> record_valid env (nf_view g f (bak_sec env))"

text \<open>The records a start can leave behind.\<close>

definition boot_hist :: "'f nv_env \<Rightarrow> 'f nf_ghost \<Rightarrow> 'f \<Rightarrow> nv_payload \<Rightarrow> nv_payload set" where
  "boot_hist env g f b =
     {nv_decode env (nv_encode env (boot_body env g f b))} \<union>
     {stored_payload env (nf_view g f x) | x. x \<in> nv_sectors env \<and> record_valid env (nf_view g f x)}"

text \<open>The laws and the choice do not look at the history and at what the invariant claims.\<close>

lemma laws_flags [simp]:
  "norflash_laws api (g\<lparr>nf_exact := x\<rparr>) A = norflash_laws api g A" "norflash_laws api (g\<lparr>nf_twin := x\<rparr>) A = norflash_laws api g A"
  "register_law api (g\<lparr>nf_exact := x\<rparr>) A = register_law api g A" "register_law api (g\<lparr>nf_twin := x\<rparr>) A = register_law api g A"
  "flash_up env (g\<lparr>nf_exact := x\<rparr>) f = flash_up env g f" "flash_up env (g\<lparr>nf_twin := x\<rparr>) f = flash_up env g f"
  "boot_body env (g\<lparr>nf_exact := x\<rparr>) f b = boot_body env g f b" "boot_body env (g\<lparr>nf_twin := x\<rparr>) f b = boot_body env g f b"
  "some_valid env (g\<lparr>nf_exact := x\<rparr>) f = some_valid env g f" "some_valid env (g\<lparr>nf_twin := x\<rparr>) f = some_valid env g f"
  "boot_hist env (g\<lparr>nf_exact := x\<rparr>) f b = boot_hist env g f b" "boot_hist env (g\<lparr>nf_twin := x\<rparr>) f b = boot_hist env g f b"
  by (simp_all add: norflash_laws_def request_law_def register_law_def flash_up_def boot_body_def
      some_valid_def boot_hist_def)

lemma laws_hist [simp]:
  "norflash_laws api (g\<lparr>nf_hist := H\<rparr>) A = norflash_laws api g A"
  "register_law api (g\<lparr>nf_hist := H\<rparr>) A = register_law api g A"
  "flash_up env (g\<lparr>nf_hist := H\<rparr>) f = flash_up env g f"
  "boot_body env (g\<lparr>nf_hist := H\<rparr>) f b = boot_body env g f b"
  "some_valid env (g\<lparr>nf_hist := H\<rparr>) f = some_valid env g f"
  "boot_hist env (g\<lparr>nf_hist := H\<rparr>) f b = boot_hist env g f b"
  by (simp_all add: norflash_laws_def request_law_def register_law_def flash_up_def boot_body_def
      some_valid_def boot_hist_def)

section \<open>The choice of the record\<close>

definition boot_ready :: "'f nv_env \<Rightarrow> 'f nf_ghost \<Rightarrow> 'f nv_state \<Rightarrow> bool" where
  "boot_ready env g s \<longleftrightarrow>
     nv_mpu_rw s \<and> \<not> nv_mpu_fault s \<and> nvrecord_extension_p s \<and> header_ok env (nv_header s) \<and>
     user_data_main_start s = main_sec env \<and> user_data_bak_start s = bak_sec env \<and>
     nv_flush_state s = \<lparr>is_update = False, fl_state = NV_STATE_IDLE, written_size = 0\<rparr> \<and>
     flash_up env g (nv_flash s)"

abbreviation booted :: "'f nv_env \<Rightarrow> 'f nv_state \<Rightarrow> 'f nv_state" where
  "booted env s \<equiv> nv_record_post_write_operation ((nv_ext_choose env s)\<lparr>nvrec_init := True\<rparr>)"

lemma valid_len_word: "nv_env_ok env \<Longrightarrow> unat (of_nat (NV_EXTENSION_VALID_LEN env) :: u32) = NV_EXTENSION_VALID_LEN env"
  by (simp add: nv_env_ok_def nv_sizes unsigned_of_nat take_bit_nat_eq_self)

lemma default_header_ok: "nv_env_ok env \<Longrightarrow> header_ok env (nv_default_header env b)"
  by (simp add: header_ok_def nv_default_header_def valid_len_word)

lemma stored_copy_view:
  "nv_laws env g \<Longrightarrow> boot_ready env g s \<Longrightarrow> a \<in> nv_sectors env \<Longrightarrow> stored_copy env a s = nf_view g (nv_flash s) a"
  by (auto simp: stored_copy_def boot_ready_def flash_up_def lawsD(11))

lemma header_ok_crc [simp]: "header_ok env (h\<lparr>crc32 := x\<rparr>) = header_ok env h"
  by (simp add: header_ok_def)

text \<open>The two ways the record is written, on an open mirror.\<close>

lemma load_copy_simps:
  assumes "nv_mpu_rw s"
  shows "nv_body (load_copy env m s) = stored_payload env m"
    and "header_ok env (nv_header (load_copy env m s)) = header_ok env (nv_header s)"
    and "nvrecord_extension_p (load_copy env m s) = nvrecord_extension_p s"
    and "nv_mpu_fault (load_copy env m s) = nv_mpu_fault s" "nv_flash (load_copy env m s) = nv_flash s"
    and "user_data_main_start (load_copy env m s) = user_data_main_start s"
    and "user_data_bak_start (load_copy env m s) = user_data_bak_start s"
    and "nv_flush_state (load_copy env m s) = nv_flush_state s"
  using assms by (simp_all add: load_copy_def nv_write_def nv_write_header_def stored_payload_def Let_def)

lemma set_default_simps:
  assumes "nv_mpu_rw s"
  shows "nv_body (nv_record_set_default env t s) = nv_default_body env t (nv_body s)"
    and "nv_header (nv_record_set_default env t s) = nv_default_header env (nv_default_body env t (nv_body s))"
    and "nvrecord_extension_p (nv_record_set_default env t s) = nvrecord_extension_p s"
    and "nv_mpu_fault (nv_record_set_default env t s) = nv_mpu_fault s"
    and "nv_flash (nv_record_set_default env t s) = nv_flash s"
    and "user_data_main_start (nv_record_set_default env t s) = user_data_main_start s"
    and "user_data_bak_start (nv_record_set_default env t s) = user_data_bak_start s"
    and "nv_flush_state (nv_record_set_default env t s) = nv_flush_state s"
  using assms by (simp_all add: nv_record_set_default_def nv_write_def nv_write_header_def Let_def)

lemma choose_frame:
  assumes L: "nv_laws env g" and R: "boot_ready env g s"
  shows "nv_body (booted env s) = boot_body env g (nv_flash s) (nv_body s)"
    and "header_ok env (nv_header (booted env s))" "nvrecord_extension_p (booted env s)" "\<not> nv_mpu_fault (booted env s)"
    and "user_data_main_start (booted env s) = main_sec env" "user_data_bak_start (booted env s) = bak_sec env"
    and "nv_flash (booted env s) = nv_flash s" "nvrec_init (booted env s)" "\<not> nv_mpu_rw (booted env s)"
    and "nv_flush_state (booted env s) =
      \<lparr>is_update = \<not> (record_valid env (nf_view g (nv_flash s) (main_sec env)) \<and>
          record_valid env (nf_view g (nv_flash s) (bak_sec env))),
       fl_state = if record_valid env (nf_view g (nv_flash s) (main_sec env)) \<and>
          \<not> record_valid env (nf_view g (nv_flash s) (bak_sec env)) then NV_STATE_MAIN_DONE else NV_STATE_IDLE,
       written_size = 0\<rparr>"
proof -
  have c: "stored_copy env (user_data_main_start s) s = nf_view g (nv_flash s) (main_sec env)"
    "stored_copy env (user_data_bak_start s) s = nf_view g (nv_flash s) (bak_sec env)"
    using R stored_copy_view [OF L R] by (simp_all add: boot_ready_def)
  have env: "nv_env_ok env" using L by simp
  let ?mv = "record_valid env (nf_view g (nv_flash s) (main_sec env))"
  let ?bv = "record_valid env (nf_view g (nv_flash s) (bak_sec env))"
  have r: "nv_mpu_rw s" "\<not> nv_mpu_fault s" "nvrecord_extension_p s" "header_ok env (nv_header s)"
    "user_data_main_start s = main_sec env" "user_data_bak_start s = bak_sec env"
    "nv_flush_state s = \<lparr>is_update = False, fl_state = NV_STATE_IDLE, written_size = 0\<rparr>"
    using R by (simp_all add: boot_ready_def)
  have "nv_body (booted env s) = boot_body env g (nv_flash s) (nv_body s) \<and>
    header_ok env (nv_header (booted env s)) \<and> nvrecord_extension_p (booted env s) \<and> \<not> nv_mpu_fault (booted env s) \<and>
    user_data_main_start (booted env s) = main_sec env \<and> user_data_bak_start (booted env s) = bak_sec env \<and>
    nv_flash (booted env s) = nv_flash s \<and> nvrec_init (booted env s) \<and> \<not> nv_mpu_rw (booted env s) \<and>
    nv_flush_state (booted env s) = \<lparr>is_update = \<not> (?mv \<and> ?bv),
       fl_state = if ?mv \<and> \<not> ?bv then NV_STATE_MAIN_DONE else NV_STATE_IDLE, written_size = 0\<rparr>"
  proof (cases ?mv; cases ?bv)
    assume mv: ?mv and bv: ?bv
    have "nv_ext_choose env s = load_copy env (nf_view g (nv_flash s) (main_sec env)) s"
      unfolding nv_ext_choose_def c Let_def using mv bv by auto
    then show ?thesis using mv bv r by (simp add: load_copy_simps boot_body_def nv_record_post_write_operation_def nv_record_items_is_valid_def)
  next
    assume mv: ?mv and bv: "\<not> ?bv"
    have "nv_ext_choose env s = load_copy env (nf_view g (nv_flash s) (main_sec env))
        (set_fl NV_STATE_MAIN_DONE (s\<lparr>nv_flush_state := (nv_flush_state s)\<lparr>is_update := True\<rparr>\<rparr>))"
      unfolding nv_ext_choose_def c Let_def using mv bv by auto
    then show ?thesis using mv bv r by (simp add: load_copy_simps boot_body_def nv_record_post_write_operation_def nv_record_items_is_valid_def)
  next
    assume mv: "\<not> ?mv" and bv: ?bv
    have "nv_ext_choose env s = load_copy env (nf_view g (nv_flash s) (bak_sec env))
        (set_fl NV_STATE_IDLE (s\<lparr>nv_flush_state := (nv_flush_state s)\<lparr>is_update := True\<rparr>\<rparr>))"
      unfolding nv_ext_choose_def c Let_def using mv bv by auto
    then show ?thesis using mv bv r by (simp add: load_copy_simps boot_body_def nv_record_post_write_operation_def nv_record_items_is_valid_def)
  next
    assume mv: "\<not> ?mv" and bv: "\<not> ?bv"
    have "nv_ext_choose env s = nv_record_extension_update (nv_record_set_default env NV_REBUILD_ALL s)"
      unfolding nv_ext_choose_def c Let_def using mv bv by auto
    then show ?thesis using mv bv r default_header_ok [OF env]
      by (simp add: set_default_simps boot_body_def nv_record_post_write_operation_def nv_record_extension_update_def
          nv_record_items_is_valid_def)
  qed
  then show "nv_body (booted env s) = boot_body env g (nv_flash s) (nv_body s)"
    and "header_ok env (nv_header (booted env s))" "nvrecord_extension_p (booted env s)" "\<not> nv_mpu_fault (booted env s)"
    and "user_data_main_start (booted env s) = main_sec env" "user_data_bak_start (booted env s) = bak_sec env"
    and "nv_flash (booted env s) = nv_flash s" "nvrec_init (booted env s)" "\<not> nv_mpu_rw (booted env s)"
    and "nv_flush_state (booted env s) = \<lparr>is_update = \<not> (?mv \<and> ?bv),
       fl_state = if ?mv \<and> \<not> ?bv then NV_STATE_MAIN_DONE else NV_STATE_IDLE, written_size = 0\<rparr>"
    by auto
qed

lemma choose_flush_inv:
  assumes L: "nv_laws env g" and R: "boot_ready env g s"
    and H: "boot_hist env g (nv_flash s) (nv_body s) \<subseteq> nf_hist g" and twin: "\<not> nf_twin g"
  shows "flush_inv env g (some_valid env g (nv_flash s)) (booted env s)"
proof -
  let ?f = "nv_flash s"
  note F = choose_frame [OF L R]
  have good: "sector_good env g ?f x" if "x \<in> nv_sectors env" "record_valid env (nf_view g ?f x)" for x
    using that R H by (auto simp: sector_good_def rec_ok_def boot_ready_def flash_up_def boot_hist_def)
  have idem: "nv_decode env (nv_encode env (stored_payload env m)) = stored_payload env m" for m
    using L by (simp add: nv_env_ok_def stored_payload_def)
  have base: "base_inv env g (booted env s)"
    using F H by (simp add: base_inv_def boot_hist_def)
  have phase: "phase_inv env g (some_valid env g ?f) (booted env s)"
    using F(7,10) good by (auto simp: phase_inv_def some_valid_def Let_def)
  have "holds env g (nf_view g ?f (main_sec env)) (booted env s)"
    if "record_valid env (nf_view g ?f (main_sec env))"
    using that F(1) idem by (simp add: holds_def boot_body_def)
  then have "fresh_inv env g (booted env s)"
    using F(7,10) good twin by (auto simp: fresh_inv_def)
  then show ?thesis using base phase by (simp add: flush_inv_def)
qed

section \<open>The first flush\<close>

lemma observes_all [simp]: "observes env g c (\<lambda>_. True)"
  by (simp add: observes_def)

lemma main_done_protects:
  "flush_inv env g c s \<Longrightarrow> fl s = NV_STATE_MAIN_DONE \<Longrightarrow> flush_inv env g True s"
  by (simp add: flush_inv_def phase_inv_def)

text \<open>From an idle state with nothing protected, a flush ends with both copies in place.\<close>

lemma first_flush_ends:
  assumes L: "nv_laws env g" and I: "flush_inv env g False s"
    and st: "fl s = NV_STATE_IDLE" "is_update (nv_flush_state s)"
  shows "ends (\<lambda>n. extension_flush_sync n env ret s)
    (\<lambda>r. sync_ok env g True (\<lambda>_. True) NV_STATE_IDLE False s (snd r))"
proof (rule ends_Suc)
  have m: "main_phase (nv_flush_state s)" "\<not> main_update (nv_flush_state s)"
    using st by (simp_all add: main_phase_def main_update_def)
  have "ends (\<lambda>n. nv_bind (flush_main_sync n env s) (\<lambda>(ret, s).
      nv_bind (if bak_phase (nv_flush_state s) then flush_bak_sync n env s else NvDone (ret, s))
        (\<lambda>(ret, s). extension_flush_sync n env ret s)))
      (\<lambda>r. sync_ok env g True (\<lambda>_. True) NV_STATE_IDLE False s (snd r))"
  proof (rule ends_bind [OF main_sync_ends [OF L observes_all I TrueI m(1)]])
    fix r :: "int \<times> 'a nv_state"
    assume r: "fst r = 0 \<and>
      sync_ok env g False (\<lambda>_. True) NV_STATE_MAIN_DONE (main_update (nv_flush_state s)) s (snd r)"
    then have s1: "flush_inv env g True (snd r)" "fl (snd r) = NV_STATE_MAIN_DONE"
      "\<not> is_update (nv_flush_state (snd r))" "nv_body (snd r) = nv_body s" "nv_mpu_rw (snd r) \<longrightarrow> nv_mpu_rw s"
      using m main_done_protects by (auto simp: sync_ok_def)
    then have b: "bak_phase (nv_flush_state (snd r))" by (simp add: bak_phase_def)
    have "ends (\<lambda>n. nv_bind (flush_bak_sync n env (snd r)) (\<lambda>(ret, s). extension_flush_sync n env ret s))
        (\<lambda>r. sync_ok env g True (\<lambda>_. True) NV_STATE_IDLE False s (snd r))"
    proof (rule bak_round [OF L observes_all s1(1) TrueI b])
      fix s2
      assume s2: "sync_ok env g True (\<lambda>_. True) NV_STATE_IDLE (is_update (nv_flush_state (snd r))) (snd r) s2"
      show "ends (\<lambda>n. extension_flush_sync n env 0 s2)
          (\<lambda>r. sync_ok env g True (\<lambda>_. True) NV_STATE_IDLE False s (snd r))"
        by (rule ends_mono [OF sync_idle_ends [where Q = "\<lambda>_. True", OF sync_okD(1-3) [OF s2]]])
          (use s1 s2 in \<open>auto simp: sync_ok_def\<close>)
    qed
    with b show "ends (\<lambda>n. case r of (ret, s) \<Rightarrow>
        nv_bind (if bak_phase (nv_flush_state s) then flush_bak_sync n env s else NvDone (ret, s))
          (\<lambda>(ret, s). extension_flush_sync n env ret s))
        (\<lambda>r. sync_ok env g True (\<lambda>_. True) NV_STATE_IDLE False s (snd r))"
      by (simp add: case_prod_beta)
  qed
  then show "ends (\<lambda>n. extension_flush_sync (Suc n) env ret s)
      (\<lambda>r. sync_ok env g True (\<lambda>_. True) NV_STATE_IDLE False s (snd r))"
    using m st by simp
qed

section \<open>The whole start-up\<close>

lemma ends_conj:
  assumes "ends F P" and "\<And>n x. F n = NvDone x \<Longrightarrow> R x"
  shows "ends F (\<lambda>x. P x \<and> R x)"
  using assms unfolding ends_def by (metis order_refl)

lemma header_ok_local: "nv_env_ok env \<Longrightarrow> header_ok env h \<Longrightarrow> local_header_ok h"
  by (auto simp: header_ok_def local_header_ok_def nv_env_ok_def)

lemma boot_same_view:
  assumes "\<And>x. x \<in> nv_sectors env \<Longrightarrow> nf_view g f' x = nf_view g f x"
  shows "boot_body env g f' b = boot_body env g f b" "boot_hist env g f' b = boot_hist env g f b"
    "some_valid env g f' = some_valid env g f"
proof -
  have "nf_view g f' (main_sec env) = nf_view g f (main_sec env)" "nf_view g f' (bak_sec env) = nf_view g f (bak_sec env)"
    using assms by auto
  then show b: "boot_body env g f' b = boot_body env g f b" and "some_valid env g f' = some_valid env g f"
    by (simp_all add: boot_body_def some_valid_def)
  have "{stored_payload env (nf_view g f' x) | x. x \<in> nv_sectors env \<and> record_valid env (nf_view g f' x)} =
      {stored_payload env (nf_view g f x) | x. x \<in> nv_sectors env \<and> record_valid env (nf_view g f x)}"
  proof (rule Collect_cong, rule ex_cong1)
    fix p x
    show "(p = stored_payload env (nf_view g f' x) \<and> x \<in> nv_sectors env \<and> record_valid env (nf_view g f' x)) =
        (p = stored_payload env (nf_view g f x) \<and> x \<in> nv_sectors env \<and> record_valid env (nf_view g f x))"
      using assms [of x] by (cases "x \<in> nv_sectors env") simp_all
  qed
  then show "boot_hist env g f' b = boot_hist env g f b" by (simp add: boot_hist_def b)
qed

lemma register_lawD:
  assumes "boot_laws env g"
  shows "fst (norflash_api_register (nv_api env) a f) = NORFLASH_API_OK"
    and "x \<in> nv_sectors env \<Longrightarrow> nf_view g (snd (norflash_api_register (nv_api env) a f)) x = nf_view g f x"
    and "nf_pend g (snd (norflash_api_register (nv_api env) a f)) \<subseteq> nf_pend g f"
  using assms unfolding register_law_def by blast+

text \<open>The state in which the record is chosen.\<close>

definition boot_prepared :: "'f nv_env \<Rightarrow> 'f nv_state \<Rightarrow> 'f nv_state" where
  "boot_prepared env s =
     (nv_record_pre_write_operation (s\<lparr>user_data_main_start := userdata_start env,
        user_data_bak_start := userdata_start env + NV_EXTENSION_SIZE\<rparr>))
     \<lparr>nv_flash := snd (norflash_api_register (nv_api env) (userdata_start env) (nv_flash s)),
      nv_flush_state := \<lparr>is_update = False, fl_state = NV_STATE_IDLE, written_size = 0\<rparr>,
      nvrecord_extension_p := True\<rparr>"

lemma boot_prepared_ready:
  assumes "boot_laws env g" and "header_ok env (nv_header s)" and "\<not> nv_mpu_fault s"
    and "flash_up env g (nv_flash s)"
  shows "boot_ready env g (boot_prepared env s)"
proof -
  let ?f = "snd (norflash_api_register (nv_api env) (userdata_start env) (nv_flash s))"
  have "flash_up env g ?f"
    using assms(4) register_lawD(2,3) [OF assms(1)] unfolding flash_up_def by (metis subsetD)
  then show ?thesis using assms by (simp add: boot_ready_def boot_prepared_def nv_record_pre_write_operation_def)
qed

lemma init_unfold:
  assumes "boot_laws env g" and "header_ok env (nv_header s)" and "\<not> nvrec_init s"
  shows "nv_record_extension_init n env s =
    (let s = booted env (boot_prepared env s) in
     if is_update (nv_flush_state s)
     then nv_bind (extension_flush_sync n env 0 s) (\<lambda>(_, s). NvDone s) else NvDone s)"
proof -
  have "fst (norflash_api_register (nv_api env) (userdata_start env) f) = NORFLASH_API_OK" for f
    using register_lawD(1) [OF assms(1)] .
  moreover have "local_header_ok (nv_header s)" using header_ok_local assms by blast
  ultimately show ?thesis
    using assms(3)
    by (simp add: nv_record_extension_init_def nv_ext_register_def boot_prepared_def nv_record_pre_write_operation_def
        nv_record_extension_flush_def Let_def case_prod_beta)
qed

definition boot_done :: "'f nv_env \<Rightarrow> 'f nf_ghost \<Rightarrow> 'f nv_state \<Rightarrow> 'f nv_state \<Rightarrow> bool" where
  "boot_done env g s s' \<longleftrightarrow>
     flush_inv env g True s' \<and> fl s' = NV_STATE_IDLE \<and> \<not> is_update (nv_flush_state s') \<and>
     nv_body s' = boot_body env g (nv_flash s) (nv_body s) \<and> nvrec_init s' \<and> \<not> nv_mpu_rw s'"

lemma flush_ends_bind:
  assumes "ends (\<lambda>n. extension_flush_sync n env 0 s) (\<lambda>r. P (snd r))"
  shows "ends (\<lambda>n. nv_bind (extension_flush_sync n env 0 s) (\<lambda>(_, s). NvDone s)) P"
  by (rule ends_bind [OF assms]) (auto simp: case_prod_beta)

lemma init_ends:
  assumes L: "boot_laws env g" and h: "header_ok env (nv_header s)" and s: "\<not> nvrec_init s" "\<not> nv_mpu_fault s"
    and up: "flash_up env g (nv_flash s)" and H: "boot_hist env g (nv_flash s) (nv_body s) \<subseteq> nf_hist g"
    and twin: "\<not> nf_twin g"
  shows "ends (\<lambda>n. nv_record_extension_init n env s) (boot_done env g s)"
proof -
  let ?p = "boot_prepared env s" and ?b = "booted env (boot_prepared env s)"
  have R: "boot_ready env g ?p" by (rule boot_prepared_ready [OF L h s(2) up])
  have NL: "nv_laws env g" using L by simp
  have p: "nv_flash ?p = snd (norflash_api_register (nv_api env) (userdata_start env) (nv_flash s))"
    by (simp add: boot_prepared_def)
  have same: "boot_body env g (nv_flash ?p) (nv_body ?p) = boot_body env g (nv_flash s) (nv_body s)"
    "boot_hist env g (nv_flash ?p) (nv_body ?p) = boot_hist env g (nv_flash s) (nv_body s)"
    using boot_same_view(1,2) [OF register_lawD(2) [OF L]] unfolding p
    by (simp_all add: boot_prepared_def nv_record_pre_write_operation_def)
  note F = choose_frame [OF NL R]
  have I: "flush_inv env g (some_valid env g (nv_flash ?p)) ?b"
    using choose_flush_inv [OF NL R _ twin] H same by simp
  have fin: "boot_done env g s s'"
    if "sync_ok env g True (\<lambda>_. True) NV_STATE_IDLE False ?b s'" "nvrec_init s'" for s'
    using that F same by (auto simp: boot_done_def sync_ok_def)
  show ?thesis
  proof (cases "is_update (nv_flush_state ?b)")
    case False
    then have v: "some_valid env g (nv_flash ?p)" and "fl ?b = NV_STATE_IDLE"
      using F(10) by (auto simp: some_valid_def)
    then have "boot_done env g s ?b" using I False F same by (simp add: boot_done_def)
    then show ?thesis using False by (simp add: init_unfold [OF L h s(1)] Let_def ends_done)
  next
    case True
    have "ends (\<lambda>n. extension_flush_sync n env 0 ?b)
        (\<lambda>r. sync_ok env g True (\<lambda>_. True) NV_STATE_IDLE False ?b (snd r))"
    proof (cases "some_valid env g (nv_flash ?p)")
      case True
      then show ?thesis using extension_flush_sync_ends [OF NL observes_all _ TrueI] I by simp
    next
      case False
      then have "fl ?b = NV_STATE_IDLE" using F(10) by (auto simp: some_valid_def)
      then show ?thesis using first_flush_ends [OF NL _ _ \<open>is_update (nv_flush_state ?b)\<close>] I False by simp
    qed
    then have "ends (\<lambda>n. extension_flush_sync n env 0 ?b)
        (\<lambda>r. sync_ok env g True (\<lambda>_. True) NV_STATE_IDLE False ?b (snd r) \<and> nvrec_init (snd r))"
    proof (rule ends_conj)
      fix n and x :: "int \<times> 'a nv_state"
      assume "extension_flush_sync n env 0 ?b = NvDone x"
      then have "flush_keeps ?b (snd x)" using sync_flush_keeps [of n env 0 ?b "fst x" "snd x"] by simp
      then show "nvrec_init (snd x)" using F(8) by (simp add: flush_keeps_def)
    qed
    then have "ends (\<lambda>n. extension_flush_sync n env 0 ?b) (\<lambda>r. boot_done env g s (snd r))"
      by (rule ends_mono) (use fin in blast)
    then show ?thesis
      using True flush_ends_bind by (simp add: init_unfold [OF L h s(1)] Let_def)
  qed
qed

end
