(* ===== verification/NvFuel.thy ===== *)
theory NvFuel
  imports NvBleSafety NvFlushSafety
begin

text \<open>
  The number of rounds given to the waiting loops of the synchronous flush does not matter once
  it is large enough: a result that is reached stays the result with more rounds.
\<close>

definition fuel_mono :: "(nat \<Rightarrow> 'a nv_out) \<Rightarrow> bool" where
  "fuel_mono F \<longleftrightarrow> (\<forall>n m y. n \<le> m \<longrightarrow> F n = NvDone y \<longrightarrow> F m = NvDone y)"

lemma fuel_monoD: "fuel_mono F \<Longrightarrow> F n = NvDone y \<Longrightarrow> n \<le> m \<Longrightarrow> F m = NvDone y"
  by (simp add: fuel_mono_def)

lemma fuel_const [simp]: "fuel_mono (\<lambda>n. x)"
  by (simp add: fuel_mono_def)

lemma fuel_if [intro]: "fuel_mono F \<Longrightarrow> fuel_mono G \<Longrightarrow> fuel_mono (\<lambda>n. if c then F n else G n)"
  by (cases c) simp_all

lemma fuel_bind:
  assumes "fuel_mono F" and "\<And>x. fuel_mono (\<lambda>n. k n x)"
  shows "fuel_mono (\<lambda>n. nv_bind (F n) (k n))"
  unfolding fuel_mono_def
proof (intro allI impI)
  fix n m y
  assume nm: "n \<le> m" and "nv_bind (F n) (k n) = NvDone y"
  then obtain x where x: "F n = NvDone x" "k n x = NvDone y" by (auto simp: nv_bind_done)
  show "nv_bind (F m) (k m) = NvDone y"
    using fuel_monoD [OF assms(1) x(1) nm] fuel_monoD [OF assms(2) x(2) nm] by simp
qed

lemma fuel_flush_until: "fuel_mono (\<lambda>n. flush_until n again api f)"
proof -
  have "flush_until n again api f = NvDone y \<Longrightarrow> n \<le> m \<Longrightarrow> flush_until m again api f = NvDone y" for n m y
  proof (induction n arbitrary: m f)
    case (Suc n)
    then obtain k where k: "m = Suc k" "n \<le> k" by (cases m) auto
    show ?case
    proof (cases "again (norflash_api_flush api f)")
      case True
      then have "flush_until n again api (norflash_api_flush api f) = NvDone y"
        using Suc.prems(1) by (simp add: Let_def)
      from Suc.IH [OF this k(2)] show ?thesis using True k(1) by (simp add: Let_def)
    next
      case False
      then show ?thesis using Suc.prems(1) k(1) by (simp add: Let_def)
    qed
  qed simp
  then show ?thesis unfolding fuel_mono_def by blast
qed

lemma fuel_request_sync: "fuel_mono (\<lambda>n. request_sync n req free api f)"
proof -
  have "request_sync n req free api f = NvDone y \<Longrightarrow> n \<le> m \<Longrightarrow> request_sync m req free api f = NvDone y" for n m y
  proof (induction n arbitrary: m f)
    case (Suc n)
    then obtain k where k: "m = Suc k" "n \<le> k" by (cases m) auto
    show ?case
    proof (cases "fst (req f) = NORFLASH_API_BUFFER_FULL")
      case True
      then obtain f1 where f1: "flush_until n (\<lambda>f. free f = 0) api (snd (req f)) = NvDone f1"
        "request_sync n req free api f1 = NvDone y"
        using Suc.prems(1) by (auto simp: case_prod_beta Let_def nv_bind_done split: if_splits)
      show ?thesis
        using True k(1) fuel_monoD [OF fuel_flush_until f1(1) k(2)] Suc.IH [OF f1(2) k(2)]
        by (simp add: case_prod_beta Let_def)
    next
      case False
      then show ?thesis using Suc.prems(1) k(1) by (cases "fst (req f) = NORFLASH_API_OK") (simp_all add: case_prod_beta Let_def)
    qed
  qed simp
  then show ?thesis unfolding fuel_mono_def by blast
qed

lemma fuel_phases:
  "fuel_mono (\<lambda>n. request_phase n req free env nxt s)" "fuel_mono (\<lambda>n. await_phase n env nxt s)"
  unfolding request_phase_def await_phase_def
  by (rule fuel_bind [OF fuel_request_sync], simp) (rule fuel_bind [OF fuel_flush_until], simp)

lemma fuel_main_write: "fuel_mono (\<lambda>n. main_sync_write n env s)"
  unfolding main_sync_write_def
  by (intro fuel_bind fuel_if fuel_phases fuel_const)

lemma fuel_main_prepare: "fuel_mono (\<lambda>n. main_sync_prepare n env s)"
  unfolding main_sync_prepare_def
  by (intro fuel_bind fuel_if fuel_main_write fuel_const)

lemma fuel_main: "fuel_mono (\<lambda>n. flush_main_sync n env s)"
  unfolding flush_main_sync_def Let_def
  by (intro fuel_bind fuel_if fuel_phases fuel_main_prepare fuel_const)

lemma fuel_bak_write: "fuel_mono (\<lambda>n. bak_sync_write n env s)"
  unfolding bak_sync_write_def
  by (intro fuel_bind fuel_if fuel_phases fuel_const)

lemma fuel_bak_read: "fuel_mono (\<lambda>n. bak_sync_read n env s)"
  unfolding bak_sync_read_def
  by (intro fuel_bind fuel_if fuel_bak_write fuel_const)

lemma fuel_bak: "fuel_mono (\<lambda>n. flush_bak_sync n env s)"
  unfolding flush_bak_sync_def Let_def
  by (intro fuel_bind fuel_if fuel_phases fuel_bak_read fuel_const)

lemma fuel_sync: "fuel_mono (\<lambda>n. extension_flush_sync n env ret s)"
proof -
  have "extension_flush_sync n env ret s = NvDone y \<Longrightarrow> n \<le> m \<Longrightarrow> extension_flush_sync m env ret s = NvDone y"
    for n m y
  proof (induction n arbitrary: m ret s)
    case (Suc n)
    then obtain k where k: "m = Suc k" "n \<le> k" by (cases m) auto
    show ?case
    proof (cases "fl s = NV_STATE_IDLE \<and> \<not> is_update (nv_flush_state s)")
      case True
      then show ?thesis using Suc.prems k by simp
    next
      case False
      let ?M = "\<lambda>n. if main_phase (nv_flush_state s) then flush_main_sync n env s else NvDone (ret, s)"
      let ?B = "\<lambda>n r s. if bak_phase (nv_flush_state s) then flush_bak_sync n env s else NvDone (r, s)"
      obtain r1 s1 r2 s2 where m: "?M n = NvDone (r1, s1)" and b: "?B n r1 s1 = NvDone (r2, s2)"
        and rest: "extension_flush_sync n env r2 s2 = NvDone y"
        using Suc.prems(1) False by (auto simp: nv_bind_done)
      have "?M k = NvDone (r1, s1)" by (rule fuel_monoD [of ?M, OF _ m k(2)]) (intro fuel_if fuel_main fuel_const)
      moreover have "?B k r1 s1 = NvDone (r2, s2)"
        by (rule fuel_monoD [of "\<lambda>n. ?B n r1 s1", OF _ b k(2)]) (intro fuel_if fuel_bak fuel_const)
      moreover have "extension_flush_sync k env r2 s2 = NvDone y" by (rule Suc.IH [OF rest k(2)])
      ultimately show ?thesis using k(1) False by auto
    qed
  qed simp
  then show ?thesis unfolding fuel_mono_def by blast
qed

text \<open>What holds of the result with enough rounds holds of every result.\<close>

lemma ends_result:
  assumes "ends F P" and "fuel_mono F" and "F n = NvDone x"
  shows "P x"
proof -
  obtain N y where N: "\<And>n. N \<le> n \<Longrightarrow> F n = NvDone y" "P y" using assms(1) by (auto simp: ends_def)
  have "F (max n N) = NvDone x" by (rule fuel_monoD [OF assms(2,3)]) simp
  then show ?thesis using N by simp
qed

end
