(* ===== verification/NvFlashSim.thy ===== *)
theory NvFlashSim
  imports NvBootSafety NvFuel
begin

text \<open>
  A flash driver that satisfies the assumed laws: the sectors of the device and a queue of two
  operations that are accepted but not carried out. It shows that the laws can hold together and
  is the driver of the witnesses.
\<close>

record sim_flash =
  sim_mem :: "nat \<Rightarrow> bytes"
  sim_queue :: "(nat \<times> bytes option) list"

text \<open>An operation erases a sector or programs data from its start.\<close>

definition sim_apply :: "nat \<times> bytes option \<Rightarrow> (nat \<Rightarrow> bytes) \<Rightarrow> nat \<Rightarrow> bytes" where
  "sim_apply p m =
     (case p of (a, None) \<Rightarrow> m(a := erased) | (a, Some d) \<Rightarrow> m(a := nor_program d (m a)))"

definition sim_view :: "sim_flash \<Rightarrow> nat \<Rightarrow> bytes" where
  "sim_view f = fold sim_apply (sim_queue f) (sim_mem f)"

definition sim_request :: "nat \<times> bytes option \<Rightarrow> sim_flash \<Rightarrow> NORFLASH_API_RET_T \<times> sim_flash" where
  "sim_request p f =
     (if 2 \<le> length (sim_queue f) then (NORFLASH_API_BUFFER_FULL, f)
      else (NORFLASH_API_OK, f\<lparr>sim_queue := sim_queue f @ [p]\<rparr>))"

definition sim_flush :: "sim_flash \<Rightarrow> sim_flash" where
  "sim_flush f =
     (case sim_queue f of [] \<Rightarrow> f | p # q \<Rightarrow> f\<lparr>sim_mem := sim_apply p (sim_mem f), sim_queue := q\<rparr>)"

definition sim_api :: "sim_flash norflash" where
  "sim_api = \<lparr>norflash_api_register = (\<lambda>_ f. (NORFLASH_API_OK, f)),
     norflash_api_get_dev_id = (\<lambda>_. NORFLASH_API_OK),
     norflash_api_erase = (\<lambda>a _ async f. if async then sim_request (a, None) f
        else (NORFLASH_API_OK, f\<lparr>sim_mem := (sim_view f)(a := erased), sim_queue := []\<rparr>)),
     norflash_api_write = (\<lambda>a d f. sim_request (a, Some d) f),
     norflash_api_read = (\<lambda>a n f. (NORFLASH_API_OK, take n (sim_view f a))),
     norflash_api_flush = sim_flush, used_buffers = (\<lambda>f. length (sim_queue f)),
     free_erasing = (\<lambda>f. 2 - length (sim_queue f)), free_writing = (\<lambda>f. 2 - length (sim_queue f)),
     flash_mapped = (\<lambda>a n f. take n (sim_mem f a))\<rparr>"

definition sim_ghost :: "sim_flash nf_ghost" where
  "sim_ghost = \<lparr>nf_pend = (\<lambda>f. fst ` set (sim_queue f)), nf_view = sim_view,
     nf_work = (\<lambda>f. length (sim_queue f)), nf_hist = UNIV, nf_exact = False, nf_twin = False\<rparr>"

lemma sim_apply_other: "x \<noteq> fst p \<Longrightarrow> sim_apply p m x = m x"
  by (cases p; cases "snd p") (auto simp: sim_apply_def)

lemma sim_fold_other: "x \<notin> fst ` set ps \<Longrightarrow> fold sim_apply ps m x = m x"
  by (induction ps arbitrary: m) (auto simp: sim_apply_other)

lemma sim_flush_simps:
  "sim_view (sim_flush f) = sim_view f" "set (sim_queue (sim_flush f)) \<subseteq> set (sim_queue f)"
  "length (sim_queue (sim_flush f)) = length (sim_queue f) - 1"
  by (auto simp: sim_flush_def sim_view_def split: list.split)

lemma sim_request_law:
  "request_law sim_ghost A (fst p) (sim_apply p (sim_view f) (fst p)) f (sim_request p f)"
proof -
  have "sim_view (f\<lparr>sim_queue := sim_queue f @ [p]\<rparr>) = sim_apply p (sim_view f)"
    by (simp add: sim_view_def)
  then show ?thesis
    by (auto simp: request_law_def sim_request_def sim_ghost_def sim_apply_other)
qed

lemma sim_erase_law:
  "request_law sim_ghost A a (replicate NV_EXTENSION_SIZE 0xFF) f
     (norflash_api_erase sim_api a NV_EXTENSION_SIZE True f)"
  using sim_request_law [of A "(a, None)" f] by (simp add: sim_apply_def sim_api_def erased_def)

lemma sim_write_law:
  "request_law sim_ghost A a (nor_program d (nf_view sim_ghost f a)) f (norflash_api_write sim_api a d f)"
  using sim_request_law [of A "(a, Some d)" f] by (simp add: sim_apply_def sim_api_def sim_ghost_def)

lemma sim_mem_view: "a \<notin> fst ` set (sim_queue f) \<Longrightarrow> sim_mem f a = sim_view f a"
  using sim_fold_other by (simp add: sim_view_def)

lemma sim_flush_law:
  "nf_pend sim_ghost (norflash_api_flush sim_api f) \<subseteq> nf_pend sim_ghost f \<and>
   (\<forall>x\<in>A. nf_view sim_ghost (norflash_api_flush sim_api f) x = nf_view sim_ghost f x) \<and>
   (0 < nf_work sim_ghost f \<longrightarrow> nf_work sim_ghost (norflash_api_flush sim_api f) < nf_work sim_ghost f) \<and>
   (nf_work sim_ghost f = 0 \<longrightarrow> nf_work sim_ghost (norflash_api_flush sim_api f) = 0)"
  using sim_flush_simps(2,3) [of f] by (auto simp: sim_ghost_def sim_api_def sim_flush_simps(1))

lemma sim_laws: "norflash_laws sim_api sim_ghost A" "register_law sim_api sim_ghost A"
proof -
  have "norflash_api_get_dev_id sim_api f = NORFLASH_API_OK"
    "nf_work sim_ghost f = 0 \<longrightarrow>
      used_buffers sim_api f = 0 \<and> 0 < free_erasing sim_api f \<and> 0 < free_writing sim_api f"
    "used_buffers sim_api f = 0 \<longrightarrow> nf_pend sim_ghost f \<inter> A = {}"
    "norflash_api_read sim_api a n f = (NORFLASH_API_OK, take n (nf_view sim_ghost f a))"
    "a \<notin> nf_pend sim_ghost f \<longrightarrow>
      flash_mapped sim_api a NV_EXTENSION_SIZE f = take NV_EXTENSION_SIZE (nf_view sim_ghost f a)" for f a n
    using sim_mem_view [of a f] by (simp_all add: sim_ghost_def sim_api_def)
  then show "norflash_laws sim_api sim_ghost A"
    unfolding norflash_laws_def
    by (intro conjI allI ballI) (assumption | rule sim_erase_law sim_write_law sim_flush_law
        | simp only: simp_thms | simp add: sim_flush_law)+
  show "register_law sim_api sim_ghost A" by (simp add: register_law_def sim_api_def)
qed

text \<open>
  A small record layout: one byte, the language. The checksum adds up the bytes and their
  number, so that the sector of an erased device is not a valid record.
\<close>

definition sim_env :: "sim_flash nv_env" where
  "sim_env = \<lparr>nv_api = sim_api, crc32_c = (\<lambda>m. of_nat (length m) + sum_list (map ucast m)),
     nv_encode = (\<lambda>b. [language (system_info b)]),
     nv_decode = (\<lambda>m. zero_nv_payload\<lparr>system_info := zero_nvrecord_env\<lparr>language := m ! 0\<rparr>\<rparr>),
     NV_EXTENSION_VALID_LEN = 1, userdata_start = 0, env_size = 100, default_peer = None, default_role = 0,
     gen_irk = replicate 16 1, gen_csrk = replicate 16 2, ticks_max_ms = 0xFFFFFFFF\<rparr>"

lemma sim_env_ok: "nv_env_ok sim_env"
  by (simp add: nv_env_ok_def sim_env_def nv_sizes)

lemma sim_boot_laws: "boot_laws sim_env sim_ghost"
  using sim_env_ok sim_laws by (simp add: sim_env_def)

text \<open>A device that was never written.\<close>

definition blank_flash :: sim_flash where
  "blank_flash = \<lparr>sim_mem = (\<lambda>_. erased), sim_queue = []\<rparr>"

lemma blank_up: "flash_up sim_env sim_ghost blank_flash"
  by (simp add: flash_up_def sim_ghost_def blank_flash_def sim_view_def erased_def)

lemma header_of_erased: "magicNumber (header_of erased) = 0xFFFFFFFF"
  by (simp add: header_of_def get32_def erased_def NV_EXTENSION_SIZE_def)

lemma blank_invalid: "\<not> some_valid sim_env sim_ghost blank_flash"
  by (simp add: some_valid_def sim_ghost_def blank_flash_def sim_view_def nv_record_data_is_valid_def
      header_of_erased NV_EXTENSION_MAGIC_NUMBER_def Let_def)

end
