(* ===== verification/NvRun.thy ===== *)
theory NvRun
  imports NvFlashSim NvEnv NvBtSafety
begin

text \<open>
  The user-data record as a whole: every function that changes the mirror or the flash as one step
  relation, its invariant, and what a loss of power at any moment leaves behind.
\<close>

section \<open>The calls as steps\<close>

text \<open>
  A step is one returning call: an edit of the classic table, of the system information or of the
  BLE section, the BLE initialisation, the sleep hook, one round of the background flush, the
  flush that waits, or the rebuild of the record.
\<close>

inductive nv_step :: "'f nv_env \<Rightarrow> 'f nv_state \<Rightarrow> 'f nv_state \<Rightarrow> bool" for env where
  bt: "bt_step s s' \<Longrightarrow> nv_step env s s'"
| env: "env_step UNIV s s' \<Longrightarrow> nv_step env s s'"
| ble: "ble_step env s s' \<Longrightarrow> nv_step env s s'"
| ble_init: "nv_record_blerec_init a s = Ret s' \<Longrightarrow> nv_step env s s'"
| sleep: "nv_record_flash_flush_in_sleep env now now2 s = NvDone (r, s') \<Longrightarrow> nv_step env s s'"
| async: "nv_record_execute_async_flush env now s = NvDone s' \<Longrightarrow> nv_step env s s'"
| sync: "nv_record_flash_flush n env now s = NvDone s' \<Longrightarrow> nv_step env s s'"
| rebuild: "nv_record_rebuild n env now ty s = NvDone s' \<Longrightarrow> nv_step env s s'"

definition tables_ok :: "'f nv_state \<Rightarrow> bool" where
  "tables_ok s \<longleftrightarrow> bt_safe s \<and> ble_info_ok (ble_info s)"

text \<open>What the flash stores of a state of the mirror.\<close>

definition version :: "'e nv_env \<Rightarrow> 'f nv_state \<Rightarrow> nv_payload" where
  "version env s = nv_decode env (nv_encode env (nv_body s))"

definition nv_inv :: "'f nv_env \<Rightarrow> 'f nf_ghost \<Rightarrow> ('f \<Rightarrow> bool) \<Rightarrow> 'f nv_state \<Rightarrow> bool" where
  "nv_inv env g Q s \<longleftrightarrow> flush_inv env g True s \<and> Q (nv_flash s) \<and> tables_ok s"

section \<open>The invariant is kept\<close>

lemma phase_cong:
  "fl s' = fl s \<Longrightarrow> nv_burn_buf s' = nv_burn_buf s \<Longrightarrow> nv_flash s' = nv_flash s \<Longrightarrow>
     phase_inv env g c s' = phase_inv env g c s"
  by (cases "fl s") (simp_all add: phase_inv_def)

lemma edit_flush_inv:
  assumes I: "flush_inv env g c s" and T: "bt_tracked s s'"
    and p: "nvrecord_extension_p s'" "\<not> nv_mpu_fault s'" and v: "version env s' \<in> nf_hist g"
  shows "flush_inv env g c s' \<and> nv_flash s' = nv_flash s"
proof -
  have core: "nv_header s' = nv_header s" "nv_burn_buf s' = nv_burn_buf s"
    "user_data_main_start s' = user_data_main_start s" "user_data_bak_start s' = user_data_bak_start s"
    "fl s' = fl s" "written_size (nv_flush_state s') = written_size (nv_flush_state s)" "nv_flash s' = nv_flash s"
    using T by (simp_all add: bt_tracked_def nv_core_def)
  have "base_inv env g s'" using I p v core by (simp add: flush_inv_def base_inv_def version_def)
  moreover have "phase_inv env g c s'" using I core by (simp add: flush_inv_def phase_cong [of s' s])
  moreover have "fresh_inv env g s'"
  proof (cases "is_update (nv_flush_state s')")
    case False
    then have "nv_body s' = nv_body s" "\<not> is_update (nv_flush_state s)" using T by (auto simp: bt_tracked_def)
    moreover have "fresh_inv env g s" using I by (simp add: flush_inv_def)
    ultimately show ?thesis using core by (cases "fl s") (simp_all add: fresh_inv_def holds_def)
  qed (simp add: fresh_inv_def)
  ultimately show ?thesis using core by (simp add: flush_inv_def)
qed

lemma checkpoint_inv [simp]:
  "flush_inv env g c (nv_record_reset_flush_checkpoint now s) = flush_inv env g c s"
  "nv_flash (nv_record_reset_flush_checkpoint now s) = nv_flash s"
  by (cases "fl s"; simp add: nv_record_reset_flush_checkpoint_def flush_inv_def base_inv_def phase_inv_def
      fresh_inv_def holds_def)+

lemma async_flush_inv:
  assumes "nv_laws env g" and "observes env g c Q"
    and "flush_inv env g c s" and "Q (nv_flash s)" and r: "nv_record_execute_async_flush env now s = NvDone s'"
  shows "flush_inv env g c s' \<and> Q (nv_flash s')"
proof (cases "fl s = NV_STATE_IDLE \<and> \<not> is_update (nv_flush_state s)")
  case True
  then have "s' = nv_record_reset_flush_checkpoint now s"
    using r by (simp add: nv_record_execute_async_flush_def nv_record_extension_flush_def extension_flush_async_def)
  then show ?thesis using assms by simp
next
  case False
  from extension_flush_async_step [OF assms(1-4) this] r show ?thesis
    by (auto simp: step_ok_def nv_record_execute_async_flush_def nv_record_extension_flush_def split: if_splits)
qed

lemma sync_flush_inv:
  assumes "nv_laws env g" and "observes env g c Q"
    and "flush_inv env g c s" and "Q (nv_flash s)" and r: "nv_record_flash_flush n env now s = NvDone s'"
  shows "flush_inv env g c s' \<and> Q (nv_flash s') \<and> fl s' = NV_STATE_IDLE \<and> \<not> is_update (nv_flush_state s')"
proof -
  obtain x where x: "extension_flush_sync n env 0 s = NvDone x" "s' = nv_record_reset_flush_checkpoint now (snd x)"
    using r by (auto simp: nv_record_flash_flush_def nv_record_extension_flush_def nv_bind_done)
  have "sync_ok env g c Q NV_STATE_IDLE False s (snd x)"
    by (rule ends_result [OF extension_flush_sync_ends [OF assms(1-4)] fuel_sync x(1)])
  then show ?thesis using x(2) by (simp add: sync_ok_def) (simp add: nv_record_reset_flush_checkpoint_def)
qed

lemma then_flush_inv:
  assumes "nv_laws env g" and "observes env g c Q"
    and "flush_inv env g c s" and "Q (nv_flash s)" and "then_flush env s s'"
  shows "flush_inv env g c s' \<and> Q (nv_flash s')"
  using assms(5) async_flush_inv [OF assms(1-4)] sync_flush_inv [OF assms(1-4)] assms(3,4)
  unfolding then_flush_def by blast

lemma keeps_tables: "flush_keeps s s' \<Longrightarrow> tables_ok s \<Longrightarrow> tables_ok s'"
  by (auto simp: flush_keeps_def tables_ok_def bt_safe_def bt_invar_def)

lemma keeps_version: "flush_keeps s s' \<Longrightarrow> version env s' = version env s"
  by (simp add: flush_keeps_def version_def)

text \<open>The three kinds of edits keep the tables.\<close>

lemma bt_store_other [simp]:
  "ble_pair_info (nv_body (bt_store c al i f s)) = ble_pair_info (nv_body s)"
  "system_info (nv_body (bt_store c al i f s)) = system_info (nv_body s)"
  by (simp_all add: bt_store_def nv_ops Let_def)

lemma ddbrec_add_other [simp]:
  "ble_pair_info (nv_body (snd (nv_record_ddbrec_add t rec s))) = ble_pair_info (nv_body s)"
  "system_info (nv_body (snd (nv_record_ddbrec_add t rec s))) = system_info (nv_body s)"
proof -
  have "ble_pair_info (nv_body (snd (nv_record_ddbrec_add t rec s))) = ble_pair_info (nv_body s) \<and>
    system_info (nv_body (snd (nv_record_ddbrec_add t rec s))) = system_info (nv_body s)"
  proof (cases "rec = None \<or> \<not> nvrecord_extension_p s")
    case True
    then show ?thesis by (cases rec) (auto simp: nv_record_ddbrec_add_def)
  qed (auto simp: ddbrec_add_state(1))
  then show "ble_pair_info (nv_body (snd (nv_record_ddbrec_add t rec s))) = ble_pair_info (nv_body s)"
    "system_info (nv_body (snd (nv_record_ddbrec_add t rec s))) = system_info (nv_body s)" by blast+
qed

lemma change_order_other:
  "nv_record_change_order rec target s = Ret (st, s') \<Longrightarrow>
     ble_pair_info (nv_body s') = ble_pair_info (nv_body s) \<and> system_info (nv_body s') = system_info (nv_body s)"
  by (auto simp: nv_record_change_order_def nv_ops Let_def split: if_splits)

lemma bt_step_other:
  "bt_step s s' \<Longrightarrow>
     ble_pair_info (nv_body s') = ble_pair_info (nv_body s) \<and> system_info (nv_body s') = system_info (nv_body s)"
proof (induction rule: bt_step.induct)
  case (edit s s')
  then show ?case
  proof (induction rule: bt_edit.induct)
    case (add_section s is_tws sec rec)
    then show ?case using nv_record_add_cases [of is_tws sec rec s] by auto
  qed (simp_all add: change_order_other bt_setter_defs nv_record_ddbrec_delete_def
      nv_record_ddbrec_clear_def nv_record_ddbrec_clear_all_bt_paired_list_def
      nv_record_pop_original_bt_record_def nvrecord_bt_init_def
      nv_record_bt_device_register_newly_paired_device_callback_def nv_ops Let_def)
qed (simp add: nv_record_stash_original_bt_record_def nv_ops Let_def)

lemma bt_step_tables: "bt_step s s' \<Longrightarrow> tables_ok s \<Longrightarrow> tables_ok s' \<and> bt_tracked s s'"
  using bt_step_safe bt_step_other by (fastforce simp: tables_ok_def)

lemma env_step_tables: "env_step es s s' \<Longrightarrow> tables_ok s \<Longrightarrow> tables_ok s' \<and> bt_tracked s s'"
  using env_step_frame [of es s s'] env_frame_safe [of s s']
  by (simp add: tables_ok_def env_frame_def)

lemma ble_frame_tables: "ble_frame s s' \<Longrightarrow> tables_ok s \<Longrightarrow> tables_ok s' \<and> bt_tracked s s'"
  by (auto simp: tables_ok_def ble_frame_def bt_safe_def bt_invar_def)

lemma tables_flags: "tables_ok s \<Longrightarrow> nvrecord_extension_p s \<and> \<not> nv_mpu_fault s"
  by (simp add: tables_ok_def bt_safe_def bt_invar_def)

lemma edit_inv:
  assumes "nv_inv env g Q s" and "tables_ok s'" and "bt_tracked s s'" and "version env s' \<in> nf_hist g"
  shows "nv_inv env g Q s'"
  using assms edit_flush_inv [of env g True s s'] tables_flags [of s'] by (simp add: nv_inv_def)

lemma flush_nv_inv:
  assumes "nv_laws env g" and "observes env g True Q"
    and "nv_inv env g Q s" and "then_flush env s s'"
  shows "nv_inv env g Q s'"
  using assms then_flush_inv [OF assms(1,2) _ _ assms(4)] keeps_tables [OF then_flush_keeps [OF assms(4)]]
  by (simp add: nv_inv_def)

text \<open>The BLE initialisation edits the mirror without a mark; only the own address may differ.\<close>

lemma unset_same: "ble_addr (self_info (ble_pair_info b)) = replicate 6 0 \<Longrightarrow> unset_ble_addr b = b"
  by (simp add: unset_ble_addr_def)

lemma unset_other:
  "unset_ble_addr (upd_ble (\<lambda>i. i\<lparr>self_info := (self_info i)\<lparr>ble_addr := a\<rparr>\<rparr>) b) = unset_ble_addr b"
  by (simp add: unset_ble_addr_def)

lemma blerec_init_inv:
  assumes r: "nv_record_blerec_init a s = Ret s'" and I: "nv_inv env g Q s" and v: "version env s' \<in> nf_hist g"
    and exact: "\<not> nf_exact g"
  shows "nv_inv env g Q s'"
proof -
  let ?b = "upd_ble (\<lambda>i. i\<lparr>self_info := (self_info i)\<lparr>ble_addr := a\<rparr>\<rparr>) (nv_body s)"
  have rw: "\<not> nv_mpu_rw s" using I by (simp add: nv_inv_def tables_ok_def bt_safe_def)
  have body: "nv_body s' = nv_body s \<or>
      ble_addr (self_info (ble_info s)) = replicate 6 0 \<and> nv_body s' = ?b"
    and fr: "nv_core s' = nv_core s" "is_update (nv_flush_state s') = is_update (nv_flush_state s)"
      "nvrecord_extension_p s' = nvrecord_extension_p s" "nv_mpu_fault s' = nv_mpu_fault s" "\<not> nv_mpu_rw s'"
    using r by (auto simp: nv_record_blerec_init_def nv_ops nv_core_def Let_def split: if_splits)
  have core: "nv_header s' = nv_header s" "nv_burn_buf s' = nv_burn_buf s"
    "user_data_main_start s' = user_data_main_start s" "user_data_bak_start s' = user_data_bak_start s"
    "fl s' = fl s" "written_size (nv_flush_state s') = written_size (nv_flush_state s)" "nv_flash s' = nv_flash s"
    using fr(1) by (simp_all add: nv_core_def)
  have h: "holds env g m s \<Longrightarrow> holds env g m s'" for m
    using body unset_same [of "nv_body s"] unset_other [of a "nv_body s"] exact by (auto simp: holds_def)
  have base: "base_inv env g s'" using I v fr core by (simp add: nv_inv_def flush_inv_def base_inv_def version_def)
  have ph: "phase_inv env g True s'" using I core by (simp add: nv_inv_def flush_inv_def phase_cong [of s' s])
  have "fresh_inv env g s" using I by (simp add: nv_inv_def flush_inv_def)
  then have "fresh_inv env g s'" using core fr(2) h by (cases "fl s") (auto simp: fresh_inv_def)
  moreover have "tables_ok s'"
    using I body fr by (auto simp: nv_inv_def tables_ok_def bt_safe_def bt_invar_def ble_info_ok_def ble_used_def)
  ultimately show ?thesis using base ph I core(7) by (simp add: nv_inv_def flush_inv_def)
qed

text \<open>The rebuild: the edit rewrites the header too, then everything is flushed.\<close>

definition rebuilt :: "'f nv_env \<Rightarrow> NV_REBUILD_TYPE_E \<Rightarrow> 'f nv_state \<Rightarrow> 'f nv_state" where
  "rebuilt env ty s =
     nv_record_extension_update ((nv_record_reset_sdk_info env ty (s\<lparr>nv_mpu_rw := True\<rparr>))\<lparr>nv_mpu_rw := False\<rparr>)"

lemma rebuild_unfold:
  "nvrecord_extension_p s \<Longrightarrow> nv_record_rebuild n env now ty s = nv_record_flash_flush n env now (rebuilt env ty s)"
  by (simp add: nv_record_rebuild_def rebuilt_def Let_def)

lemma rebuilt_simps:
  "nv_body (rebuilt env ty s) = nv_reset_body env (nv_body s)"
  "nv_header (rebuilt env ty s) = nv_default_header env (nv_reset_body env (nv_body s))"
  "nv_flash (rebuilt env ty s) = nv_flash s" "nv_burn_buf (rebuilt env ty s) = nv_burn_buf s"
  "nvrecord_extension_p (rebuilt env ty s) = nvrecord_extension_p s"
  "nv_mpu_fault (rebuilt env ty s) = nv_mpu_fault s" "\<not> nv_mpu_rw (rebuilt env ty s)"
  "user_data_main_start (rebuilt env ty s) = user_data_main_start s"
  "user_data_bak_start (rebuilt env ty s) = user_data_bak_start s"
  "nv_flush_state (rebuilt env ty s) = (nv_flush_state s)\<lparr>is_update := True\<rparr>"
  by (simp_all add: rebuilt_def nv_record_reset_sdk_info_def nv_ops Let_def)

lemma reset_body_tables:
  assumes "tables_ok s"
  shows "bt_info_ok (bt_pair_info (nv_reset_body env (nv_body s)))"
    "bt_info_ok (bt_pair_info_cache (nv_reset_body env (nv_body s)))"
    "ble_info_ok (ble_pair_info (nv_reset_body env (nv_body s)))"
proof -
  have "ble_info_ok (nvrecord_rebuild_paired_ble_dev_info env)"
    by (simp add: nvrecord_rebuild_paired_ble_dev_info_def ble_info_ok_def zero_ble_paired_info_def ble_used_def)
  moreover have "bt_info_ok (nvrecord_rebuild_paired_bt_dev_info i)" for i
    by (simp add: nvrecord_rebuild_paired_bt_dev_info_def)
      (simp add: zero_paired_bt_info_def bt_info_ok_def bt_used_def)
  ultimately show "bt_info_ok (bt_pair_info (nv_reset_body env (nv_body s)))"
    "bt_info_ok (bt_pair_info_cache (nv_reset_body env (nv_body s)))"
    "ble_info_ok (ble_pair_info (nv_reset_body env (nv_body s)))"
    using assms by (simp_all add: nv_reset_body_def tables_ok_def bt_safe_def
        nvrecord_rebuild_system_env_def Let_def)
qed

lemma rebuilt_inv:
  assumes "nv_env_ok env" and "nv_inv env g Q s" and "version env (rebuilt env ty s) \<in> nf_hist g"
  shows "nv_inv env g Q (rebuilt env ty s)"
proof -
  have I: "flush_inv env g True s" "Q (nv_flash s)" "tables_ok s" using assms(2) by (simp_all add: nv_inv_def)
  have "base_inv env g (rebuilt env ty s)"
    using I(1) assms(3) default_header_ok [OF assms(1)]
    by (simp add: flush_inv_def base_inv_def rebuilt_simps version_def)
  moreover have "phase_inv env g True (rebuilt env ty s)"
    using I(1) phase_cong [of "rebuilt env ty s" s env g True] by (simp add: flush_inv_def rebuilt_simps)
  moreover have "fresh_inv env g (rebuilt env ty s)" by (simp add: fresh_inv_def rebuilt_simps)
  moreover have "tables_ok (rebuilt env ty s)"
    using I(3) reset_body_tables [OF I(3), of env] by (simp add: tables_ok_def bt_safe_def bt_invar_def rebuilt_simps)
  ultimately show ?thesis using I(2) by (simp add: nv_inv_def flush_inv_def rebuilt_simps)
qed

text \<open>Every step keeps the invariant, provided the history has the new version.\<close>

lemma nv_step_inv:
  assumes L: "nv_laws env g" and O: "observes env g True Q"
    and st: "nv_step env s s'" and I: "nv_inv env g Q s" and v: "version env s' \<in> nf_hist g"
    and exact: "\<not> nf_exact g"
  shows "nv_inv env g Q s'"
  using st
proof cases
  case bt
  then have "tables_ok s' \<and> bt_tracked s s'" using I bt_step_tables unfolding nv_inv_def by blast
  then show ?thesis using edit_inv [OF I _ _ v] by blast
next
  case env
  then have "tables_ok s' \<and> bt_tracked s s'" using I env_step_tables unfolding nv_inv_def by blast
  then show ?thesis using edit_inv [OF I _ _ v] by blast
next
  case ble
  have T: "tables_ok s" using I by (simp add: nv_inv_def)
  then obtain s1 where s1: "ble_frame s s1" "then_flush env s1 s'"
    using ble_step_split [OF ble] by (auto simp: tables_ok_def)
  have "version env s1 \<in> nf_hist g" using v keeps_version [OF then_flush_keeps [OF s1(2)], of env] by simp
  then have "nv_inv env g Q s1" using ble_frame_tables [OF s1(1) T] edit_inv [OF I] by blast
  then show ?thesis by (rule flush_nv_inv [OF L O _ s1(2)])
next
  case (ble_init a)
  then show ?thesis using I v exact blerec_init_inv by blast
next
  case (sleep now now2 r)
  then have "then_flush env s s'"
    by (auto simp: nv_record_flash_flush_in_sleep_def then_flush_def nv_bind_done split: if_splits)
  then show ?thesis by (rule flush_nv_inv [OF L O I])
next
  case (async now)
  then show ?thesis by (intro flush_nv_inv [OF L O I]) (auto simp: then_flush_def)
next
  case (sync n now)
  then show ?thesis by (intro flush_nv_inv [OF L O I]) (auto simp: then_flush_def)
next
  case (rebuild n now ty)
  have "nvrecord_extension_p s" using I tables_flags by (auto simp: nv_inv_def)
  then have f: "then_flush env (rebuilt env ty s) s'"
    using rebuild by (auto simp: rebuild_unfold then_flush_def)
  then have "version env (rebuilt env ty s) \<in> nf_hist g"
    using v keeps_version [OF then_flush_keeps [OF f], of env] by simp
  then show ?thesis using rebuilt_inv [OF _ I] L flush_nv_inv [OF L O _ f] by blast
qed

end
