(* ===== verification/NvCrash.thy ===== *)
theory NvCrash
  imports NvRun
begin

text \<open>
  Loss of power at any moment. The driver is wrapped so that its state keeps all earlier states:
  after a run, the wrapped state shows every moment between two driver calls, also those inside
  a flush that waits.
\<close>

section \<open>A driver that remembers\<close>

definition traced_api :: "'f norflash \<Rightarrow> 'f list norflash" where
  "traced_api api = \<lparr>
     norflash_api_register = (\<lambda>a fs. let (r, f) = norflash_api_register api a (hd fs) in (r, f # fs)),
     norflash_api_get_dev_id = (\<lambda>fs. norflash_api_get_dev_id api (hd fs)),
     norflash_api_erase = (\<lambda>a n y fs. let (r, f) = norflash_api_erase api a n y (hd fs) in (r, f # fs)),
     norflash_api_write = (\<lambda>a d fs. let (r, f) = norflash_api_write api a d (hd fs) in (r, f # fs)),
     norflash_api_read = (\<lambda>a n fs. norflash_api_read api a n (hd fs)),
     norflash_api_flush = (\<lambda>fs. norflash_api_flush api (hd fs) # fs),
     used_buffers = (\<lambda>fs. used_buffers api (hd fs)),
     free_erasing = (\<lambda>fs. free_erasing api (hd fs)), free_writing = (\<lambda>fs. free_writing api (hd fs)),
     flash_mapped = (\<lambda>a n fs. flash_mapped api a n (hd fs))\<rparr>"

definition traced_ghost :: "'f nf_ghost \<Rightarrow> 'f list nf_ghost" where
  "traced_ghost g = \<lparr>nf_pend = (\<lambda>fs. nf_pend g (hd fs)), nf_view = (\<lambda>fs. nf_view g (hd fs)),
     nf_work = (\<lambda>fs. nf_work g (hd fs)), nf_hist = nf_hist g, nf_exact = nf_exact g, nf_twin = nf_twin g\<rparr>"

definition traced_env :: "'f nv_env \<Rightarrow> 'f list nv_env" where
  "traced_env env = \<lparr>nv_api = traced_api (nv_api env), crc32_c = crc32_c env, nv_encode = nv_encode env,
     nv_decode = nv_decode env, NV_EXTENSION_VALID_LEN = NV_EXTENSION_VALID_LEN env,
     userdata_start = userdata_start env, env_size = env_size env, default_peer = default_peer env,
     default_role = default_role env, gen_irk = gen_irk env, gen_csrk = gen_csrk env,
     ticks_max_ms = ticks_max_ms env\<rparr>"

lemma traced_env_simps [simp]:
  "nv_api (traced_env env) = traced_api (nv_api env)" "userdata_start (traced_env env) = userdata_start env"
  "NV_EXTENSION_VALID_LEN (traced_env env) = NV_EXTENSION_VALID_LEN env" "nv_encode (traced_env env) = nv_encode env"
  "nv_decode (traced_env env) = nv_decode env" "crc32_c (traced_env env) = crc32_c env"
  "nv_env_ok (traced_env env) = nv_env_ok env" "record_size (traced_env env) = record_size env"
  "stored_payload (traced_env env) = stored_payload env" "version (traced_env env) = version env"
  "nv_record_data_is_valid (traced_env env) = nv_record_data_is_valid env"
  by (auto simp: traced_env_def nv_env_ok_def record_size_def stored_payload_def version_def
      nv_record_data_is_valid_def Let_def fun_eq_iff)

lemma traced_ghost_simps [simp]:
  "nf_pend (traced_ghost g) fs = nf_pend g (hd fs)" "nf_view (traced_ghost g) fs = nf_view g (hd fs)"
  "nf_work (traced_ghost g) fs = nf_work g (hd fs)" "nf_hist (traced_ghost g) = nf_hist g"
  "nf_exact (traced_ghost g) = nf_exact g" "nf_twin (traced_ghost g) = nf_twin g"
  by (simp_all add: traced_ghost_def)

lemma traced_api_simps [simp]:
  "fst (norflash_api_erase (traced_api api) a n y fs) = fst (norflash_api_erase api a n y (hd fs))"
  "snd (norflash_api_erase (traced_api api) a n y fs) = snd (norflash_api_erase api a n y (hd fs)) # fs"
  "fst (norflash_api_write (traced_api api) a d fs) = fst (norflash_api_write api a d (hd fs))"
  "snd (norflash_api_write (traced_api api) a d fs) = snd (norflash_api_write api a d (hd fs)) # fs"
  "fst (norflash_api_register (traced_api api) a fs) = fst (norflash_api_register api a (hd fs))"
  "snd (norflash_api_register (traced_api api) a fs) = snd (norflash_api_register api a (hd fs)) # fs"
  "norflash_api_flush (traced_api api) fs = norflash_api_flush api (hd fs) # fs"
  "norflash_api_get_dev_id (traced_api api) fs = norflash_api_get_dev_id api (hd fs)"
  "norflash_api_read (traced_api api) a n fs = norflash_api_read api a n (hd fs)"
  "used_buffers (traced_api api) fs = used_buffers api (hd fs)"
  "free_erasing (traced_api api) fs = free_erasing api (hd fs)"
  "free_writing (traced_api api) fs = free_writing api (hd fs)"
  "flash_mapped (traced_api api) a n fs = flash_mapped api a n (hd fs)"
  by (simp_all add: traced_api_def case_prod_beta Let_def)

lemma traced_good [simp]:
  "rec_ok (traced_env env) (traced_ghost g) m = rec_ok env g m"
  "sector_good (traced_env env) (traced_ghost g) fs x = sector_good env g (hd fs) x"
  "some_good (traced_env env) (traced_ghost g) c fs = some_good env g c (hd fs)"
  "write_ok (traced_env env) (traced_ghost g) fs a d = write_ok env g (hd fs) a d"
  by (simp_all add: rec_ok_def sector_good_def some_good_def write_ok_def)

lemma traced_laws:
  assumes "norflash_laws api g A"
  shows "norflash_laws (traced_api api) (traced_ghost g) A"
proof -
  have req: "request_law (traced_ghost g) A a new fs r = request_law g A a new (hd fs) (fst r, hd (snd r))" for a new fs r
    by (simp add: request_law_def)
  show ?thesis unfolding norflash_laws_def
    using lawsD(2,3) [OF assms] lawsD(4-7) [OF assms] lawsD(8-11) [OF assms] lawsD(1) [OF assms]
    by (auto simp: req erased_def [symmetric] simp del: neq0_conv)
qed

section \<open>What the trace shows\<close>

text \<open>The valid records that are in flash, once the accepted operations are completed.\<close>

definition flash_records :: "'f nv_env \<Rightarrow> 'f nf_ghost \<Rightarrow> 'f \<Rightarrow> nv_payload set" where
  "flash_records env g f =
     {stored_payload env (nf_view g f x) | x. x \<in> nv_sectors env \<and> record_valid env (nf_view g f x)}"

definition trace_ok :: "'f nv_env \<Rightarrow> 'f nf_ghost \<Rightarrow> 'f list \<Rightarrow> bool" where
  "trace_ok env g fs \<longleftrightarrow>
     fs \<noteq> [] \<and> (\<forall>f\<in>set fs. some_good env g True f \<and> flash_records env g f \<subseteq> nf_hist g)"

lemma records_subset:
  "flash_records env g f \<subseteq> H \<longleftrightarrow>
     (\<forall>x\<in>nv_sectors env. record_valid env (nf_view g f x) \<longrightarrow> stored_payload env (nf_view g f x) \<in> H)"
  unfolding flash_records_def by blast

lemma erased_invalid: "\<not> record_valid env erased"
  by (simp add: nv_record_data_is_valid_def header_of_erased NV_EXTENSION_MAGIC_NUMBER_def Let_def)

text \<open>A request adds no record but the one that is written.\<close>

lemma request_records:
  assumes r: "request_law g (nv_sectors env) a new f r" and f: "flash_records env g f \<subseteq> H"
    and new: "record_valid env new \<Longrightarrow> stored_payload env new \<in> H"
  shows "flash_records env g (snd r) \<subseteq> H"
proof -
  have "nf_view g (snd r) x = new \<or> nf_view g (snd r) x = nf_view g f x" if "x \<in> nv_sectors env" for x
    using r that unfolding request_law_def by (metis (full_types))
  then show ?thesis using f new unfolding records_subset by metis
qed

lemma written_record:
  assumes env: "nv_env_ok env" and w: "write_ok env g f a d" and a: "a \<in> nv_sectors env"
    and f: "flash_records env g f \<subseteq> nf_hist g"
    and v: "record_valid env (nor_program d (nf_view g f a))"
  shows "stored_payload env (nor_program d (nf_view g f a)) \<in> nf_hist g"
proof (cases "nf_view g f a = erased")
  case True
  have "rec_ok env g (take (record_size env) (nor_program d erased))"
    using w program_record(1) [OF env, of d] by (simp add: write_ok_def)
  then show ?thesis using True rec_ok_take [of env "record_size env" g] by (simp add: rec_ok_def)
next
  case False
  then have "nor_program d (nf_view g f a) = nf_view g f a"
    using w by (intro program_same) (simp add: write_ok_def)
  then show ?thesis using f v a by (auto simp: records_subset)
qed

lemma traced_observes:
  assumes L: "nv_laws env g"
  shows "observes (traced_env env) (traced_ghost g) True (trace_ok env g)"
proof -
  have law: "norflash_laws (nv_api env) g (nv_sectors env)" and env: "nv_env_ok env" using L by simp_all
  have hd: "flash_records env g (hd fs) \<subseteq> nf_hist g" if "trace_ok env g fs" for fs
    using that by (cases fs) (auto simp: trace_ok_def)
  have e: "flash_records env g (snd (norflash_api_erase (nv_api env) a NV_EXTENSION_SIZE True f)) \<subseteq> nf_hist g"
    if "flash_records env g f \<subseteq> nf_hist g" "a \<in> nv_sectors env" for f a
    by (rule request_records [OF lawsD(2) [OF law that(2)] that(1)]) (simp add: erased_invalid)
  have w: "flash_records env g (snd (norflash_api_write (nv_api env) a d f)) \<subseteq> nf_hist g"
    if "flash_records env g f \<subseteq> nf_hist g" "a \<in> nv_sectors env" "write_ok env g f a d" for f a d
    by (rule request_records [OF lawsD(3) [OF law that(2)] that(1)])
      (rule written_record [OF env that(3,2,1)])
  have f: "flash_records env g (norflash_api_flush (nv_api env) f) \<subseteq> nf_hist g"
    if "flash_records env g f \<subseteq> nf_hist g" for f
    using that lawsD(5) [OF law] unfolding records_subset by metis
  have add: "trace_ok env g (f # fs)"
    if "trace_ok env g fs" "some_good env g True f" "flash_records env g f \<subseteq> nf_hist g" for f fs
    using that by (auto simp: trace_ok_def)
  show ?thesis unfolding observes_def Let_def
    by (intro allI impI conjI ballI) (use e w f hd add in \<open>simp_all only: traced_api_simps traced_good traced_env_simps list.sel\<close>)
qed

section \<open>Starting\<close>

lemma local_data_simps:
  "nv_flash (local_extension_data env rest sdk f) = f" "\<not> nvrec_init (local_extension_data env rest sdk f)"
  "\<not> nv_mpu_fault (local_extension_data env rest sdk f)"
  "nv_env_ok env \<Longrightarrow> header_ok env (nv_header (local_extension_data env rest sdk f))"
  by (simp_all add: local_extension_data_def zero_nv_state_def header_ok_def valid_len_word)

text \<open>The ghost state with a history and with what the invariant is to claim.\<close>

abbreviation claim_ghost :: "nv_payload set \<Rightarrow> bool \<Rightarrow> bool \<Rightarrow> 'f nf_ghost \<Rightarrow> 'f nf_ghost" where
  "claim_ghost H exact twin g \<equiv> g\<lparr>nf_hist := H, nf_exact := exact, nf_twin := twin\<rparr>"

text \<open>The contents of the mirror before a record is chosen.\<close>

abbreviation mirror0 :: "'f nv_env \<Rightarrow> nat \<Rightarrow> nat \<Rightarrow> 'f \<Rightarrow> nv_payload" where
  "mirror0 env rest sdk f \<equiv> nv_body (local_extension_data env rest sdk f)"

lemma boot_ends:
  assumes "boot_laws env g" and "flash_up env g f"
  shows "ends (\<lambda>n. nv_record_extension_init n env (local_extension_data env rest sdk f))
    (boot_done env (claim_ghost UNIV True False g) (local_extension_data env rest sdk f))"
  by (rule init_ends) (use assms in \<open>simp_all add: local_data_simps\<close>)

text \<open>
  Both copies are in place: the flush is idle with nothing marked, each sector has a valid record and no
  operation left, and the main sector has the contents \<open>b\<close>. \<open>copies_ok\<close>: these are the contents of the mirror.
  \<open>twins_ok\<close>: the backup has them too.
\<close>

definition copies_of :: "'f nv_env \<Rightarrow> 'f nf_ghost \<Rightarrow> nv_payload \<Rightarrow> 'f nv_state \<Rightarrow> bool" where
  "copies_of env g b s \<longleftrightarrow>
     fl s = NV_STATE_IDLE \<and> \<not> is_update (nv_flush_state s) \<and> \<not> nv_mpu_fault s \<and>
     (\<forall>x\<in>nv_sectors env. x \<notin> nf_pend g (nv_flash s) \<and> record_valid env (nf_view g (nv_flash s) x)) \<and>
     stored_payload env (nf_view g (nv_flash s) (main_sec env)) = nv_decode env (nv_encode env b)"

definition copies_ok :: "'f nv_env \<Rightarrow> 'f nf_ghost \<Rightarrow> 'f nv_state \<Rightarrow> bool" where
  "copies_ok env g s \<longleftrightarrow> copies_of env g (nv_body s) s"

definition twins_ok :: "'f nv_env \<Rightarrow> 'f nf_ghost \<Rightarrow> 'f nv_state \<Rightarrow> bool" where
  "twins_ok env g s \<longleftrightarrow>
     copies_ok env g s \<and>
     stored_payload env (nf_view g (nv_flash s) (bak_sec env)) = nv_decode env (nv_encode env (nv_body s))"

lemma idle_copies:
  assumes "flush_inv env g True s" and "fl s = NV_STATE_IDLE" and "\<not> is_update (nv_flush_state s)"
  shows "copies_ok env g s \<or> \<not> nf_exact g \<and> copies_of env g (unset_ble_addr (nv_body s)) s"
  using assms by (auto simp: copies_ok_def copies_of_def flush_inv_def base_inv_def phase_inv_def fresh_inv_def sector_good_def
      rec_ok_def holds_def Let_def)

lemma idle_twins:
  assumes "flush_inv env g True s" and "fl s = NV_STATE_IDLE" and "\<not> is_update (nv_flush_state s)"
    and "nf_exact g" and "nf_twin g"
  shows "twins_ok env g s"
proof -
  have "take (record_size env) (nf_view g (nv_flash s) (bak_sec env)) =
      take (record_size env) (nf_view g (nv_flash s) (main_sec env))"
    using assms by (simp add: flush_inv_def fresh_inv_def)
  then have "stored_payload env (nf_view g (nv_flash s) (bak_sec env)) =
      stored_payload env (nf_view g (nv_flash s) (main_sec env))"
    by (metis order_refl stored_take)
  then show ?thesis using idle_copies [OF assms(1-3)] assms(4) by (simp add: twins_ok_def copies_ok_def copies_of_def)
qed

lemma copies_hist [simp]:
  "copies_of env (g\<lparr>nf_hist := H\<rparr>) = copies_of env g" "copies_of env (g\<lparr>nf_exact := x\<rparr>) = copies_of env g"
  "copies_of env (g\<lparr>nf_twin := x\<rparr>) = copies_of env g" "copies_ok env (g\<lparr>nf_hist := H\<rparr>) = copies_ok env g"
  "copies_ok env (g\<lparr>nf_exact := x\<rparr>) = copies_ok env g" "copies_ok env (g\<lparr>nf_twin := x\<rparr>) = copies_ok env g"
  "twins_ok env (g\<lparr>nf_hist := H\<rparr>) = twins_ok env g" "twins_ok env (g\<lparr>nf_exact := x\<rparr>) = twins_ok env g"
  "twins_ok env (g\<lparr>nf_twin := x\<rparr>) = twins_ok env g"
  by (simp_all add: copies_of_def copies_ok_def twins_ok_def fun_eq_iff)

text \<open>
  C2: Start-up. Whatever the two sectors hold, \<open>nv_record_extension_init\<close> ends (the waiting loops with
  enough rounds), with the mirror holding the main copy if that is valid, else the backup if that
  is valid, else the default record; the flush is idle and not requested, nothing was written
  to the closed mirror, and both sectors hold a valid record, the main one that of the mirror.
\<close>

theorem boot_correct:
  assumes "boot_laws env g" and "flash_up env g f"
  shows "ends (\<lambda>n. nv_record_extension_init n env (local_extension_data env rest sdk f))
    (\<lambda>s. nvrec_init s \<and> \<not> nv_mpu_rw s \<and> copies_ok env g s \<and>
       nv_body s =
         (if record_valid env (nf_view g f (main_sec env)) then stored_payload env (nf_view g f (main_sec env))
          else if record_valid env (nf_view g f (bak_sec env)) then stored_payload env (nf_view g f (bak_sec env))
          else nv_default_body env NV_REBUILD_ALL (mirror0 env rest sdk f)))"
proof (rule ends_mono [OF boot_ends [OF assms]])
  fix s
  assume s: "boot_done env (claim_ghost UNIV True False g) (local_extension_data env rest sdk f) s"
  then have "copies_ok env g s" using idle_copies [of env "claim_ghost UNIV True False g" s] by (simp add: boot_done_def)
  with s show "nvrec_init s \<and> \<not> nv_mpu_rw s \<and> copies_ok env g s \<and>
       nv_body s =
         (if record_valid env (nf_view g f (main_sec env)) then stored_payload env (nf_view g f (main_sec env))
          else if record_valid env (nf_view g f (bak_sec env)) then stored_payload env (nf_view g f (bak_sec env))
          else nv_default_body env NV_REBUILD_ALL (mirror0 env rest sdk f))"
    by (simp add: boot_done_def boot_body_def local_data_simps)
qed

theorem boot_correct_witness:
  "ends (\<lambda>n. nv_record_extension_init n sim_env (local_extension_data sim_env 4 4 blank_flash))
    (\<lambda>s. nvrec_init s \<and> copies_ok sim_env sim_ghost s \<and>
       nv_body s = nv_default_body sim_env NV_REBUILD_ALL (mirror0 sim_env 4 4 blank_flash))"
  by (rule ends_mono [OF boot_correct [OF sim_boot_laws blank_up]])
    (use blank_invalid in \<open>auto simp: some_valid_def\<close>)

section \<open>Runs\<close>

text \<open>A state after start-up: idle, with well-formed tables.\<close>

definition nv_ready :: "'f nv_env \<Rightarrow> 'f nf_ghost \<Rightarrow> 'f nv_state \<Rightarrow> bool" where
  "nv_ready env g s \<longleftrightarrow>
     flush_inv env (claim_ghost UNIV False False g) True s \<and> fl s = NV_STATE_IDLE \<and> tables_ok s"

lemma run_inv:
  assumes L: "nv_laws env g" and O: "observes env g True Q"
  shows "successively (nv_step env) (s # ts) \<Longrightarrow> nv_inv env g Q s \<Longrightarrow> version env ` set ts \<subseteq> nf_hist g \<Longrightarrow>
     \<not> nf_exact g \<Longrightarrow> nv_inv env g Q (last (s # ts))"
proof (induction ts arbitrary: s)
  case (Cons t ts)
  have st: "nv_step env s t" and v: "version env t \<in> nf_hist g" and rest: "successively (nv_step env) (t # ts)"
    "version env ` set ts \<subseteq> nf_hist g" using Cons.prems(1,3) by simp_all
  show ?case using Cons.IH [OF rest(1) nv_step_inv [OF L O st Cons.prems(2) v Cons.prems(4)] rest(2) Cons.prems(4)] by simp
qed simp

lemma ready_inv:
  assumes "nv_ready env g s" and "flash_records env g (nv_flash s) \<subseteq> H" and "version env s \<in> H"
    and "Q (nv_flash s)"
  shows "nv_inv env (claim_ghost H False False g) Q s" and "sector_good env (g\<lparr>nf_hist := H\<rparr>) (nv_flash s) (bak_sec env)"
proof -
  have I: "flush_inv env (claim_ghost UNIV False False g) True s" "fl s = NV_STATE_IDLE" "tables_ok s"
    using assms(1) by (simp_all add: nv_ready_def)
  have good: "sector_good env (claim_ghost H False False g) (nv_flash s) x"
    if "sector_good env (claim_ghost UNIV False False g) (nv_flash s) x" "x \<in> nv_sectors env" for x
    using that assms(2) by (auto simp: sector_good_def rec_ok_def records_subset)
  then have b: "sector_good env (claim_ghost H False False g) (nv_flash s) (bak_sec env)"
    using I(1,2) by (simp add: flush_inv_def phase_inv_def)
  then show "sector_good env (g\<lparr>nf_hist := H\<rparr>) (nv_flash s) (bak_sec env)" by (simp add: sector_good_def rec_ok_def)
  have "base_inv env (claim_ghost H False False g) s"
    using I(1) assms(3) by (simp add: flush_inv_def base_inv_def version_def)
  moreover have "phase_inv env (claim_ghost H False False g) True s" using I(2) b by (simp add: phase_inv_def)
  moreover have "fresh_inv env (claim_ghost H False False g) s"
    using I(1,2) good by (auto simp: flush_inv_def fresh_inv_def holds_def)
  ultimately show "nv_inv env (claim_ghost H False False g) Q s" using I(3) assms(4) by (simp add: nv_inv_def flush_inv_def)
qed

section \<open>Loss of power\<close>

text \<open>
  The flash when power returns, after the driver went through the states \<open>fs\<close>, the last one
  first. A sector without pending operation is as it was. One with an interrupted operation
  holds anything that fails the check, or a content it had or was to have at some moment: a
  half-written record does not pass its checksum.
\<close>

definition power_loss :: "'f nv_env \<Rightarrow> 'f nf_ghost \<Rightarrow> 'f list \<Rightarrow> 'f \<Rightarrow> bool" where
  "power_loss env g fs f' \<longleftrightarrow>
     flash_up env g f' \<and>
     (\<forall>x\<in>nv_sectors env.
        (x \<notin> nf_pend g (hd fs) \<longrightarrow> nf_view g f' x = nf_view g (hd fs) x) \<and>
        (record_valid env (nf_view g f' x) \<longrightarrow> (\<exists>f\<in>set fs. nf_view g f' x = nf_view g f x)))"

lemma power_loss_boot:
  assumes t: "trace_ok env g fs" and p: "power_loss env g fs f'"
  shows "boot_body env g f' b \<in> nf_hist g"
proof -
  have "hd fs \<in> set fs" using t by (simp add: trace_ok_def)
  then obtain x where x: "x \<in> nv_sectors env" "sector_good env g (hd fs) x"
    using t unfolding trace_ok_def some_good_def by blast
  then have "record_valid env (nf_view g f' x)"
    using p by (auto simp: power_loss_def sector_good_def rec_ok_def)
  then have v: "some_valid env g f'" using x(1) by (auto simp: some_valid_def)
  have "stored_payload env (nf_view g f' y) \<in> nf_hist g"
    if "y \<in> nv_sectors env" "record_valid env (nf_view g f' y)" for y
  proof -
    have "record_valid env (nf_view g f' y) \<longrightarrow> (\<exists>f\<in>set fs. nf_view g f' y = nf_view g f y)"
      using p that(1) unfolding power_loss_def by meson
    with that(2) obtain f where "f \<in> set fs" "nf_view g f' y = nf_view g f y" by blast
    then show ?thesis using t that unfolding trace_ok_def records_subset by metis
  qed
  then show ?thesis using v by (auto simp: boot_body_def some_valid_def)
qed

lemma traced_hist [simp]:
  "(traced_ghost g)\<lparr>nf_hist := H\<rparr> = traced_ghost (g\<lparr>nf_hist := H\<rparr>)"
  "(traced_ghost g)\<lparr>nf_exact := x\<rparr> = traced_ghost (g\<lparr>nf_exact := x\<rparr>)"
  "(traced_ghost g)\<lparr>nf_twin := x\<rparr> = traced_ghost (g\<lparr>nf_twin := x\<rparr>)"
  by (simp_all add: traced_ghost_def)

lemma records_hist [simp]:
  "flash_records env (g\<lparr>nf_hist := H\<rparr>) f = flash_records env g f"
  "flash_records env (g\<lparr>nf_exact := x\<rparr>) f = flash_records env g f"
  "flash_records env (g\<lparr>nf_twin := x\<rparr>) f = flash_records env g f"
  "flash_records (traced_env env) (traced_ghost g) fs = flash_records env g (hd fs)"
  "power_loss env (g\<lparr>nf_hist := H\<rparr>) fs f' = power_loss env g fs f'"
  by (simp_all add: flash_records_def power_loss_def)

lemma trace_flags:
  "trace_ok env (g\<lparr>nf_exact := x\<rparr>) fs = trace_ok env g fs" "trace_ok env (g\<lparr>nf_twin := x\<rparr>) fs = trace_ok env g fs"
  by (simp_all add: trace_ok_def some_good_def sector_good_def rec_ok_def flash_records_def)

lemma run_trace_ok:
  assumes L: "nv_laws env g" and R: "nv_ready (traced_env env) (traced_ghost g) s0" and f: "nv_flash s0 = [f0]"
    and run: "successively (nv_step (traced_env env)) (s0 # ts)"
    and H: "H = flash_records env g f0 \<union> version env ` set (s0 # ts)"
  shows "trace_ok env (g\<lparr>nf_hist := H\<rparr>) (nv_flash (last (s0 # ts)))"
proof -
  let ?g = "claim_ghost H False False g"
  have L': "nv_laws env ?g" using L by simp
  have "flash_records (traced_env env) (traced_ghost g) (nv_flash s0) \<subseteq> H" "version (traced_env env) s0 \<in> H"
    using f H by auto
  note r = ready_inv [OF R this]
  have "some_good env ?g True f0"
    using r(2) [of "\<lambda>_. True"] f by (intro some_goodI [of _ _ _ _ "bak_sec env"]) (simp_all add: sector_good_def rec_ok_def)
  then have "trace_ok env ?g (nv_flash s0)" using f H by (auto simp: trace_ok_def)
  then have "nv_inv (traced_env env) (traced_ghost ?g) (trace_ok env ?g) s0" using r(1) by simp
  moreover have "nv_laws (traced_env env) (traced_ghost ?g)" 
    using L traced_laws [of "nv_api env" ?g "nv_sectors env"] by simp
  moreover have "version (traced_env env) ` set ts \<subseteq> nf_hist (traced_ghost ?g)" using H by auto
  moreover have "\<not> nf_exact (traced_ghost ?g)" by simp
  ultimately have "nv_inv (traced_env env) (traced_ghost ?g) (trace_ok env ?g) (last (s0 # ts))"
    using run_inv [OF _ traced_observes [OF L'] run] by blast
  then show ?thesis by (simp add: nv_inv_def trace_flags)
qed

text \<open>
  C1: Crash safety. The device starts from a state after start-up and runs any sequence of calls:
  edits of every section, background and waiting flushes, rebuilds. Power may fail after any
  driver call, in the middle of a flush too. Then the next start ends, idle, and the mirror
  holds a record that the flash had at the beginning or that the mirror had at some point of the
  run: never a mixture and never the defaults.
\<close>

theorem power_loss_recovers:
  assumes "boot_laws env g" and "nv_ready (traced_env env) (traced_ghost g) s0" and "nv_flash s0 = [f0]"
    and "successively (nv_step (traced_env env)) (s0 # ts)"
    and "k < length (nv_flash (last (s0 # ts)))"
    and "power_loss env g (drop k (nv_flash (last (s0 # ts)))) f'"
  shows "ends (\<lambda>n. nv_record_extension_init n env (local_extension_data env rest sdk f'))
    (\<lambda>s'. copies_ok env g s' \<and> nv_body s' \<in> flash_records env g f0 \<union> version env ` set (s0 # ts))"
proof -
  let ?fs = "nv_flash (last (s0 # ts))" and ?H = "flash_records env g f0 \<union> version env ` set (s0 # ts)"
  have t: "trace_ok env (g\<lparr>nf_hist := ?H\<rparr>) ?fs"
    using run_trace_ok [OF _ assms(2-4) refl] assms(1) by blast
  then have "trace_ok env (g\<lparr>nf_hist := ?H\<rparr>) (drop k ?fs)"
    using assms(5) unfolding trace_ok_def by (auto dest: in_set_dropD simp del: last.simps)
  then have b: "boot_body env g f' b \<in> ?H" for b
    using power_loss_boot [of env "g\<lparr>nf_hist := ?H\<rparr>" "drop k ?fs" f' b] assms(6) by simp
  have up: "flash_up env g f'" using assms(6) by (simp add: power_loss_def)
  show ?thesis
  proof (rule ends_mono [OF boot_ends [OF assms(1) up]])
    fix s
    assume s: "boot_done env (claim_ghost UNIV True False g) (local_extension_data env rest sdk f') s"
    then have "copies_ok env g s" using idle_copies [of env "claim_ghost UNIV True False g" s] by (simp add: boot_done_def)
    with s b show "copies_ok env g s \<and> nv_body s \<in> ?H" by (simp add: boot_done_def local_data_simps)
  qed
qed

text \<open>A device with the simulated driver, right after its first start.\<close>

lemma traced_register:
  "register_law api g A \<Longrightarrow> register_law (traced_api api) (traced_ghost g) A"
  by (simp add: register_law_def)

lemma default_tables:
  assumes "nv_body s = nv_default_body env NV_REBUILD_ALL b" and "nvrecord_extension_p s" "\<not> nv_mpu_fault s" "\<not> nv_mpu_rw s"
  shows "tables_ok s"
proof -
  have "ble_info_ok (nvrecord_rebuild_paired_ble_dev_info env)"
    by (simp add: nvrecord_rebuild_paired_ble_dev_info_def ble_info_ok_def zero_ble_paired_info_def ble_used_def)
  moreover have "bt_info_ok (nvrecord_rebuild_paired_bt_dev_info i)" for i
    by (simp add: nvrecord_rebuild_paired_bt_dev_info_def) (simp add: zero_paired_bt_info_def bt_info_ok_def bt_used_def)
  ultimately show ?thesis
    using assms by (simp add: tables_ok_def bt_safe_def bt_invar_def nv_default_body_def nvrecord_rebuild_sdk_info_def
        nv_zeroed_def zero_nv_payload_def Let_def split: option.split)
qed

lemma flush_inv_hd:
  assumes "flush_inv (traced_env env) (traced_ghost g) c s"
  shows "flush_inv (traced_env env) (traced_ghost g) c (s\<lparr>nv_flash := [hd (nv_flash s)]\<rparr>)"
  using assms by (cases "fl s") (simp_all add: flush_inv_def base_inv_def phase_inv_def fresh_inv_def holds_def
      header_ok_def Let_def)

lemma exact_inv:
  "flush_inv env (claim_ghost H True t g) c s \<Longrightarrow> flush_inv env (claim_ghost H False t g) c s"
  by (cases "fl s") (auto simp: flush_inv_def base_inv_def phase_inv_def fresh_inv_def holds_def sector_good_def rec_ok_def
      some_good_def Let_def)

lemma demo_ready:
  obtains s0 :: "sim_flash list nv_state" and f0 where "nv_ready (traced_env sim_env) (traced_ghost sim_ghost) s0"
    and "nv_flash s0 = [f0]" and "flash_up sim_env sim_ghost f0"
proof -
  let ?env = "traced_env sim_env" and ?g = "traced_ghost sim_ghost"
  have "boot_laws ?env ?g"
    using sim_boot_laws traced_laws [of "nv_api sim_env" sim_ghost "nv_sectors sim_env"]
      traced_register [of "nv_api sim_env" sim_ghost "nv_sectors sim_env"] by simp
  moreover have "flash_up ?env ?g [blank_flash]" using blank_up by (simp add: flash_up_def)
  ultimately obtain N s where
    "boot_done ?env (claim_ghost UNIV True False ?g) (local_extension_data ?env 4 4 [blank_flash]) s"
    using boot_ends [of ?env ?g "[blank_flash]" 4 4] unfolding ends_def by blast
  note s = this [unfolded boot_done_def]
  let ?s = "s\<lparr>nv_flash := [hd (nv_flash s)]\<rparr>"
  have I: "flush_inv ?env (claim_ghost UNIV True False ?g) True s" "fl s = NV_STATE_IDLE" "\<not> is_update (nv_flush_state s)"
    using s by auto
  have b: "\<not> some_valid ?env (claim_ghost UNIV True False ?g) [blank_flash]" using blank_invalid by (simp add: some_valid_def)
  have "nv_body s = nv_default_body ?env NV_REBUILD_ALL (mirror0 ?env 4 4 [blank_flash])"
    using s b by (auto simp: boot_body_def some_valid_def local_data_simps)
  then have "tables_ok ?s"
    using I s by (intro default_tables [of ?s ?env]) (auto simp: flush_inv_def base_inv_def)
  then have "nv_ready ?env ?g ?s"
    using exact_inv [OF I(1)] flush_inv_hd [of sim_env "claim_ghost UNIV False False sim_ghost" True s] I(2)
    by (simp add: nv_ready_def)
  moreover have "flash_up sim_env sim_ghost (hd (nv_flash s))"
    using I by (auto simp: flush_inv_def phase_inv_def fresh_inv_def sector_good_def flash_up_def Let_def)
  ultimately show ?thesis using that [of ?s] by simp
qed

theorem power_loss_recovers_witness:
  "\<exists>s0 s1 f'. nv_step (traced_env sim_env) s0 s1 \<and> power_loss sim_env sim_ghost (nv_flash s1) f' \<and>
     ends (\<lambda>n. nv_record_extension_init n sim_env (local_extension_data sim_env 4 4 f'))
       (\<lambda>s'. copies_ok sim_env sim_ghost s')"
proof -
  obtain s0 f0 where s0: "nv_ready (traced_env sim_env) (traced_ghost sim_ghost) s0" "nv_flash s0 = [f0]"
    "flash_up sim_env sim_ghost f0" by (rule demo_ready)
  let ?s1 = "nv_record_set_tws_enable s0"
  have st: "nv_step (traced_env sim_env) s0 ?s1" by (rule nv_step.env [OF env_step.enable])
  have f1: "nv_flash ?s1 = [f0]"
    using env_step_frame [OF env_step.enable [of UNIV s0]] s0(2) by (simp add: env_frame_def bt_tracked_def nv_core_def)
  have p: "power_loss sim_env sim_ghost (nv_flash ?s1) f0" using s0(3) f1 by (simp add: power_loss_def)
  have "ends (\<lambda>n. nv_record_extension_init n sim_env (local_extension_data sim_env 4 4 f0))
    (\<lambda>s'. copies_ok sim_env sim_ghost s' \<and>
       nv_body s' \<in> flash_records sim_env sim_ghost f0 \<union> version sim_env ` set (s0 # [?s1]))"
    by (rule power_loss_recovers [OF sim_boot_laws s0(1,2), of "[?s1]" 0]) (use st p f1 in simp_all)
  then have "ends (\<lambda>n. nv_record_extension_init n sim_env (local_extension_data sim_env 4 4 f0))
    (\<lambda>s'. copies_ok sim_env sim_ghost s')" by (rule ends_mono) simp
  with st p show ?thesis by blast
qed

end
