(* ===== verification/NvProgress.thy ===== *)
theory NvProgress
  imports NvCrash
begin

text \<open>
  What the flush achieves from every state that a run can reach: the background flush drains the
  mirror in finitely many rounds, the waiting flush and the rebuild end with both copies in
  place, and the sleep hook reports its progress truthfully. Also the record's round trip through
  its bytes and the interval timer.
\<close>

section \<open>Reachable states\<close>

definition nv_reachable :: "'f nv_env \<Rightarrow> 'f nf_ghost \<Rightarrow> 'f nv_state \<Rightarrow> bool" where
  "nv_reachable env g s \<longleftrightarrow>
     (\<exists>s0 ts. nv_ready env g s0 \<and> successively (nv_step env) (s0 # ts) \<and> s = last (s0 # ts))"

lemma reachable_inv:
  assumes L: "nv_laws env g" and R: "nv_reachable env g s"
  shows "nv_inv env (claim_ghost UNIV False False g) (\<lambda>_. True) s"
proof -
  obtain s0 ts where s0: "nv_ready env g s0" "successively (nv_step env) (s0 # ts)" "s = last (s0 # ts)"
    using R by (auto simp: nv_reachable_def simp del: last.simps)
  have L': "nv_laws env (claim_ghost UNIV False False g)" using L by simp
  have "nv_inv env (claim_ghost UNIV False False g) (\<lambda>_. True) s0"
    using ready_inv(1) [OF s0(1), of UNIV "\<lambda>_. True"] by simp
  from run_inv [OF L' observes_all s0(2) this] show ?thesis using s0(3) by simp
qed

text \<open>
  What a complete flush that starts in \<open>s\<close> leaves in \<open>s'\<close>. If the mirror was marked, both sectors have exactly its
  record. If nothing was marked, the main sector has the record of the mirror, or that record with the own
  BLE address unset: \<open>nv_record_blerec_init\<close> fills in that address without a mark.
\<close>

definition flushed :: "'f nv_env \<Rightarrow> 'f nf_ghost \<Rightarrow> 'f nv_state \<Rightarrow> 'f nv_state \<Rightarrow> bool" where
  "flushed env g s s' \<longleftrightarrow>
     nv_body s' = nv_body s \<and>
     (if is_update (nv_flush_state s) then twins_ok env g s'
      else copies_ok env g s' \<or> copies_of env g (unset_ble_addr (nv_body s)) s')"

text \<open>With a mark the invariant holds with all that it can claim: it claims nothing of the flash yet.\<close>

lemma marked_inv:
  "flush_inv env (claim_ghost H x t g) c s \<Longrightarrow> is_update (nv_flush_state s) \<Longrightarrow> flush_inv env (claim_ghost H x' t' g) c s"
  by (cases "fl s") (simp_all add: flush_inv_def base_inv_def phase_inv_def fresh_inv_def sector_good_def rec_ok_def Let_def)

definition full_claim :: "'f nv_state \<Rightarrow> 'f nf_ghost \<Rightarrow> 'f nf_ghost" where
  "full_claim s g = claim_ghost UNIV (is_update (nv_flush_state s)) (is_update (nv_flush_state s)) g"

lemma reachable_claim:
  assumes "nv_laws env g" and "nv_reachable env g s"
  shows "nv_laws env (full_claim s g)" and "flush_inv env (full_claim s g) True s"
proof -
  have "flush_inv env (claim_ghost UNIV False False g) True s" using reachable_inv [OF assms] by (simp add: nv_inv_def)
  then show "flush_inv env (full_claim s g) True s"
    by (cases "is_update (nv_flush_state s)") (simp_all add: full_claim_def marked_inv)
  show "nv_laws env (full_claim s g)" using assms(1) by (simp add: full_claim_def)
qed

lemma claim_flushed:
  assumes "flush_inv env (full_claim s g) True s'" and "fl s' = NV_STATE_IDLE" and "\<not> is_update (nv_flush_state s')"
    and "nv_body s' = nv_body s"
  shows "flushed env g s s'"
  using idle_copies [OF assms(1-3)] idle_twins [OF assms(1-3)] assms(4)
  by (auto simp: flushed_def full_claim_def)

section \<open>The background flush\<close>

fun background :: "nat \<Rightarrow> 'f nv_env \<Rightarrow> u32 \<Rightarrow> 'f nv_state \<Rightarrow> 'f nv_state nv_out" where
  "background 0 env now s = NvDone s"
| "background (Suc k) env now s = nv_bind (nv_record_execute_async_flush env now s) (background k env now)"

lemma async_round:
  assumes L: "nv_laws env g" and I: "flush_inv env g True s"
    and st: "\<not> (fl s = NV_STATE_IDLE \<and> \<not> is_update (nv_flush_state s))"
  shows "\<exists>s'. nv_record_execute_async_flush env now s = NvDone s' \<and> flush_inv env g True s' \<and>
    nv_body s' = nv_body s \<and> flush_progress g s' s"
proof -
  obtain ret s1 where "extension_flush_async env s = NvDone (ret, s1)" "flush_inv env g True s1"
    "nv_body s1 = nv_body s" "flush_progress g s1 s"
    using extension_flush_async_step [OF L observes_all I TrueI st] by (auto simp: step_ok_def)
  then show ?thesis
    by (simp add: nv_record_execute_async_flush_def nv_record_extension_flush_def)
      (simp add: nv_record_reset_flush_checkpoint_def flush_progress_def)
qed

lemma background_drains:
  assumes L: "nv_laws env g"
  shows "flush_inv env g True s \<Longrightarrow>
    \<exists>k s'. background k env now s = NvDone s' \<and> flush_inv env g True s' \<and> fl s' = NV_STATE_IDLE \<and>
      \<not> is_update (nv_flush_state s') \<and> nv_body s' = nv_body s"
proof (induction s rule: wf_induct [OF wf_measures
    [of "[\<lambda>s. fl_rank (nv_flush_state s), \<lambda>s. nf_work g (nv_flash s)]"]])
  case (1 s)
  show ?case
  proof (cases "fl s = NV_STATE_IDLE \<and> \<not> is_update (nv_flush_state s)")
    case True
    have "background 0 env now s = NvDone s" by simp
    then show ?thesis using True 1(2) by blast
  next
    case False
    then obtain s1 where s1: "nv_record_execute_async_flush env now s = NvDone s1" "flush_inv env g True s1"
      "nv_body s1 = nv_body s" "flush_progress g s1 s"
      using async_round [OF L 1(2)] by blast
    have "(s1, s) \<in> measures [\<lambda>s. fl_rank (nv_flush_state s), \<lambda>s. nf_work g (nv_flash s)]"
      using s1(4) by (auto simp: flush_progress_def)
    then obtain k s' where k: "background k env now s1 = NvDone s'" "flush_inv env g True s'" "fl s' = NV_STATE_IDLE"
      "\<not> is_update (nv_flush_state s')" "nv_body s' = nv_body s1"
      using 1(1) s1(2) by blast
    have "background (Suc k) env now s = NvDone s'" using s1(1) k(1) by simp
    then show ?thesis using k(2-5) s1(3) by metis
  qed
qed

text \<open>
  C3: The background flush makes progress. From every state that a run reaches, finitely many
  rounds of \<open>nv_record_execute_async_flush\<close> lead to the idle state with nothing left to do and the
  mirror unchanged. If a change was marked, both sectors then have the record of the mirror. If none
  was marked, both have a valid record and the main one that of the mirror, except that the own BLE
  address may be unset in it, since \<open>nv_record_blerec_init\<close> does not mark it.
\<close>

theorem background_flush_drains:
  assumes "nv_laws env g" and "nv_reachable env g s"
  shows "\<exists>k s'. background k env now s = NvDone s' \<and> flushed env g s s'"
  using background_drains [OF reachable_claim [OF assms], of now] claim_flushed by blast

text \<open>A reachable state of the simulated device that has a change to flush.\<close>

lemma demo_reachable:
  obtains s :: "sim_flash list nv_state" where
    "nv_reachable (traced_env sim_env) (traced_ghost sim_ghost) s" and "is_update (nv_flush_state s)"
proof -
  obtain s0 f0 where s0: "nv_ready (traced_env sim_env) (traced_ghost sim_ghost) s0"
    using demo_ready by blast
  let ?s1 = "nv_record_set_tws_enable s0"
  have p: "nvrecord_extension_p s0" using s0 by (simp add: nv_ready_def tables_ok_def bt_safe_def bt_invar_def)
  have "nv_step (traced_env sim_env) s0 ?s1" by (rule nv_step.env [OF env_step.enable])
  then have "nv_reachable (traced_env sim_env) (traced_ghost sim_ghost) ?s1"
    using s0 unfolding nv_reachable_def by (intro exI [of _ s0] exI [of _ "[?s1]"]) simp
  moreover have "is_update (nv_flush_state ?s1)"
    using p by (simp add: nv_record_set_tws_enable_def env_store_def nv_ops Let_def)
  ultimately show ?thesis using that by blast
qed

lemma traced_sim_laws: "nv_laws (traced_env sim_env) (traced_ghost sim_ghost)"
  using sim_boot_laws traced_laws [of "nv_api sim_env" sim_ghost "nv_sectors sim_env"] by simp

theorem background_flush_drains_witness:
  "\<exists>s k s'. is_update (nv_flush_state s) \<and> background k (traced_env sim_env) 5 s = NvDone s' \<and>
     twins_ok (traced_env sim_env) (traced_ghost sim_ghost) s'"
proof -
  obtain s where s: "nv_reachable (traced_env sim_env) (traced_ghost sim_ghost) s" "is_update (nv_flush_state s)"
    by (rule demo_reachable)
  from background_flush_drains [OF traced_sim_laws s(1), of 5] s(2) show ?thesis unfolding flushed_def by (metis (full_types))
qed

section \<open>The waiting flush and the rebuild\<close>

lemma flash_flush_ends:
  assumes L: "nv_laws env g" and I: "flush_inv env g True s"
  shows "ends (\<lambda>n. nv_record_flash_flush n env now s)
    (\<lambda>s'. flush_inv env g True s' \<and> fl s' = NV_STATE_IDLE \<and> \<not> is_update (nv_flush_state s') \<and>
       nv_body s' = nv_body s \<and> lastFlushCheckPointInMs s' = now)"
  unfolding nv_record_flash_flush_def nv_record_extension_flush_def if_False
proof (rule ends_bind [OF extension_flush_sync_ends [OF L observes_all I TrueI]])
  fix r :: "int \<times> 'a nv_state"
  assume "sync_ok env g True (\<lambda>_. True) NV_STATE_IDLE False s (snd r)"
  then have r: "flush_inv env g True (nv_record_reset_flush_checkpoint now (snd r))" "fl (snd r) = NV_STATE_IDLE"
    "\<not> is_update (nv_flush_state (snd r))" "nv_body (snd r) = nv_body s" by (auto simp: sync_ok_def)
  then show "ends (\<lambda>n. case r of (_, s) \<Rightarrow> NvDone (nv_record_reset_flush_checkpoint now s))
    (\<lambda>s'. flush_inv env g True s' \<and> fl s' = NV_STATE_IDLE \<and> \<not> is_update (nv_flush_state s') \<and>
       nv_body s' = nv_body s \<and> lastFlushCheckPointInMs s' = now)"
    by (auto intro!: ends_done simp: case_prod_beta) (simp_all add: nv_record_reset_flush_checkpoint_def)
qed

text \<open>
  C4: \<open>nv_record_flash_flush\<close> terminates. From every state that a run reaches, also in the middle of a
  background flush, it returns, whatever number of rounds above some bound its loops are given; then
  nothing is left to flush, the mirror is unchanged and the interval starts anew. If a change was
  marked, both sectors have the record of the mirror. If none was marked, both have a valid record and
  the main one that of the mirror, except that the own BLE address may be unset in it.
\<close>

theorem flash_flush_terminates:
  assumes "nv_laws env g" and "nv_reachable env g s"
  shows "\<exists>N s'. (\<forall>n\<ge>N. nv_record_flash_flush n env now s = NvDone s') \<and>
    flushed env g s s' \<and> lastFlushCheckPointInMs s' = now"
proof -
  have "ends (\<lambda>n. nv_record_flash_flush n env now s) (\<lambda>s'. flushed env g s s' \<and> lastFlushCheckPointInMs s' = now)"
    by (rule ends_mono [OF flash_flush_ends [OF reachable_claim [OF assms]]]) (simp add: claim_flushed)
  then show ?thesis by (simp add: ends_def)
qed

theorem flash_flush_terminates_witness:
  "\<exists>s N s'. is_update (nv_flush_state s) \<and> (\<forall>n\<ge>N. nv_record_flash_flush n (traced_env sim_env) 7 s = NvDone s') \<and>
     twins_ok (traced_env sim_env) (traced_ghost sim_ghost) s'"
proof -
  obtain s where s: "nv_reachable (traced_env sim_env) (traced_ghost sim_ghost) s" "is_update (nv_flush_state s)"
    by (rule demo_reachable)
  from flash_flush_terminates [OF traced_sim_laws s(1), of 7] s(2) show ?thesis unfolding flushed_def by (metis (full_types))
qed

text \<open>
  C9: The factory reset at run time. From every state that a run reaches, \<open>nv_record_rebuild\<close> returns
  with an empty classic table, an empty BLE table with newly generated keys and no identity of
  the other earbud; the stashed table, the application mode and the audio calibration of the factory test
  (\<open>adda_test\<close>) are kept; nothing is left to flush, and the new record is in both sectors.
\<close>

theorem rebuild_correct:
  assumes "nv_laws env g" and "nv_reachable env g s"
  shows "ends (\<lambda>n. nv_record_rebuild n env now ty s)
    (\<lambda>s'. twins_ok env g s' \<and> bt_view s' = [] \<and> ble_view s' = [] \<and>
       ble_irk (self_info (ble_info s')) = gen_irk env \<and> ble_csrk (self_info (ble_info s')) = gen_csrk env \<and>
       tws_ble_info (nv_body s') = zero_ble_basic_info \<and>
       bt_pair_info_cache (nv_body s') = bt_pair_info_cache (nv_body s) \<and>
       app_mode (nv_body s') = app_mode (nv_body s) \<and> adda_test (nv_body s') = adda_test (nv_body s))"
proof -
  let ?r = "rebuilt env ty s"
  have I: "nv_inv env (claim_ghost UNIV False False g) (\<lambda>_. True) s" by (rule reachable_inv [OF assms])
  then have p: "nvrecord_extension_p s" using tables_flags by (auto simp: nv_inv_def)
  have m: "is_update (nv_flush_state ?r)" by (simp add: rebuilt_simps)
  have "flush_inv env (claim_ghost UNIV False False g) True ?r"
    using rebuilt_inv [OF _ I, of ty] assms(1) by (simp add: nv_inv_def)
  then have F: "flush_inv env (full_claim ?r g) True ?r" using m by (simp add: full_claim_def marked_inv)
  have L: "nv_laws env (full_claim ?r g)" using assms(1) by (simp add: full_claim_def)
  have "ends (\<lambda>n. nv_record_flash_flush n env now ?r) (flushed env g ?r)"
    by (rule ends_mono [OF flash_flush_ends [OF L F]]) (use claim_flushed in blast)
  then show ?thesis
    unfolding rebuild_unfold [OF p]
    by (rule ends_mono) (simp add: flushed_def m rebuilt_simps nv_reset_body_def Let_def bt_view_def bt_used_def
        ble_view_def ble_used_def nvrecord_rebuild_paired_bt_dev_info_def nvrecord_rebuild_paired_ble_dev_info_def)
qed

theorem rebuild_correct_witness:
  "\<exists>s. is_update (nv_flush_state s) \<and> ends (\<lambda>n. nv_record_rebuild n (traced_env sim_env) 7 NV_REBUILD_ALL s)
     (\<lambda>s'. twins_ok (traced_env sim_env) (traced_ghost sim_ghost) s' \<and> bt_view s' = [] \<and> ble_irk (self_info (ble_info s')) = replicate 16 1)"
proof -
  obtain s where s: "nv_reachable (traced_env sim_env) (traced_ghost sim_ghost) s" "is_update (nv_flush_state s)"
    by (rule demo_reachable)
  have "gen_irk (traced_env sim_env) = replicate 16 1" by (simp add: traced_env_def sim_env_def)
  then have "ends (\<lambda>n. nv_record_rebuild n (traced_env sim_env) 7 NV_REBUILD_ALL s)
     (\<lambda>s'. twins_ok (traced_env sim_env) (traced_ghost sim_ghost) s' \<and> bt_view s' = [] \<and> ble_irk (self_info (ble_info s')) = replicate 16 1)"
    by (intro ends_mono [OF rebuild_correct [OF traced_sim_laws s(1)]]) simp
  with s(2) show ?thesis by blast
qed

section \<open>The sleep hook\<close>

text \<open>
  C10: The hook before sleep, \<open>nv_record_flash_flush_in_sleep\<close>, always returns from a reachable state, and
  its result tells the power management the truth: it is 0 exactly if the flush is idle and
  either nothing is marked or the call did nothing because the interval has not passed. A call
  that does something is one step of the flush, and no call changes the mirror.
\<close>

theorem sleep_hook_correct:
  assumes "nv_laws env g" and "nv_reachable env g s"
  shows "\<exists>r s'. nv_record_flash_flush_in_sleep env now now2 s = NvDone (r, s') \<and>
    nv_body s' = nv_body s \<and>
    (r = 0 \<longleftrightarrow> fl s' = NV_STATE_IDLE \<and>
       (\<not> is_update (nv_flush_state s') \<or> s' = s \<and> \<not> nv_record_is_timer_expired_to_check env now s)) \<and>
    (s' = s \<or> nv_record_execute_async_flush env now2 s = NvDone s')"
proof (cases "fl s = NV_STATE_IDLE \<and> \<not> nv_record_is_timer_expired_to_check env now s")
  case True
  then show ?thesis by (simp add: nv_record_flash_flush_in_sleep_def)
next
  case False
  have L: "nv_laws env (claim_ghost UNIV False False g)" using assms(1) by simp
  have I: "flush_inv env (claim_ghost UNIV False False g) True s" using reachable_inv [OF assms] by (simp add: nv_inv_def)
  show ?thesis
  proof (cases "fl s = NV_STATE_IDLE \<and> \<not> is_update (nv_flush_state s)")
    case True
    then show ?thesis using False
      by (auto simp: nv_record_flash_flush_in_sleep_def nv_record_execute_async_flush_def nv_record_extension_flush_def
          extension_flush_async_def nv_record_reset_flush_checkpoint_def)
  next
    case busy: False
    obtain s1 where s1: "nv_record_execute_async_flush env now2 s = NvDone s1" "nv_body s1 = nv_body s"
      "flush_progress (claim_ghost UNIV False False g) s1 s"
      using async_round [OF L I busy, of now2] by blast
    have "s1 \<noteq> s" using s1(3) by (auto simp: flush_progress_def)
    then show ?thesis using False s1(1,2) by (simp add: nv_record_flash_flush_in_sleep_def)
  qed
qed

theorem sleep_hook_correct_witness:
  "\<exists>s r s'. is_update (nv_flush_state s) \<and>
     nv_record_flash_flush_in_sleep (traced_env sim_env) 1200001 5 s = NvDone (r, s') \<and> nv_body s' = nv_body s"
proof -
  obtain s where s: "nv_reachable (traced_env sim_env) (traced_ghost sim_ghost) s" "is_update (nv_flush_state s)"
    by (rule demo_reachable)
  from sleep_hook_correct [OF traced_sim_laws s(1), of 1200001 5] s(2) show ?thesis by blast
qed

section \<open>The record in flash\<close>

text \<open>
  C32: Round trip of the record. For a mirror whose contents are those of some bytes, as every
  mirror's in memory are, \<open>flush_main_prepare\<close> leaves in the buffer that is burnt a record that, followed by
  anything, is accepted by both checks; its header is the one of the mirror with the new checksum, and
  \<open>load_copy\<close>, with which a start takes a record, brings back exactly the items that were in the mirror.
\<close>

theorem record_roundtrip:
  assumes "nv_env_ok env" and "header_ok env (nv_header s)" and "nv_body s = nv_decode env m"
  shows "\<exists>s'. flush_main_prepare env s = NvDone s' \<and> nv_body s' = nv_body s \<and>
    nv_header s' = (nv_header s)\<lparr>crc32 := crc32_c env (nv_encode env (nv_body s))\<rparr> \<and>
    (\<forall>pad. nv_record_data_is_valid env (nv_burn_buf s' @ pad) \<and>
       nv_record_is_crc_check_pass env (nv_burn_buf s' @ pad) \<and>
       header_of (nv_burn_buf s' @ pad) = nv_header s' \<and>
       (\<forall>t. nv_mpu_rw t \<longrightarrow> nv_body (load_copy env (nv_burn_buf s' @ pad) t) = nv_body s))"
proof -
  let ?h = "(nv_header s)\<lparr>crc32 := crc32_c env (nv_encode env (nv_body s))\<rparr>"
  have len: "length (nv_encode env (nv_body s)) = NV_EXTENSION_VALID_LEN env"
    "NV_EXTENSION_VALID_LEN env < NV_EXTENSION_SIZE - NV_EXTENSION_HEADER_SIZE"
    and same: "nv_decode env (nv_encode env (nv_body s)) = nv_body s"
    using assms(1,3) by (simp_all add: nv_env_ok_def)
  have hok: "header_ok env ?h" using assms(2) by simp
  have "record_valid env (record_image env ?h (nv_body s))" by (rule image_valid [OF assms(1) hok]) (simp add: len)
  then obtain s' where s': "flush_main_prepare env s = NvDone s'" "nv_body s' = nv_body s" "nv_header s' = ?h"
    "nv_burn_buf s' = record_image env ?h (nv_body s)"
    using len by (simp add: flush_main_prepare_def Let_def nv_ops set_fl_def)
  have im: "record_image env ?h (nv_body s) @ pad = header_bytes ?h @ nv_encode env (nv_body s) @ pad" for pad
    by (simp add: record_image_def)
  have h: "header_of (nv_burn_buf s' @ pad) = ?h" for pad using s'(4) by (simp add: im header_of_bytes)
  have d: "drop NV_EXTENSION_HEADER_SIZE (nv_burn_buf s' @ pad) = nv_encode env (nv_body s) @ pad" for pad
    using s'(4) by (simp add: im NV_EXTENSION_HEADER_SIZE_def)
  have "nv_record_data_is_valid env (nv_burn_buf s' @ pad) \<and> nv_record_is_crc_check_pass env (nv_burn_buf s' @ pad) \<and>
      stored_payload env (nv_burn_buf s' @ pad) = nv_body s" for pad
    using hok len same
    by (simp add: nv_record_data_is_valid_def nv_record_is_crc_check_pass_def stored_payload_def h d header_ok_def Let_def
        del: drop_append)
  then show ?thesis using s'(1-3) h load_copy_simps(1) by metis
qed

theorem record_roundtrip_witness:
  "\<exists>s'. flush_main_prepare sim_env ((local_extension_data sim_env 4 4 blank_flash)
       \<lparr>nv_body := nv_decode sim_env [7]\<rparr>) = NvDone s' \<and>
     nv_record_data_is_valid sim_env (nv_burn_buf s' @ [1, 2]) \<and> language (system_info (nv_body s')) = 7"
proof -
  let ?s = "(local_extension_data sim_env 4 4 blank_flash)\<lparr>nv_body := nv_decode sim_env [7]\<rparr>"
  have "header_ok sim_env (nv_header ?s)" using local_data_simps(4) [OF sim_env_ok, of 4 4 blank_flash] by simp
  then obtain s' where "flush_main_prepare sim_env ?s = NvDone s'" "nv_body s' = nv_body ?s"
    "nv_record_data_is_valid sim_env (nv_burn_buf s' @ [1, 2])"
    using record_roundtrip [OF sim_env_ok, of ?s "[7]"] by auto
  then show ?thesis by (simp add: sim_env_def)
qed

text \<open>
  C33: The two checks agree on what they both check. A record that \<open>nv_record_data_is_valid\<close> accepts
  passes \<open>nv_record_is_crc_check_pass\<close>, unless its length is the largest one; the converse holds for
  records of this major version that are not longer than this firmware's record.
\<close>

theorem validity_checks_agree:
  assumes "unat (validLen (header_of m)) < NV_EXTENSION_SIZE - NV_EXTENSION_HEADER_SIZE"
  shows "nv_record_data_is_valid env m \<longleftrightarrow>
    nv_record_is_crc_check_pass env m \<and> majorVersion (header_of m) = NV_EXTENSION_MAJOR_VERSION \<and>
    unat (validLen (header_of m)) \<le> NV_EXTENSION_VALID_LEN env"
  using assms by (auto simp: nv_record_data_is_valid_def nv_record_is_crc_check_pass_def Let_def)

theorem validity_checks_agree_witness:
  "nv_record_is_crc_check_pass sim_env
     (record_image sim_env (nv_default_header sim_env zero_nv_payload) zero_nv_payload)"
proof -
  let ?h = "nv_default_header sim_env zero_nv_payload"
  let ?m = "record_image sim_env ?h zero_nv_payload"
  have h: "header_of ?m = ?h" using header_of_bytes [of ?h "nv_encode sim_env zero_nv_payload"]
    by (simp add: record_image_def)
  have "unat (validLen (header_of ?m)) < NV_EXTENSION_SIZE - NV_EXTENSION_HEADER_SIZE"
    using h by (simp add: nv_default_header_def sim_env_def nv_sizes)
  from validity_checks_agree [OF this, of sim_env] show ?thesis
    using image_valid [OF sim_env_ok default_header_ok [OF sim_env_ok], of zero_nv_payload zero_nv_payload]
    by (simp add: nv_default_header_def)
qed

section \<open>The interval\<close>

text \<open>
  The interval timer across the wrap of the clock. With the checkpoint and the clock below the
  wrap, and a checkpoint that is set, \<open>nv_record_is_timer_expired_to_check\<close> compares the time that has passed
  modulo the period of the clock with 20 minutes; without a checkpoint it compares the clock.
\<close>

theorem timer_expired_correct:
  assumes "currentTimerMs \<le> ticks_max_ms env" and "lastFlushCheckPointInMs s \<le> ticks_max_ms env"
  shows "nv_record_is_timer_expired_to_check env currentTimerMs s \<longleftrightarrow>
    20 * 60 * 1000 <
      (if lastFlushCheckPointInMs s = 0 then uint currentTimerMs
       else (uint currentTimerMs - uint (lastFlushCheckPointInMs s)) mod (uint (ticks_max_ms env) + 1))"
proof -
  let ?t = "currentTimerMs" and ?c = "lastFlushCheckPointInMs s" and ?m = "ticks_max_ms env"
  have lim: "NV_RECORD_FLUSH_EXECUTION_INTERVAL_MS < x \<longleftrightarrow> 20 * 60 * 1000 < uint x" for x :: u32
    by (simp add: NV_RECORD_FLUSH_EXECUTION_INTERVAL_MS_def word_less_def)
  have le: "uint ?t \<le> uint ?m" "uint ?c \<le> uint ?m" using assms by (simp_all add: word_le_def)
  consider "?c = 0" | "?c \<noteq> 0" "?c \<le> ?t" | "?c \<noteq> 0" "?t < ?c" by fastforce
  then show ?thesis
  proof cases
    case 1
    then show ?thesis by (simp add: nv_record_is_timer_expired_to_check_def lim)
  next
    case 2
    then have "uint (?t - ?c) = uint ?t - uint ?c" by (simp add: uint_minus_simple_alt)
    also have "\<dots> = (uint ?t - uint ?c) mod (uint ?m + 1)"
    proof (rule mod_pos_pos_trivial [symmetric])
      show "0 \<le> uint ?t - uint ?c" using 2 by (simp add: word_le_def)
      show "uint ?t - uint ?c < uint ?m + 1" using le(1) uint_ge_0 [of ?c] by linarith
    qed
    finally show ?thesis using 2 by (simp add: nv_record_is_timer_expired_to_check_def lim)
  next
    case 3
    then have l: "uint ?t < uint ?c" by (simp add: word_less_def)
    have top: "uint ?m < 2 ^ 32" using uint_lt2p [of ?m] by simp
    have a: "uint (?m - ?c) = uint ?m - uint ?c" using assms(2) by (simp add: uint_minus_simple_alt)
    have b: "uint (?m - ?c + ?t) = uint ?m - uint ?c + uint ?t"
      using uint_add_lem [of "?m - ?c" ?t] a l top by simp
    have "uint (?m - ?c + ?t + 1) = uint ?m - uint ?c + uint ?t + 1"
      using uint_add_lem [of "?m - ?c + ?t" 1] b l top by simp
    also have "\<dots> = (uint ?m - uint ?c + uint ?t + 1) mod (uint ?m + 1)"
      using l le uint_ge_0 [of ?t] by (intro mod_pos_pos_trivial [symmetric]) linarith+
    also have "\<dots> = (uint ?t - uint ?c + (uint ?m + 1)) mod (uint ?m + 1)" by (simp add: algebra_simps)
    also have "\<dots> = (uint ?t - uint ?c) mod (uint ?m + 1)" by simp
    finally show ?thesis using 3 leD [of ?c ?t] by (auto simp: nv_record_is_timer_expired_to_check_def lim)
  qed
qed

theorem timer_expired_correct_witness:
  "nv_record_is_timer_expired_to_check sim_env 1199999
     ((zero_nv_state blank_flash)\<lparr>lastFlushCheckPointInMs := 0xFFFFFFFE\<rparr>)"
  by (subst timer_expired_correct) (simp_all add: sim_env_def)

end
