(* ===== verification/Cmu.thy ===== *)
theory Cmu
  imports BesPrelude
begin

text \<open>
  The system clock of \<open>src/platform/hal/best1307/hal_cmu_best1307.c\<close>: the clock frequencies, the
  registers that select the system clock, \<open>hal_cmu_sys_set_freq\<close> and \<open>hal_cmu_sys_get_freq\<close>. The build
  options of these functions are a parameter. The other clocks of the unit are not modelled.
\<close>

section \<open>Frequencies\<close>

datatype HAL_CMU_FREQ_T =
    HAL_CMU_FREQ_32K | HAL_CMU_FREQ_6P5M | HAL_CMU_FREQ_13M | HAL_CMU_FREQ_26M | HAL_CMU_FREQ_52M
  | HAL_CMU_FREQ_78M | HAL_CMU_FREQ_104M | HAL_CMU_FREQ_144M | HAL_CMU_FREQ_208M

text \<open>The values of the enumeration, in its order.\<close>

definition all_freqs :: "HAL_CMU_FREQ_T list" where
  "all_freqs = [HAL_CMU_FREQ_32K, HAL_CMU_FREQ_6P5M, HAL_CMU_FREQ_13M, HAL_CMU_FREQ_26M, HAL_CMU_FREQ_52M,
     HAL_CMU_FREQ_78M, HAL_CMU_FREQ_104M, HAL_CMU_FREQ_144M, HAL_CMU_FREQ_208M]"

definition HAL_CMU_FREQ_QTY :: nat where
  "HAL_CMU_FREQ_QTY = 9"

fun freq_num :: "HAL_CMU_FREQ_T \<Rightarrow> nat" where
  "freq_num HAL_CMU_FREQ_32K = 0"
| "freq_num HAL_CMU_FREQ_6P5M = 1"
| "freq_num HAL_CMU_FREQ_13M = 2"
| "freq_num HAL_CMU_FREQ_26M = 3"
| "freq_num HAL_CMU_FREQ_52M = 4"
| "freq_num HAL_CMU_FREQ_78M = 5"
| "freq_num HAL_CMU_FREQ_104M = 6"
| "freq_num HAL_CMU_FREQ_144M = 7"
| "freq_num HAL_CMU_FREQ_208M = 8"

lemma freq_num_inj [simp]: "freq_num f = freq_num g \<longleftrightarrow> f = g"
  by (cases f; cases g) simp_all

lemma freq_num_all: "freq_num f < HAL_CMU_FREQ_QTY" "all_freqs ! freq_num f = f"
  by (cases f; simp add: HAL_CMU_FREQ_QTY_def all_freqs_def)+

lemma all_freqs_num: "n < HAL_CMU_FREQ_QTY \<Longrightarrow> freq_num (all_freqs ! n) = n"
  by (simp add: HAL_CMU_FREQ_QTY_def all_freqs_def less_Suc_eq numeral_nat) auto

text \<open>Frequencies compare by their number.\<close>

instantiation HAL_CMU_FREQ_T :: linorder
begin

definition less_eq_HAL_CMU_FREQ_T :: "HAL_CMU_FREQ_T \<Rightarrow> HAL_CMU_FREQ_T \<Rightarrow> bool" where
  "less_eq_HAL_CMU_FREQ_T f g \<longleftrightarrow> freq_num f \<le> freq_num g"

definition less_HAL_CMU_FREQ_T :: "HAL_CMU_FREQ_T \<Rightarrow> HAL_CMU_FREQ_T \<Rightarrow> bool" where
  "less_HAL_CMU_FREQ_T f g \<longleftrightarrow> freq_num f < freq_num g"

instance
  by standard (auto simp: less_eq_HAL_CMU_FREQ_T_def less_HAL_CMU_FREQ_T_def)

end

lemmas freq_order = less_eq_HAL_CMU_FREQ_T_def less_HAL_CMU_FREQ_T_def

lemma freq_bot [simp]: "HAL_CMU_FREQ_32K \<le> f"
  by (simp add: freq_order)

section \<open>Registers\<close>

record cmu_cfg =
  LOW_SYS_FREQ :: bool
  LOW_SYS_FREQ_6P5M :: bool
  OSC_26M_X4_AUD2BB :: bool
  FREQ_78M_USE_PLL :: bool

text \<open>
  \<open>SYS_CLK\<close> is the register that is read through \<open>SYS_CLK_ENABLE\<close>, set through it and cleared through
  \<open>SYS_CLK_DISABLE\<close>.
\<close>

record cmu_t =
  SYS_CLK :: u32
  SYS_DIV :: u32
  psc_REG_044 :: u32
  force_sys_div :: u8
  cmu_sys_freq :: HAL_CMU_FREQ_T

abbreviation CMU_RSTN_DIV_SYS :: u32 where
  "CMU_RSTN_DIV_SYS \<equiv> BIT 5"

abbreviation CMU_SEL_OSC_2_SYS :: u32 where
  "CMU_SEL_OSC_2_SYS \<equiv> BIT 6"

abbreviation CMU_SEL_OSC_4_SYS :: u32 where
  "CMU_SEL_OSC_4_SYS \<equiv> BIT 7"

abbreviation CMU_SEL_SLOW_SYS :: u32 where
  "CMU_SEL_SLOW_SYS \<equiv> BIT 8"

abbreviation CMU_SEL_OSCX2_SYS :: u32 where
  "CMU_SEL_OSCX2_SYS \<equiv> BIT 9"

abbreviation CMU_SEL_FAST_SYS :: u32 where
  "CMU_SEL_FAST_SYS \<equiv> BIT 10"

abbreviation CMU_SEL_PLL_SYS :: u32 where
  "CMU_SEL_PLL_SYS \<equiv> BIT 11"

abbreviation CMU_BYPASS_DIV_SYS :: u32 where
  "CMU_BYPASS_DIV_SYS \<equiv> BIT 12"

definition clk_enable :: "u32 \<Rightarrow> cmu_t \<Rightarrow> cmu_t" where
  "clk_enable v c = c\<lparr>SYS_CLK := SYS_CLK c OR v\<rparr>"

definition clk_disable :: "u32 \<Rightarrow> cmu_t \<Rightarrow> cmu_t" where
  "clk_disable v c = c\<lparr>SYS_CLK := SYS_CLK c AND NOT v\<rparr>"

definition PSC_AON_REG_PLL_FREQ_SEL :: u32 where
  "PSC_AON_REG_PLL_FREQ_SEL = BIT 5"

definition hal_psc_pll_freq_is_high :: "cmu_t \<Rightarrow> bool" where
  "hal_psc_pll_freq_is_high c \<longleftrightarrow> psc_REG_044 c AND PSC_AON_REG_PLL_FREQ_SEL \<noteq> 0"

definition hal_psc_pll_freq_sel_high :: "bool \<Rightarrow> cmu_t \<Rightarrow> cmu_t" where
  "hal_psc_pll_freq_sel_high high c =
     (if high then c\<lparr>psc_REG_044 := psc_REG_044 c OR PSC_AON_REG_PLL_FREQ_SEL\<rparr>
      else c\<lparr>psc_REG_044 := psc_REG_044 c AND NOT PSC_AON_REG_PLL_FREQ_SEL\<rparr>)"

text \<open>\<open>SET_BITFIELD\<close> and \<open>GET_BITFIELD\<close> of \<open>CMU_CFG_DIV_SYS\<close>, the low two bits of \<open>SYS_DIV\<close>.\<close>

definition set_div_sys :: "int \<Rightarrow> cmu_t \<Rightarrow> cmu_t" where
  "set_div_sys d c = c\<lparr>SYS_DIV := (SYS_DIV c AND NOT 3) OR (word_of_int d AND 3)\<rparr>"

definition get_div_sys :: "cmu_t \<Rightarrow> u32" where
  "get_div_sys c = SYS_DIV c AND 3"

section \<open>Setting the frequency\<close>

text \<open>
  The switch of \<open>hal_cmu_sys_set_freq\<close>: the bits to enable, the bits to disable and the divider, -1
  for none. A case that the build options remove falls through to the next one.
\<close>

type_synonym clk_sel = "u32 \<times> u32 \<times> int"

definition clk_26m :: clk_sel where
  "clk_26m = (CMU_SEL_SLOW_SYS OR CMU_SEL_OSCX2_SYS,
     CMU_RSTN_DIV_SYS OR CMU_SEL_OSC_2_SYS OR CMU_SEL_FAST_SYS OR CMU_SEL_PLL_SYS OR CMU_BYPASS_DIV_SYS, - 1)"

definition clk_13m :: "cmu_cfg \<Rightarrow> clk_sel" where
  "clk_13m cfg =
     (if LOW_SYS_FREQ cfg
      then (CMU_SEL_OSC_2_SYS OR CMU_SEL_SLOW_SYS OR CMU_SEL_OSCX2_SYS,
        CMU_RSTN_DIV_SYS OR CMU_SEL_FAST_SYS OR CMU_SEL_PLL_SYS OR CMU_BYPASS_DIV_SYS, - 1)
      else clk_26m)"

definition clk_104m :: "cmu_cfg \<Rightarrow> clk_sel" where
  "clk_104m cfg =
     (if OSC_26M_X4_AUD2BB cfg
      then (CMU_SEL_SLOW_SYS OR CMU_SEL_FAST_SYS,
        CMU_RSTN_DIV_SYS OR CMU_SEL_OSCX2_SYS OR CMU_BYPASS_DIV_SYS OR CMU_SEL_PLL_SYS, - 1)
      else (CMU_SEL_SLOW_SYS OR CMU_RSTN_DIV_SYS OR CMU_SEL_OSCX2_SYS OR CMU_SEL_PLL_SYS, CMU_BYPASS_DIV_SYS, 0))"

definition clk_select :: "cmu_cfg \<Rightarrow> HAL_CMU_FREQ_T \<Rightarrow> clk_sel" where
  "clk_select cfg freq =
     (case freq of
        HAL_CMU_FREQ_32K \<Rightarrow> (CMU_SEL_OSCX2_SYS,
          CMU_RSTN_DIV_SYS OR CMU_SEL_OSC_2_SYS OR CMU_SEL_OSC_4_SYS OR CMU_SEL_SLOW_SYS OR CMU_SEL_FAST_SYS OR
          CMU_SEL_PLL_SYS OR CMU_BYPASS_DIV_SYS, - 1)
      | HAL_CMU_FREQ_6P5M \<Rightarrow>
          if LOW_SYS_FREQ cfg \<and> LOW_SYS_FREQ_6P5M cfg
          then (CMU_SEL_OSC_4_SYS OR CMU_SEL_OSCX2_SYS,
            CMU_RSTN_DIV_SYS OR CMU_SEL_SLOW_SYS OR CMU_SEL_FAST_SYS OR CMU_SEL_PLL_SYS OR CMU_BYPASS_DIV_SYS, - 1)
          else clk_13m cfg
      | HAL_CMU_FREQ_13M \<Rightarrow> clk_13m cfg
      | HAL_CMU_FREQ_26M \<Rightarrow> clk_26m
      | HAL_CMU_FREQ_52M \<Rightarrow> (CMU_SEL_SLOW_SYS OR CMU_SEL_OSCX2_SYS OR CMU_SEL_FAST_SYS,
          CMU_RSTN_DIV_SYS OR CMU_SEL_PLL_SYS OR CMU_BYPASS_DIV_SYS, - 1)
      | HAL_CMU_FREQ_78M \<Rightarrow>
          if \<not> OSC_26M_X4_AUD2BB cfg \<or> FREQ_78M_USE_PLL cfg
          then (CMU_SEL_SLOW_SYS OR CMU_RSTN_DIV_SYS OR CMU_SEL_OSCX2_SYS OR CMU_SEL_PLL_SYS, CMU_BYPASS_DIV_SYS, 1)
          else clk_104m cfg
      | HAL_CMU_FREQ_104M \<Rightarrow> clk_104m cfg
      | _ \<Rightarrow> (CMU_SEL_SLOW_SYS OR CMU_SEL_OSCX2_SYS OR CMU_BYPASS_DIV_SYS OR CMU_SEL_PLL_SYS, CMU_RSTN_DIV_SYS, - 1))"

text \<open>The divider that \<open>hal_cmu_force_sys_pll_div\<close> imposes.\<close>

definition clk_force_div :: "u8 \<Rightarrow> clk_sel \<Rightarrow> clk_sel" where
  "clk_force_div cur_sys_div sel =
     (let (enable, disable, dv) = sel in
      if cur_sys_div \<noteq> 0 then
        if cur_sys_div = 1
        then ((enable AND NOT CMU_RSTN_DIV_SYS) OR CMU_BYPASS_DIV_SYS,
              (disable AND NOT CMU_BYPASS_DIV_SYS) OR CMU_RSTN_DIV_SYS, dv)
        else ((enable AND NOT CMU_BYPASS_DIV_SYS) OR CMU_RSTN_DIV_SYS,
              (disable AND NOT CMU_RSTN_DIV_SYS) OR CMU_BYPASS_DIV_SYS, uint cur_sys_div - 2)
      else (enable, disable, dv))"

definition hal_cmu_force_sys_pll_div :: "u32 \<Rightarrow> cmu_t \<Rightarrow> cmu_t" where
  "hal_cmu_force_sys_pll_div d c = c\<lparr>force_sys_div := ucast d\<rparr>"

text \<open>The writes to the clock registers, in the order of the code.\<close>

definition clk_apply :: "clk_sel \<Rightarrow> cmu_t \<Rightarrow> cmu_t" where
  "clk_apply sel c =
     (let (enable, disable, dv) = sel;
          c = (if 0 \<le> dv then set_div_sys dv c else c);
          c = (if enable AND CMU_SEL_PLL_SYS \<noteq> 0
               then let c = clk_enable CMU_RSTN_DIV_SYS c
                    in if enable AND CMU_BYPASS_DIV_SYS \<noteq> 0 then clk_enable CMU_BYPASS_DIV_SYS c
                       else clk_disable CMU_BYPASS_DIV_SYS c
               else c);
          c = clk_enable enable c
      in if enable AND CMU_SEL_PLL_SYS \<noteq> 0 then clk_disable disable c
         else clk_disable CMU_RSTN_DIV_SYS (clk_disable CMU_BYPASS_DIV_SYS
           (clk_disable (disable AND NOT (CMU_RSTN_DIV_SYS OR CMU_BYPASS_DIV_SYS)) c)))"

definition hal_cmu_sys_set_freq :: "cmu_cfg \<Rightarrow> HAL_CMU_FREQ_T \<Rightarrow> cmu_t \<Rightarrow> cmu_t" where
  "hal_cmu_sys_set_freq cfg freq c =
     (let c = (if LOW_SYS_FREQ cfg then c\<lparr>cmu_sys_freq := freq\<rparr> else c);
          c = (case freq of
                 HAL_CMU_FREQ_144M \<Rightarrow> hal_psc_pll_freq_sel_high False c
               | HAL_CMU_FREQ_208M \<Rightarrow> hal_psc_pll_freq_sel_high True c
               | _ \<Rightarrow> c)
      in clk_apply (clk_force_div (force_sys_div c) (clk_select cfg freq)) c)"

definition hal_cmu_sys_get_freq :: "cmu_t \<Rightarrow> HAL_CMU_FREQ_T" where
  "hal_cmu_sys_get_freq c =
     (let sys_clk = SYS_CLK c in
      if sys_clk AND CMU_SEL_PLL_SYS \<noteq> 0 then
        if sys_clk AND CMU_BYPASS_DIV_SYS \<noteq> 0 then
          if hal_psc_pll_freq_is_high c then HAL_CMU_FREQ_208M else HAL_CMU_FREQ_144M
        else
          let dv = get_div_sys c in
          if dv = 0 then HAL_CMU_FREQ_104M
          else if dv = 1 then HAL_CMU_FREQ_78M
          else HAL_CMU_FREQ_52M
      else if sys_clk AND (CMU_SEL_FAST_SYS OR CMU_SEL_OSCX2_SYS) = CMU_SEL_FAST_SYS then HAL_CMU_FREQ_104M
      else if sys_clk AND (CMU_SEL_FAST_SYS OR CMU_SEL_OSCX2_SYS) = CMU_SEL_FAST_SYS OR CMU_SEL_OSCX2_SYS
      then HAL_CMU_FREQ_52M
      else if sys_clk AND CMU_SEL_SLOW_SYS \<noteq> 0 then HAL_CMU_FREQ_26M
      else HAL_CMU_FREQ_32K)"

section \<open>Reading back what was set\<close>

lemma mask_two:
  assumes "i \<noteq> j" and "i < 32" "j < 32"
  shows "(r AND (BIT i OR BIT j) = BIT i) = (bit r i \<and> \<not> bit r j)"
    and "(r AND (BIT i OR BIT j) = BIT i OR BIT j) = (bit r i \<and> bit r j)"
proof -
  let ?m = "BIT i OR BIT j"
  have m: "bit (r AND ?m) n \<longleftrightarrow> bit r n \<and> (n = i \<or> n = j)" "bit ?m n \<longleftrightarrow> n = i \<or> n = j" for n
    using assms by (auto simp: bit_and_iff bit_or_iff)
  have "bit (r AND ?m) n = bit (BIT i) n" if "bit r i \<and> \<not> bit r j" for n
    using that assms by (auto simp: m)
  then show "(r AND ?m = BIT i) = (bit r i \<and> \<not> bit r j)"
    using m(1) [of i] m(1) [of j] assms by (metis bit_eqI bit_BIT)
  show "(r AND ?m = ?m) = (bit r i \<and> bit r j)"
    using m bit_eqI [of "r AND ?m" ?m] by metis
qed

lemma get_freq_bits:
  "hal_cmu_sys_get_freq c =
     (if bit (SYS_CLK c) 11 then
        if bit (SYS_CLK c) 12 then if bit (psc_REG_044 c) 5 then HAL_CMU_FREQ_208M else HAL_CMU_FREQ_144M
        else if get_div_sys c = 0 then HAL_CMU_FREQ_104M
        else if get_div_sys c = 1 then HAL_CMU_FREQ_78M else HAL_CMU_FREQ_52M
      else if bit (SYS_CLK c) 10 then if bit (SYS_CLK c) 9 then HAL_CMU_FREQ_52M else HAL_CMU_FREQ_104M
      else if bit (SYS_CLK c) 8 then HAL_CMU_FREQ_26M else HAL_CMU_FREQ_32K)"
  by (simp add: hal_cmu_sys_get_freq_def hal_psc_pll_freq_is_high_def PSC_AON_REG_PLL_FREQ_SEL_def mask_two Let_def)

lemma set_div_get: "0 \<le> d \<Longrightarrow> d < 4 \<Longrightarrow> get_div_sys (set_div_sys d c) = word_of_int d"
proof -
  assume d: "0 \<le> d" "d < 4"
  then have "d \<in> {0, 1, 2, 3}" by auto
  then have w: "(word_of_int d :: u32) AND 3 = word_of_int d" by auto
  have "((SYS_DIV c AND NOT 3) OR (word_of_int d AND 3)) AND 3 = (word_of_int d AND 3)"
    by (simp add: bit_eq_iff bit_simps) blast
  then show ?thesis by (simp add: get_div_sys_def set_div_sys_def w)
qed

text \<open>What \<open>hal_cmu_sys_get_freq\<close> reports for each setting: the two low frequencies are not told apart.\<close>

definition clk_read :: "cmu_cfg \<Rightarrow> HAL_CMU_FREQ_T \<Rightarrow> HAL_CMU_FREQ_T" where
  "clk_read cfg f =
     (case f of
        HAL_CMU_FREQ_6P5M \<Rightarrow>
          if LOW_SYS_FREQ cfg \<and> LOW_SYS_FREQ_6P5M cfg then HAL_CMU_FREQ_32K else HAL_CMU_FREQ_26M
      | HAL_CMU_FREQ_13M \<Rightarrow> HAL_CMU_FREQ_26M
      | HAL_CMU_FREQ_78M \<Rightarrow>
          if \<not> OSC_26M_X4_AUD2BB cfg \<or> FREQ_78M_USE_PLL cfg then HAL_CMU_FREQ_78M else HAL_CMU_FREQ_104M
      | _ \<Rightarrow> f)"

lemmas clk_defs = clk_select_def clk_26m_def clk_13m_def clk_104m_def clk_apply_def clk_enable_def clk_disable_def
  hal_psc_pll_freq_sel_high_def PSC_AON_REG_PLL_FREQ_SEL_def

lemma div_sys_other [simp]:
  "get_div_sys (clk_enable v c) = get_div_sys c" "get_div_sys (clk_disable v c) = get_div_sys c"
  by (simp_all add: get_div_sys_def clk_enable_def clk_disable_def)

lemma clk_apply_bits:
  assumes "n \<noteq> 5" and "n \<noteq> 12" and "n < 32"
  shows "bit (SYS_CLK (clk_apply (e, d, dv) c)) n \<longleftrightarrow> (bit (SYS_CLK c) n \<or> bit e n) \<and> \<not> bit d n"
  using assms by (auto simp: clk_apply_def clk_enable_def clk_disable_def set_div_sys_def bit_and_iff bit_or_iff
      bit_not_iff Let_def)

lemma clk_apply_bypass:
  "bit (SYS_CLK (clk_apply (e, d, dv) c)) 12 \<longleftrightarrow> bit e 11 \<and> bit e 12 \<and> \<not> bit d 12"
  by (auto simp: clk_apply_def clk_enable_def clk_disable_def set_div_sys_def bit_and_iff bit_or_iff
      bit_not_iff Let_def)

lemma clk_apply_other:
  "psc_REG_044 (clk_apply sel c) = psc_REG_044 c" "force_sys_div (clk_apply sel c) = force_sys_div c"
  "0 \<le> dv \<Longrightarrow> dv < 4 \<Longrightarrow> get_div_sys (clk_apply (e, d, dv) c) = word_of_int dv"
  by (auto simp: clk_apply_def Let_def set_div_get split: prod.split)
    (simp_all add: clk_enable_def clk_disable_def set_div_sys_def)

lemma set_get_freq:
  assumes "force_sys_div c = 0"
  shows "hal_cmu_sys_get_freq (hal_cmu_sys_set_freq cfg f c) = clk_read cfg f"
proof -
  let ?l = "if LOW_SYS_FREQ cfg then c\<lparr>cmu_sys_freq := f\<rparr> else c"
  let ?c = "case f of HAL_CMU_FREQ_144M \<Rightarrow> hal_psc_pll_freq_sel_high False ?l
    | HAL_CMU_FREQ_208M \<Rightarrow> hal_psc_pll_freq_sel_high True ?l | _ \<Rightarrow> ?l"
  have force: "clk_force_div 0 sel = sel" for sel by (cases sel) (simp add: clk_force_div_def)
  have "force_sys_div ?c = 0"
    using assms by (cases f) (simp_all add: hal_psc_pll_freq_sel_high_def)
  then have set: "hal_cmu_sys_set_freq cfg f c = clk_apply (clk_select cfg f) ?c"
    unfolding hal_cmu_sys_set_freq_def Let_def by (simp only: force)
  have psc: "bit (psc_REG_044 (hal_psc_pll_freq_sel_high h c)) 5 = h" for h c
    by (simp add: hal_psc_pll_freq_sel_high_def PSC_AON_REG_PLL_FREQ_SEL_def bit_and_iff bit_or_iff bit_not_iff)
  show ?thesis unfolding set get_freq_bits
    by (cases f) (simp_all add: clk_select_def clk_26m_def clk_13m_def clk_104m_def clk_read_def clk_apply_bits
        clk_apply_bypass clk_apply_other psc bit_or_iff)
qed

text \<open>
  C36: The system clock reads back as it was set. Without a forced divider, for every build option and
  every previous state of the registers, \<open>hal_cmu_sys_get_freq\<close> after \<open>hal_cmu_sys_set_freq\<close> reports the frequency,
  except that 13M reads as 26M, 6.5M as 26M or 32K, and 78M as 104M where it is built as 104M.
\<close>

theorem sys_freq_roundtrip:
  assumes "force_sys_div c = 0"
  shows "hal_cmu_sys_get_freq (hal_cmu_sys_set_freq cfg f c) = clk_read cfg f"
  using assms by (rule set_get_freq)

theorem sys_freq_roundtrip_witness:
  "hal_cmu_sys_get_freq (hal_cmu_sys_set_freq
     \<lparr>LOW_SYS_FREQ = False, LOW_SYS_FREQ_6P5M = False, OSC_26M_X4_AUD2BB = False, FREQ_78M_USE_PLL = False\<rparr>
     HAL_CMU_FREQ_78M
     \<lparr>SYS_CLK = 0xFFFFFFFF, SYS_DIV = 2, psc_REG_044 = 0, force_sys_div = 0, cmu_sys_freq = HAL_CMU_FREQ_32K\<rparr>)
   = HAL_CMU_FREQ_78M"
  by (subst sys_freq_roundtrip) (simp_all add: clk_read_def)

end
