(* ===== verification/Sysfreq.thy ===== *)
theory Sysfreq
  imports Cmu
begin

text \<open>
  The system frequency manager \<open>src/platform/hal/hal_sysfreq.c\<close>: every user requests a frequency, the
  clock runs at the highest request, raised to the minimum. Raising the clock first raises the
  supply and enables the PLL, lowering it does so afterwards. The calls to \<open>pmu_sys_freq_config\<close>, which
  is not part of the sources, and to \<open>hal_cmu_pll_enable\<close> and \<open>hal_cmu_pll_disable\<close> are recorded as their
  last request; \<open>sf_seen\<close> is a history of the hardware after every such call. Statistics are not built.
\<close>

section \<open>State\<close>

definition HAL_SYSFREQ_USER_QTY :: nat where
  "HAL_SYSFREQ_USER_QTY = 39"

record sysfreq_cfg =
  sf_clk :: cmu_cfg
  ULTRA_LOW_POWER :: bool
  FLASH_LOW_SPEED :: bool
  PMU_CTRL_ENABLE :: bool

record sysfreq =
  sysfreq_per_user :: "HAL_CMU_FREQ_T list"
  top_user :: nat
  min_sysfreq :: HAL_CMU_FREQ_T
  sf_cmu :: cmu_t
  sf_pll :: bool
  sf_pmu :: HAL_CMU_FREQ_T
  sf_seen :: "(HAL_CMU_FREQ_T \<times> bool \<times> HAL_CMU_FREQ_T) list"

text \<open>The hardware as the clock reads, the system's use of the PLL, and the configured supply.\<close>

definition sf_hw :: "sysfreq \<Rightarrow> HAL_CMU_FREQ_T \<times> bool \<times> HAL_CMU_FREQ_T" where
  "sf_hw s = (hal_cmu_sys_get_freq (sf_cmu s), sf_pll s, sf_pmu s)"

definition sf_note :: "sysfreq \<Rightarrow> sysfreq" where
  "sf_note s = s\<lparr>sf_seen := sf_hw s # sf_seen s\<rparr>"

definition sf_set_freq :: "sysfreq_cfg \<Rightarrow> HAL_CMU_FREQ_T \<Rightarrow> sysfreq \<Rightarrow> sysfreq" where
  "sf_set_freq cfg f s = sf_note (s\<lparr>sf_cmu := hal_cmu_sys_set_freq (sf_clk cfg) f (sf_cmu s)\<rparr>)"

definition pmu_sys_freq_config :: "sysfreq_cfg \<Rightarrow> HAL_CMU_FREQ_T \<Rightarrow> sysfreq \<Rightarrow> sysfreq" where
  "pmu_sys_freq_config cfg f s = (if PMU_CTRL_ENABLE cfg then sf_note (s\<lparr>sf_pmu := f\<rparr>) else s)"

text \<open>The PLL is not needed up to 104M with the oscillator's multiplier, up to 52M with a slow flash.\<close>

definition hal_cmu_low_freq_mode_enable ::
    "sysfreq_cfg \<Rightarrow> HAL_CMU_FREQ_T \<Rightarrow> HAL_CMU_FREQ_T \<Rightarrow> sysfreq \<Rightarrow> sysfreq" where
  "hal_cmu_low_freq_mode_enable cfg old_freq new_freq s =
     (if OSC_26M_X4_AUD2BB (sf_clk cfg)
      then if HAL_CMU_FREQ_104M < old_freq \<and> new_freq \<le> HAL_CMU_FREQ_104M then sf_note (s\<lparr>sf_pll := False\<rparr>) else s
      else if FLASH_LOW_SPEED cfg
      then if HAL_CMU_FREQ_52M < old_freq \<and> new_freq \<le> HAL_CMU_FREQ_52M then sf_note (s\<lparr>sf_pll := False\<rparr>) else s
      else s)"

definition hal_cmu_low_freq_mode_disable ::
    "sysfreq_cfg \<Rightarrow> HAL_CMU_FREQ_T \<Rightarrow> HAL_CMU_FREQ_T \<Rightarrow> sysfreq \<Rightarrow> sysfreq" where
  "hal_cmu_low_freq_mode_disable cfg old_freq new_freq s =
     (if OSC_26M_X4_AUD2BB (sf_clk cfg)
      then if old_freq \<le> HAL_CMU_FREQ_104M \<and> HAL_CMU_FREQ_104M < new_freq then sf_note (s\<lparr>sf_pll := True\<rparr>) else s
      else if FLASH_LOW_SPEED cfg
      then if old_freq \<le> HAL_CMU_FREQ_52M \<and> HAL_CMU_FREQ_52M < new_freq then sf_note (s\<lparr>sf_pll := True\<rparr>) else s
      else s)"

section \<open>Operations\<close>

definition hal_sysfreq_revise_freq :: "HAL_CMU_FREQ_T \<Rightarrow> sysfreq \<Rightarrow> HAL_CMU_FREQ_T" where
  "hal_sysfreq_revise_freq freq s =
     (let freq = (if freq = HAL_CMU_FREQ_32K then HAL_CMU_FREQ_26M else freq)
      in if min_sysfreq s < freq then freq else min_sysfreq s)"

definition hal_sysfreq_get :: "sysfreq \<Rightarrow> HAL_CMU_FREQ_T" where
  "hal_sysfreq_get s =
     (if top_user s < HAL_SYSFREQ_USER_QTY then sysfreq_per_user s ! top_user s
      else hal_cmu_sys_get_freq (sf_cmu s))"

definition hal_sysfreq_get_hw_freq :: "sysfreq \<Rightarrow> HAL_CMU_FREQ_T" where
  "hal_sysfreq_get_hw_freq s =
     (if top_user s < HAL_SYSFREQ_USER_QTY then hal_sysfreq_revise_freq (sysfreq_per_user s ! top_user s) s
      else hal_cmu_sys_get_freq (sf_cmu s))"

definition hal_sysfreq_set_min_freq :: "sysfreq_cfg \<Rightarrow> HAL_CMU_FREQ_T \<Rightarrow> sysfreq \<Rightarrow> sysfreq" where
  "hal_sysfreq_set_min_freq cfg freq s =
     (if min_sysfreq s \<noteq> freq then
        let cur_freq = hal_sysfreq_get s;
            old_revised_freq = hal_sysfreq_revise_freq cur_freq s;
            s = s\<lparr>min_sysfreq := freq\<rparr>;
            new_revised_freq = hal_sysfreq_revise_freq cur_freq s
        in if old_revised_freq \<noteq> new_revised_freq then sf_set_freq cfg new_revised_freq s else s
      else s)"

definition hal_sysfreq_inc_min_freq :: "sysfreq_cfg \<Rightarrow> HAL_CMU_FREQ_T \<Rightarrow> sysfreq \<Rightarrow> HAL_CMU_FREQ_T \<times> sysfreq" where
  "hal_sysfreq_inc_min_freq cfg freq s =
     (min_sysfreq s, if min_sysfreq s < freq then hal_sysfreq_set_min_freq cfg freq s else s)"

text \<open>The search for the highest request: the first user with the largest value.\<close>

definition highest_user :: "HAL_CMU_FREQ_T list \<Rightarrow> HAL_CMU_FREQ_T \<times> nat" where
  "highest_user per =
     fold (\<lambda>i (freq, user). if freq < per ! i then (per ! i, i) else (freq, user))
       [1..<HAL_SYSFREQ_USER_QTY] (per ! 0, 0)"

definition sysfreq_raise :: "sysfreq_cfg \<Rightarrow> HAL_CMU_FREQ_T \<Rightarrow> HAL_CMU_FREQ_T \<Rightarrow> sysfreq \<Rightarrow> sysfreq" where
  "sysfreq_raise cfg real_cur_freq real_freq s =
     (if real_freq \<noteq> real_cur_freq then
        let s = pmu_sys_freq_config cfg real_freq s;
            s = (if ULTRA_LOW_POWER cfg then hal_cmu_low_freq_mode_disable cfg real_cur_freq real_freq s else s)
        in sf_set_freq cfg real_freq s
      else s)"

definition sysfreq_lower :: "sysfreq_cfg \<Rightarrow> HAL_CMU_FREQ_T \<Rightarrow> HAL_CMU_FREQ_T \<Rightarrow> sysfreq \<Rightarrow> sysfreq" where
  "sysfreq_lower cfg real_cur_freq real_freq s =
     (if real_freq \<noteq> real_cur_freq then
        let s = sf_set_freq cfg real_freq s;
            s = (if ULTRA_LOW_POWER cfg then hal_cmu_low_freq_mode_enable cfg real_cur_freq real_freq s else s)
        in pmu_sys_freq_config cfg real_freq s
      else s)"

text \<open>The user and the frequency come as numbers, since the code checks them; the result is its return value.\<close>

definition hal_sysfreq_req :: "sysfreq_cfg \<Rightarrow> nat \<Rightarrow> nat \<Rightarrow> sysfreq \<Rightarrow> int \<times> sysfreq" where
  "hal_sysfreq_req cfg user freq_no s =
     (if HAL_SYSFREQ_USER_QTY \<le> user then (1, s)
      else if HAL_CMU_FREQ_QTY \<le> freq_no then (2, s)
      else
        let freq = all_freqs ! freq_no;
            cur_freq = hal_sysfreq_get s;
            s = s\<lparr>sysfreq_per_user := (sysfreq_per_user s)[user := freq]\<rparr>
        in (0,
          if freq = cur_freq then s\<lparr>top_user := user\<rparr>
          else if cur_freq < freq then
            let s = s\<lparr>top_user := user\<rparr>
            in sysfreq_raise cfg (hal_sysfreq_revise_freq cur_freq s) (hal_sysfreq_revise_freq freq s) s
          else if top_user s = user \<or> top_user s = HAL_SYSFREQ_USER_QTY then
            let (freq, user) = (if top_user s = user then highest_user (sysfreq_per_user s) else (freq, user));
                s = s\<lparr>top_user := user\<rparr>
            in if freq \<noteq> cur_freq
               then sysfreq_lower cfg (hal_sysfreq_revise_freq cur_freq s) (hal_sysfreq_revise_freq freq s) s
               else s
          else s))"

definition hal_sysfreq_busy :: "sysfreq \<Rightarrow> bool" where
  "hal_sysfreq_busy s \<longleftrightarrow> (\<exists>f\<in>set (sysfreq_per_user s). f \<noteq> HAL_CMU_FREQ_32K)"

text \<open>The statics at start-up, with the clock as the boot code left it.\<close>

definition sysfreq_init :: "cmu_t \<Rightarrow> bool \<Rightarrow> HAL_CMU_FREQ_T \<Rightarrow> sysfreq" where
  "sysfreq_init c pll pmu =
     \<lparr>sysfreq_per_user = replicate HAL_SYSFREQ_USER_QTY HAL_CMU_FREQ_32K, top_user = HAL_SYSFREQ_USER_QTY,
      min_sysfreq = HAL_CMU_FREQ_32K, sf_cmu = c, sf_pll = pll, sf_pmu = pmu, sf_seen = []\<rparr>"

section \<open>The invariant\<close>

abbreviation highest :: "HAL_CMU_FREQ_T list \<Rightarrow> HAL_CMU_FREQ_T" where
  "highest per \<equiv> Max (set per)"

definition sysfreq_inv :: "sysfreq_cfg \<Rightarrow> sysfreq \<Rightarrow> bool" where
  "sysfreq_inv cfg s \<longleftrightarrow>
     length (sysfreq_per_user s) = HAL_SYSFREQ_USER_QTY \<and> force_sys_div (sf_cmu s) = 0 \<and>
     (if top_user s < HAL_SYSFREQ_USER_QTY
      then sysfreq_per_user s ! top_user s = highest (sysfreq_per_user s) \<and>
        hal_cmu_sys_get_freq (sf_cmu s) =
          clk_read (sf_clk cfg) (hal_sysfreq_revise_freq (highest (sysfreq_per_user s)) s)
      else top_user s = HAL_SYSFREQ_USER_QTY \<and>
        sysfreq_per_user s = replicate HAL_SYSFREQ_USER_QTY HAL_CMU_FREQ_32K \<and>
        HAL_CMU_FREQ_26M \<le> hal_cmu_sys_get_freq (sf_cmu s) \<and> min_sysfreq s \<le> hal_cmu_sys_get_freq (sf_cmu s))"

text \<open>The builds of this chip: 78M is a frequency of its own.\<close>

definition cfg_78m :: "sysfreq_cfg \<Rightarrow> bool" where
  "cfg_78m cfg \<longleftrightarrow> \<not> OSC_26M_X4_AUD2BB (sf_clk cfg) \<or> FREQ_78M_USE_PLL (sf_clk cfg)"

lemma clk_read_high: "cfg_78m cfg \<Longrightarrow> HAL_CMU_FREQ_26M \<le> f \<Longrightarrow> clk_read (sf_clk cfg) f = f"
  by (cases f) (simp_all add: clk_read_def cfg_78m_def freq_order)

lemma highest_user_correct:
  assumes "length per = HAL_SYSFREQ_USER_QTY"
  shows "fst (highest_user per) = highest per" and "snd (highest_user per) < HAL_SYSFREQ_USER_QTY"
    and "per ! snd (highest_user per) = highest per"
proof -
  let ?F = "\<lambda>k. fold (\<lambda>i (freq, user). if freq < per ! i then (per ! i, i) else (freq, user)) [1..<k] (per ! 0, 0)"
  have "snd (?F k) < k \<and> fst (?F k) = per ! snd (?F k) \<and> (\<forall>j<k. per ! j \<le> fst (?F k))" if "1 \<le> k" for k
    using that
  proof (induction k rule: dec_induct)
    case (step k)
    then show ?case by (auto simp: case_prod_beta less_Suc_eq intro: order_trans less_imp_le)
  qed simp
  from this [of HAL_SYSFREQ_USER_QTY, folded highest_user_def]
  have "snd (highest_user per) < HAL_SYSFREQ_USER_QTY \<and> fst (highest_user per) = per ! snd (highest_user per) \<and>
      (\<forall>j<HAL_SYSFREQ_USER_QTY. per ! j \<le> fst (highest_user per))"
    by (auto simp: HAL_SYSFREQ_USER_QTY_def)
  then have h: "snd (highest_user per) < length per" "fst (highest_user per) = per ! snd (highest_user per)"
    "\<forall>j<length per. per ! j \<le> fst (highest_user per)"
    using assms by auto
  then show "fst (highest_user per) = highest per"
    by (intro Max_eqI [symmetric]) (auto simp: in_set_conv_nth)
  with h assms show "snd (highest_user per) < HAL_SYSFREQ_USER_QTY" "per ! snd (highest_user per) = highest per"
    by simp_all
qed

section \<open>Every call keeps the invariant\<close>

lemma revise_simps:
  "hal_sysfreq_revise_freq f s =
     max (min_sysfreq s) (if f = HAL_CMU_FREQ_32K then HAL_CMU_FREQ_26M else f)"
  by (auto simp: hal_sysfreq_revise_freq_def Let_def max_def)

lemma sf_note_simps [simp]:
  "sysfreq_per_user (sf_note s) = sysfreq_per_user s" "top_user (sf_note s) = top_user s"
  "min_sysfreq (sf_note s) = min_sysfreq s" "sf_cmu (sf_note s) = sf_cmu s" "sf_pll (sf_note s) = sf_pll s"
  "sf_pmu (sf_note s) = sf_pmu s" "sf_seen (sf_note s) = sf_hw s # sf_seen s"
  by (simp_all add: sf_note_def)

lemma sf_set_freq_simps [simp]:
  "sysfreq_per_user (sf_set_freq cfg f s) = sysfreq_per_user s" "top_user (sf_set_freq cfg f s) = top_user s"
  "min_sysfreq (sf_set_freq cfg f s) = min_sysfreq s"
  "sf_cmu (sf_set_freq cfg f s) = hal_cmu_sys_set_freq (sf_clk cfg) f (sf_cmu s)"
  "sf_pll (sf_set_freq cfg f s) = sf_pll s" "sf_pmu (sf_set_freq cfg f s) = sf_pmu s"
  by (simp_all add: sf_set_freq_def)

lemma pmu_config_simps [simp]:
  "sysfreq_per_user (pmu_sys_freq_config cfg f s) = sysfreq_per_user s"
  "top_user (pmu_sys_freq_config cfg f s) = top_user s"
  "min_sysfreq (pmu_sys_freq_config cfg f s) = min_sysfreq s" "sf_cmu (pmu_sys_freq_config cfg f s) = sf_cmu s"
  by (simp_all add: pmu_sys_freq_config_def)

lemma low_freq_simps [simp]:
  "sysfreq_per_user (hal_cmu_low_freq_mode_enable cfg a b s) = sysfreq_per_user s"
  "top_user (hal_cmu_low_freq_mode_enable cfg a b s) = top_user s"
  "min_sysfreq (hal_cmu_low_freq_mode_enable cfg a b s) = min_sysfreq s"
  "sf_cmu (hal_cmu_low_freq_mode_enable cfg a b s) = sf_cmu s"
  "sysfreq_per_user (hal_cmu_low_freq_mode_disable cfg a b s) = sysfreq_per_user s"
  "top_user (hal_cmu_low_freq_mode_disable cfg a b s) = top_user s"
  "min_sysfreq (hal_cmu_low_freq_mode_disable cfg a b s) = min_sysfreq s"
  "sf_cmu (hal_cmu_low_freq_mode_disable cfg a b s) = sf_cmu s"
  by (simp_all add: hal_cmu_low_freq_mode_enable_def hal_cmu_low_freq_mode_disable_def)

lemma set_freq_force [simp]: "force_sys_div (hal_cmu_sys_set_freq cfg f c) = force_sys_div c"
  by (cases f) (simp_all add: hal_cmu_sys_set_freq_def clk_apply_other hal_psc_pll_freq_sel_high_def Let_def)

text \<open>What raising and lowering the clock do to the registers.\<close>

lemma sysfreq_change_simps:
  "sysfreq_per_user (sysfreq_raise cfg a b s) = sysfreq_per_user s" "top_user (sysfreq_raise cfg a b s) = top_user s"
  "min_sysfreq (sysfreq_raise cfg a b s) = min_sysfreq s"
  "sf_cmu (sysfreq_raise cfg a b s) = (if b \<noteq> a then hal_cmu_sys_set_freq (sf_clk cfg) b (sf_cmu s) else sf_cmu s)"
  "sysfreq_per_user (sysfreq_lower cfg a b s) = sysfreq_per_user s" "top_user (sysfreq_lower cfg a b s) = top_user s"
  "min_sysfreq (sysfreq_lower cfg a b s) = min_sysfreq s"
  "sf_cmu (sysfreq_lower cfg a b s) = (if b \<noteq> a then hal_cmu_sys_set_freq (sf_clk cfg) b (sf_cmu s) else sf_cmu s)"
  by (simp_all add: sysfreq_raise_def sysfreq_lower_def Let_def)

lemma max_update:
  assumes "i < length xs" and "\<And>x. x \<in> set xs \<Longrightarrow> x \<le> f"
  shows "Max (set (xs[i := f])) = f"
proof (rule Max_eqI)
  show "y \<le> f" if "y \<in> set (xs[i := f])" for y using that assms(2) set_update_subset_insert [of xs i f] by auto
  show "f \<in> set (xs[i := f])" using assms(1) by (rule set_update_memI)
qed simp

lemma highest_bound: "x \<in> set per \<Longrightarrow> x \<le> highest per"
  by simp

text \<open>The register of the clock before a request, whether or not some user is active.\<close>

lemma cur_read:
  assumes "sysfreq_inv cfg s" and "cfg_78m cfg"
  shows "hal_cmu_sys_get_freq (sf_cmu s) = clk_read (sf_clk cfg) (hal_sysfreq_revise_freq (hal_sysfreq_get s) s)"
proof (cases "top_user s < HAL_SYSFREQ_USER_QTY")
  case True
  then show ?thesis using assms(1) by (simp add: sysfreq_inv_def hal_sysfreq_get_def)
next
  case False
  let ?h = "hal_cmu_sys_get_freq (sf_cmu s)"
  have h: "HAL_CMU_FREQ_26M \<le> ?h" "min_sysfreq s \<le> ?h" using assms(1) False by (simp_all add: sysfreq_inv_def)
  then have "?h \<noteq> HAL_CMU_FREQ_32K" by (auto simp: freq_order)
  then have "hal_sysfreq_revise_freq ?h s = ?h" using h by (simp add: revise_simps max_def)
  then show ?thesis using False clk_read_high [OF assms(2) h(1)] by (simp add: hal_sysfreq_get_def)
qed

text \<open>A change of the clock from the revised old to the revised new highest request.\<close>

lemma settle:
  assumes "length (sysfreq_per_user t) = HAL_SYSFREQ_USER_QTY" and "force_sys_div c = 0"
    and "top_user t < HAL_SYSFREQ_USER_QTY" and "sysfreq_per_user t ! top_user t = highest (sysfreq_per_user t)"
    and "hal_cmu_sys_get_freq c = clk_read (sf_clk cfg) a"
    and "b = hal_sysfreq_revise_freq (highest (sysfreq_per_user t)) t"
    and "sf_cmu t = (if b \<noteq> a then hal_cmu_sys_set_freq (sf_clk cfg) b c else c)"
  shows "sysfreq_inv cfg t"
  using assms set_get_freq [of c "sf_clk cfg" b] by (auto simp: sysfreq_inv_def)

lemma revise_cong: "min_sysfreq t = min_sysfreq s \<Longrightarrow> hal_sysfreq_revise_freq f t = hal_sysfreq_revise_freq f s"
  by (simp add: revise_simps)

lemma req_inv:
  assumes I: "sysfreq_inv cfg s" and C: "cfg_78m cfg"
  shows "sysfreq_inv cfg (snd (hal_sysfreq_req cfg user freq_no s))"
proof (cases "user < HAL_SYSFREQ_USER_QTY \<and> freq_no < HAL_CMU_FREQ_QTY")
  case False
  then show ?thesis using I by (auto simp: hal_sysfreq_req_def)
next
  case True
  let ?f = "all_freqs ! freq_no" and ?cur = "hal_sysfreq_get s" and ?per = "sysfreq_per_user s"
  let ?per' = "?per[user := ?f]" and ?t = "s\<lparr>sysfreq_per_user := ?per[user := ?f]\<rparr>"
  let ?r = "\<lambda>f. hal_sysfreq_revise_freq f s"
  have len: "length ?per = HAL_SYSFREQ_USER_QTY" and force: "force_sys_div (sf_cmu s) = 0"
    using I by (simp_all add: sysfreq_inv_def)
  note rd = cur_read [OF I C]
  have below: "x \<le> ?f" if "x \<in> set ?per" "?cur \<le> ?f \<or> top_user s = HAL_SYSFREQ_USER_QTY" for x
  proof (cases "top_user s < HAL_SYSFREQ_USER_QTY")
    case True
    then have "x \<le> ?cur" using I that(1) by (simp add: sysfreq_inv_def hal_sysfreq_get_def)
    then show ?thesis using that(2) True by auto
  next
    case False
    then have "?per = replicate HAL_SYSFREQ_USER_QTY HAL_CMU_FREQ_32K" using I by (simp add: sysfreq_inv_def)
    then have "x = HAL_CMU_FREQ_32K" using that(1) by auto
    then show ?thesis by simp
  qed
  have new: "highest ?per' = ?f" if "?cur \<le> ?f \<or> top_user s = HAL_SYSFREQ_USER_QTY"
    using True len below that by (intro max_update) auto
  consider (same) "?f = ?cur" | (up) "?cur < ?f" | (top) "?f < ?cur" "top_user s = user"
    | (first) "?f < ?cur" "top_user s = HAL_SYSFREQ_USER_QTY" | (other) "?f < ?cur" "top_user s < HAL_SYSFREQ_USER_QTY"
      "top_user s \<noteq> user"
    using I by (fastforce simp: sysfreq_inv_def split: if_splits)
  then show ?thesis
  proof cases
    case same
    then have "highest ?per' = ?f" by (intro new) auto
    then have "sysfreq_inv cfg (?t\<lparr>top_user := user\<rparr>)"
      using True len force rd same
      by (intro settle [of _ "sf_cmu s" cfg "?r ?cur" "?r ?f"]) (auto simp: revise_simps)
    then show ?thesis using True same by (simp add: hal_sysfreq_req_def Let_def)
  next
    case up
    then have "highest ?per' = ?f" by (intro new) auto
    then have "sysfreq_inv cfg (sysfreq_raise cfg (?r ?cur) (?r ?f) (?t\<lparr>top_user := user\<rparr>))"
      using True len force rd
      by (intro settle [of _ "sf_cmu s" cfg "?r ?cur" "?r ?f"]) (auto simp: sysfreq_change_simps revise_simps)
    then show ?thesis using True up revise_cong [of "?t\<lparr>top_user := user\<rparr>" s]
      by (auto simp: hal_sysfreq_req_def Let_def)
  next
    case top
    let ?h = "highest_user ?per'"
    let ?u = "?t\<lparr>top_user := snd ?h\<rparr>"
    have h: "fst ?h = highest ?per'" "snd ?h < HAL_SYSFREQ_USER_QTY" "?per' ! snd ?h = highest ?per'"
      using highest_user_correct [of ?per'] len by simp_all
    have "sysfreq_inv cfg (if fst ?h \<noteq> ?cur then sysfreq_lower cfg (?r ?cur) (?r (fst ?h)) ?u else ?u)"
      using True len force h rd
      by (intro settle [of _ "sf_cmu s" cfg "?r ?cur" "?r (fst ?h)"]) (auto simp: sysfreq_change_simps revise_simps)
    then show ?thesis using True top revise_cong [of ?u s]
      by (auto simp: hal_sysfreq_req_def Let_def case_prod_beta)
  next
    case first
    then have "highest ?per' = ?f" by (intro new) auto
    then have "sysfreq_inv cfg (sysfreq_lower cfg (?r ?cur) (?r ?f) (?t\<lparr>top_user := user\<rparr>))"
      using True len force rd
      by (intro settle [of _ "sf_cmu s" cfg "?r ?cur" "?r ?f"]) (auto simp: sysfreq_change_simps revise_simps)
    then show ?thesis using True first revise_cong [of "?t\<lparr>top_user := user\<rparr>" s]
      by (auto simp: hal_sysfreq_req_def Let_def)
  next
    case other
    have c: "?per ! top_user s = ?cur" "?cur = highest ?per" using other I by (simp_all add: sysfreq_inv_def hal_sysfreq_get_def)
    have "highest ?per' = ?cur"
    proof (rule Max_eqI)
      show "y \<le> ?cur" if "y \<in> set ?per'" for y
        using that c other(1) set_update_subset_insert [of ?per user ?f] highest_bound [of y ?per] by auto
      have "?per' ! top_user s = ?cur" using other c by simp
      then show "?cur \<in> set ?per'" using other len nth_mem [of "top_user s" ?per'] by simp
    qed simp
    then have "sysfreq_inv cfg ?t"
      using other len force rd c by (intro settle [of _ "sf_cmu s" cfg "?r ?cur" "?r ?cur"]) (auto simp: revise_simps)
    then show ?thesis using True other by (auto simp: hal_sysfreq_req_def Let_def)
  qed
qed

lemma set_min_inv:
  assumes I: "sysfreq_inv cfg s" and C: "cfg_78m cfg"
  shows "sysfreq_inv cfg (hal_sysfreq_set_min_freq cfg freq s)"
proof -
  let ?t = "s\<lparr>min_sysfreq := freq\<rparr>" and ?cur = "hal_sysfreq_get s"
  let ?a = "hal_sysfreq_revise_freq ?cur s" and ?b = "hal_sysfreq_revise_freq ?cur ?t"
  let ?u = "if ?a \<noteq> ?b then sf_set_freq cfg ?b ?t else ?t"
  have force: "force_sys_div (sf_cmu s) = 0" using I by (simp add: sysfreq_inv_def)
  note rd = cur_read [OF I C]
  have hw: "hal_cmu_sys_get_freq (sf_cmu ?u) = clk_read (sf_clk cfg) ?b"
    using rd set_get_freq [OF force] by simp
  have "sysfreq_inv cfg ?u"
  proof (cases "top_user s < HAL_SYSFREQ_USER_QTY")
    case True
    then show ?thesis using I hw by (auto simp: sysfreq_inv_def hal_sysfreq_get_def revise_simps)
  next
    case False
    then have c: "?cur = hal_cmu_sys_get_freq (sf_cmu s)" "HAL_CMU_FREQ_26M \<le> ?cur"
      using I by (simp_all add: sysfreq_inv_def hal_sysfreq_get_def)
    have "?cur \<noteq> HAL_CMU_FREQ_32K" using c(2) by (auto simp: freq_order)
    then have b: "?b = max freq ?cur" by (simp add: revise_simps)
    then have "HAL_CMU_FREQ_26M \<le> ?b" "freq \<le> ?b" using c(2) by (auto simp: max_def)
    then show ?thesis using I False hw clk_read_high [OF C, of ?b] by (auto simp: sysfreq_inv_def)
  qed
  then show ?thesis using I by (auto simp: hal_sysfreq_set_min_freq_def Let_def)
qed

section \<open>Runs\<close>

inductive sysfreq_step :: "sysfreq_cfg \<Rightarrow> sysfreq \<Rightarrow> sysfreq \<Rightarrow> bool" for cfg where
  req: "sysfreq_step cfg s (snd (hal_sysfreq_req cfg user freq_no s))"
| set_min: "sysfreq_step cfg s (hal_sysfreq_set_min_freq cfg freq s)"
| inc_min: "sysfreq_step cfg s (snd (hal_sysfreq_inc_min_freq cfg freq s))"

inductive_cases sysfreq_stepE: "sysfreq_step cfg s s'"

lemma step_inv: "sysfreq_step cfg s s' \<Longrightarrow> sysfreq_inv cfg s \<Longrightarrow> cfg_78m cfg \<Longrightarrow> sysfreq_inv cfg s'"
  by (erule sysfreq_stepE) (simp_all add: req_inv set_min_inv hal_sysfreq_inc_min_freq_def)

lemma init_inv:
  "force_sys_div c = 0 \<Longrightarrow> HAL_CMU_FREQ_26M \<le> hal_cmu_sys_get_freq c \<Longrightarrow> sysfreq_inv cfg (sysfreq_init c pll pmu)"
  by (simp add: sysfreq_inv_def sysfreq_init_def)

lemma reach_inv:
  assumes "(sysfreq_step cfg)\<^sup>*\<^sup>* s s'" and "sysfreq_inv cfg s" and "cfg_78m cfg"
  shows "sysfreq_inv cfg s'"
  using assms by (induction rule: rtranclp_induct) (auto intro: step_inv)

text \<open>
  C11: The clock follows the highest request. In a build where 78M is a frequency of its own, without a
  forced divider and started on a clock of at least 26M, after any sequence of requests and changes of the
  minimum: once some user is active, \<open>hal_sysfreq_get\<close> is the highest of the users' requests,
  \<open>hal_sysfreq_get_hw_freq\<close> is that raised to the minimum, 32K counting as 26M, and the clock was set to it. If it is
  at least 26M the clock reads exactly it; the settings 13M and 6.5M read as 26M or 32K. While no user
  is active the clock stays at least at the minimum and nothing is requested.
\<close>

theorem sysfreq_follows_highest:
  assumes "cfg_78m cfg" and "force_sys_div c = 0" and "HAL_CMU_FREQ_26M \<le> hal_cmu_sys_get_freq c"
    and "(sysfreq_step cfg)\<^sup>*\<^sup>* (sysfreq_init c pll pmu) s"
  shows "(top_user s < HAL_SYSFREQ_USER_QTY \<longrightarrow>
      hal_sysfreq_get s = highest (sysfreq_per_user s) \<and>
      hal_sysfreq_get_hw_freq s = max (min_sysfreq s)
        (if highest (sysfreq_per_user s) = HAL_CMU_FREQ_32K then HAL_CMU_FREQ_26M else highest (sysfreq_per_user s)) \<and>
      hal_cmu_sys_get_freq (sf_cmu s) = clk_read (sf_clk cfg) (hal_sysfreq_get_hw_freq s) \<and>
      (HAL_CMU_FREQ_26M \<le> hal_sysfreq_get_hw_freq s \<longrightarrow> hal_cmu_sys_get_freq (sf_cmu s) = hal_sysfreq_get_hw_freq s) \<and>
      (hal_sysfreq_get_hw_freq s < HAL_CMU_FREQ_26M \<longrightarrow>
         hal_sysfreq_get_hw_freq s \<in> {HAL_CMU_FREQ_6P5M, HAL_CMU_FREQ_13M} \<and>
         hal_cmu_sys_get_freq (sf_cmu s) \<in> {HAL_CMU_FREQ_26M, HAL_CMU_FREQ_32K})) \<and>
    (top_user s = HAL_SYSFREQ_USER_QTY \<longrightarrow>
      \<not> hal_sysfreq_busy s \<and> min_sysfreq s \<le> hal_cmu_sys_get_freq (sf_cmu s)) \<and>
    top_user s \<le> HAL_SYSFREQ_USER_QTY"
proof -
  have I: "sysfreq_inv cfg s" using reach_inv [OF assms(4) init_inv [OF assms(2,3)] assms(1)] .
  let ?hw = "hal_sysfreq_get_hw_freq s"
  have c: "hal_cmu_sys_get_freq (sf_cmu s) = clk_read (sf_clk cfg) ?hw" if "top_user s < HAL_SYSFREQ_USER_QTY"
    using I that by (simp add: sysfreq_inv_def hal_sysfreq_get_hw_freq_def)
  have "?hw \<noteq> HAL_CMU_FREQ_32K" if "top_user s < HAL_SYSFREQ_USER_QTY"
    using that by (auto simp: hal_sysfreq_get_hw_freq_def revise_simps max_def freq_order split: if_splits)
  then have low: "?hw < HAL_CMU_FREQ_26M \<longrightarrow> ?hw \<in> {HAL_CMU_FREQ_6P5M, HAL_CMU_FREQ_13M} \<and>
      clk_read (sf_clk cfg) ?hw \<in> {HAL_CMU_FREQ_26M, HAL_CMU_FREQ_32K}" if "top_user s < HAL_SYSFREQ_USER_QTY"
    using that by (cases ?hw) (simp_all add: clk_read_def freq_order)
  have "(top_user s < HAL_SYSFREQ_USER_QTY \<longrightarrow>
      hal_sysfreq_get s = highest (sysfreq_per_user s) \<and>
      ?hw = max (min_sysfreq s)
        (if highest (sysfreq_per_user s) = HAL_CMU_FREQ_32K then HAL_CMU_FREQ_26M else highest (sysfreq_per_user s))) \<and>
    (top_user s = HAL_SYSFREQ_USER_QTY \<longrightarrow>
      \<not> hal_sysfreq_busy s \<and> min_sysfreq s \<le> hal_cmu_sys_get_freq (sf_cmu s)) \<and>
    top_user s \<le> HAL_SYSFREQ_USER_QTY"
    using I by (auto simp: sysfreq_inv_def hal_sysfreq_get_def hal_sysfreq_get_hw_freq_def revise_simps hal_sysfreq_busy_def
        split: if_splits)
  then show ?thesis using c low clk_read_high [OF assms(1), of ?hw] by metis
qed

definition demo_cfg :: sysfreq_cfg where
  "demo_cfg = \<lparr>sf_clk = \<lparr>LOW_SYS_FREQ = False, LOW_SYS_FREQ_6P5M = False, OSC_26M_X4_AUD2BB = False,
     FREQ_78M_USE_PLL = False\<rparr>, ULTRA_LOW_POWER = True, FLASH_LOW_SPEED = True, PMU_CTRL_ENABLE = True\<rparr>"

definition demo_clock :: cmu_t where
  "demo_clock = \<lparr>SYS_CLK = BIT 8, SYS_DIV = 0, psc_REG_044 = 0, force_sys_div = 0, cmu_sys_freq = HAL_CMU_FREQ_32K\<rparr>"

lemma demo_clock_26m: "hal_cmu_sys_get_freq demo_clock = HAL_CMU_FREQ_26M"
  by (simp add: demo_clock_def get_freq_bits)

lemma demo_cfg_78m: "cfg_78m demo_cfg"
  by (simp add: cfg_78m_def demo_cfg_def)

theorem sysfreq_follows_highest_witness:
  "hal_cmu_sys_get_freq (sf_cmu (snd (hal_sysfreq_req demo_cfg 4 6 (sysfreq_init demo_clock False HAL_CMU_FREQ_26M))))
     = HAL_CMU_FREQ_104M"
proof -
  let ?i = "sysfreq_init demo_clock False HAL_CMU_FREQ_26M"
  let ?s = "snd (hal_sysfreq_req demo_cfg 4 6 ?i)"
  have f: "all_freqs ! 6 = HAL_CMU_FREQ_104M" by (simp add: all_freqs_def)
  have g: "hal_sysfreq_get ?i = HAL_CMU_FREQ_26M"
    using demo_clock_26m by (simp add: hal_sysfreq_get_def sysfreq_init_def)
  have s: "top_user ?s = 4" "min_sysfreq ?s = HAL_CMU_FREQ_32K" "sysfreq_per_user ?s ! 4 = HAL_CMU_FREQ_104M"
    using g f by (simp_all add: hal_sysfreq_req_def HAL_SYSFREQ_USER_QTY_def HAL_CMU_FREQ_QTY_def Let_def freq_order
        sysfreq_change_simps) (simp_all add: sysfreq_init_def HAL_SYSFREQ_USER_QTY_def)
  have "(sysfreq_step demo_cfg)\<^sup>*\<^sup>* ?i ?s" using sysfreq_step.req by blast
  from sysfreq_follows_highest [OF demo_cfg_78m _ _ this] demo_clock_26m
  have "hal_cmu_sys_get_freq (sf_cmu ?s) = clk_read (sf_clk demo_cfg) (hal_sysfreq_get_hw_freq ?s)"
    using s(1) by (simp add: demo_clock_def HAL_SYSFREQ_USER_QTY_def)
  moreover have "hal_sysfreq_get_hw_freq ?s = HAL_CMU_FREQ_104M"
    using s by (simp add: hal_sysfreq_get_hw_freq_def revise_simps HAL_SYSFREQ_USER_QTY_def max_def)
  ultimately show ?thesis by (simp add: clk_read_def)
qed

text \<open>
  The return values of \<open>hal_sysfreq_req\<close>: an unknown user gives 1, an unknown frequency 2, and both
  change nothing; an accepted request gives 0 and is recorded for that user and no other, and the
  minimum is unchanged.
\<close>

theorem sysfreq_req_records:
  "fst (hal_sysfreq_req cfg user freq_no s) =
     (if HAL_SYSFREQ_USER_QTY \<le> user then 1 else if HAL_CMU_FREQ_QTY \<le> freq_no then 2 else 0) \<and>
   (fst (hal_sysfreq_req cfg user freq_no s) \<noteq> 0 \<longrightarrow> snd (hal_sysfreq_req cfg user freq_no s) = s) \<and>
   (fst (hal_sysfreq_req cfg user freq_no s) = 0 \<longrightarrow>
      sysfreq_per_user (snd (hal_sysfreq_req cfg user freq_no s)) = (sysfreq_per_user s)[user := all_freqs ! freq_no] \<and>
      min_sysfreq (snd (hal_sysfreq_req cfg user freq_no s)) = min_sysfreq s)"
  by (auto simp: hal_sysfreq_req_def Let_def sysfreq_change_simps case_prod_beta)

theorem sysfreq_req_records_witness:
  "fst (hal_sysfreq_req demo_cfg 39 6 (sysfreq_init demo_clock False HAL_CMU_FREQ_26M)) = 1 \<and>
   fst (hal_sysfreq_req demo_cfg 3 9 (sysfreq_init demo_clock False HAL_CMU_FREQ_26M)) = 2"
  using sysfreq_req_records [of demo_cfg 39 6 "sysfreq_init demo_clock False HAL_CMU_FREQ_26M"]
    sysfreq_req_records [of demo_cfg 3 9 "sysfreq_init demo_clock False HAL_CMU_FREQ_26M"]
  by (simp add: HAL_SYSFREQ_USER_QTY_def HAL_CMU_FREQ_QTY_def)

section \<open>Supply and PLL\<close>

text \<open>
  Above 26M the supply is configured for at least the clock, and above 52M the PLL is in use. Nothing is
  asked of the supply up to 26M: a request of 13M configures it for 13M while the clock reads 26M.
\<close>

fun hw_safe :: "HAL_CMU_FREQ_T \<times> bool \<times> HAL_CMU_FREQ_T \<Rightarrow> bool" where
  "hw_safe (clk, pll, pmu) \<longleftrightarrow>
     (HAL_CMU_FREQ_26M < clk \<longrightarrow> clk \<le> pmu) \<and> (HAL_CMU_FREQ_52M < clk \<longrightarrow> pll)"

lemma supply_max: "(HAL_CMU_FREQ_26M < clk \<longrightarrow> clk \<le> pmu) \<longleftrightarrow> clk \<le> max HAL_CMU_FREQ_26M pmu"
  by (auto simp: le_max_iff_disj)

definition always_safe :: "sysfreq \<Rightarrow> bool" where
  "always_safe s \<longleftrightarrow> (\<forall>h \<in> set (sf_hw s # sf_seen s). hw_safe h)"

definition low_power_build :: "sysfreq_cfg \<Rightarrow> bool" where
  "low_power_build cfg \<longleftrightarrow>
     \<not> OSC_26M_X4_AUD2BB (sf_clk cfg) \<and> ULTRA_LOW_POWER cfg \<and> FLASH_LOW_SPEED cfg \<and> PMU_CTRL_ENABLE cfg"

lemma clk_read_bounds:
  assumes "low_power_build cfg"
  shows "clk_read (sf_clk cfg) f \<le> max HAL_CMU_FREQ_26M f"
    and "HAL_CMU_FREQ_52M < clk_read (sf_clk cfg) f \<longleftrightarrow> HAL_CMU_FREQ_52M < f"
    and "HAL_CMU_FREQ_26M \<le> f \<Longrightarrow> clk_read (sf_clk cfg) f = f"
  using assms by (cases f; simp add: clk_read_def low_power_build_def freq_order max_def)+

lemma raise_safe:
  assumes B: "low_power_build cfg" and S: "always_safe s" and force: "force_sys_div (sf_cmu s) = 0"
    and rd: "hal_cmu_sys_get_freq (sf_cmu s) = clk_read (sf_clk cfg) a" and ab: "a \<le> max HAL_CMU_FREQ_26M b"
  shows "always_safe (sysfreq_raise cfg a b s)"
proof (cases "b = a")
  case True
  then show ?thesis using S by (simp add: sysfreq_raise_def)
next
  case False
  have h: "clk_read (sf_clk cfg) a \<le> max HAL_CMU_FREQ_26M (sf_pmu s)" "HAL_CMU_FREQ_52M < a \<longrightarrow> sf_pll s"
    and seen: "\<forall>h \<in> set (sf_seen s). hw_safe h"
    using S rd clk_read_bounds(2) [OF B, of a] by (simp_all add: always_safe_def sf_hw_def supply_max)
  have up: "clk_read (sf_clk cfg) a \<le> max HAL_CMU_FREQ_26M b"
    using clk_read_bounds(1) [OF B, of a] ab by (auto simp: max_def split: if_splits)
  have "HAL_CMU_FREQ_52M < a \<Longrightarrow> HAL_CMU_FREQ_52M < b"
    using ab by (auto simp: max_def freq_order split: if_splits)
  note R = set_get_freq [OF force, of "sf_clk cfg" b] clk_read_bounds(1,2) [OF B, of b]
    clk_read_bounds(2) [OF B, of a] this
  show ?thesis
    using False B up h(2) seen rd R ab S
    by (auto simp: always_safe_def sysfreq_raise_def low_power_build_def pmu_sys_freq_config_def sf_set_freq_def
        hal_cmu_low_freq_mode_disable_def sf_hw_def supply_max Let_def not_less)
qed

lemma lower_safe:
  assumes B: "low_power_build cfg" and S: "always_safe s" and force: "force_sys_div (sf_cmu s) = 0"
    and rd: "hal_cmu_sys_get_freq (sf_cmu s) = clk_read (sf_clk cfg) a" and ab: "b \<le> max HAL_CMU_FREQ_26M a"
  shows "always_safe (sysfreq_lower cfg a b s)"
proof (cases "b = a")
  case True
  then show ?thesis using S by (simp add: sysfreq_lower_def)
next
  case False
  have h: "clk_read (sf_clk cfg) a \<le> max HAL_CMU_FREQ_26M (sf_pmu s)" "HAL_CMU_FREQ_52M < a \<longrightarrow> sf_pll s"
    and seen: "\<forall>h \<in> set (sf_seen s). hw_safe h"
    using S rd clk_read_bounds(2) [OF B, of a] by (simp_all add: always_safe_def sf_hw_def supply_max)
  have down: "clk_read (sf_clk cfg) b \<le> max HAL_CMU_FREQ_26M (sf_pmu s)"
  proof (cases "HAL_CMU_FREQ_26M \<le> a")
    case True
    then have "a \<le> max HAL_CMU_FREQ_26M (sf_pmu s)" using h(1) clk_read_bounds(3) [OF B] by simp
    then show ?thesis using clk_read_bounds(1) [OF B, of b] ab by (auto simp: max_def split: if_splits)
  next
    case False
    then show ?thesis using clk_read_bounds(1) [OF B, of b] ab by (auto simp: max_def split: if_splits)
  qed
  have "HAL_CMU_FREQ_52M < b \<Longrightarrow> HAL_CMU_FREQ_52M < a"
    using ab by (auto simp: max_def freq_order split: if_splits)
  note R = set_get_freq [OF force, of "sf_clk cfg" b] clk_read_bounds(1,2) [OF B, of b] this
  show ?thesis
    using False B down h(2) seen R ab S
    by (auto simp: always_safe_def sysfreq_lower_def low_power_build_def pmu_sys_freq_config_def sf_set_freq_def
        hal_cmu_low_freq_mode_enable_def sf_hw_def supply_max Let_def not_less)
qed

lemma revise_bound: "f \<le> g \<Longrightarrow> hal_sysfreq_revise_freq f s \<le> max HAL_CMU_FREQ_26M (hal_sysfreq_revise_freq g s)"
  by (auto simp: revise_simps max_def freq_order split: if_splits)

lemma always_safe_cong:
  "sf_hw t = sf_hw s \<Longrightarrow> sf_seen t = sf_seen s \<Longrightarrow> always_safe t = always_safe s"
  by (simp add: always_safe_def)

lemma req_safe:
  assumes I: "sysfreq_inv cfg s" and B: "low_power_build cfg" and S: "always_safe s"
  shows "always_safe (snd (hal_sysfreq_req cfg user freq_no s))"
proof -
  have C: "cfg_78m cfg" using B by (simp add: low_power_build_def cfg_78m_def)
  have force: "force_sys_div (sf_cmu s) = 0" and len: "length (sysfreq_per_user s) = HAL_SYSFREQ_USER_QTY"
    using I by (simp_all add: sysfreq_inv_def)
  let ?f = "all_freqs ! freq_no" and ?cur = "hal_sysfreq_get s"
  let ?per = "(sysfreq_per_user s)[user := ?f]"
  let ?t = "\<lambda>u. s\<lparr>sysfreq_per_user := ?per, top_user := u\<rparr>"
  let ?r = "\<lambda>f. hal_sysfreq_revise_freq f s"
  have t: "always_safe (?t u)" "always_safe (s\<lparr>sysfreq_per_user := ?per\<rparr>)" for u
    using S by (simp_all add: always_safe_def sf_hw_def)
  have up: "always_safe (sysfreq_raise cfg (?r ?cur) (?r g) (?t u))" if "?cur \<le> g" for g u
    by (rule raise_safe [OF B t(1)]) (use force cur_read [OF I C] revise_bound [OF that] in simp_all)
  have down: "always_safe (sysfreq_lower cfg (?r ?cur) (?r g) (?t u))" if "g \<le> ?cur" for g u
    by (rule lower_safe [OF B t(1)]) (use force cur_read [OF I C] revise_bound [OF that] in simp_all)
  have top: "fst (highest_user ?per) \<le> ?cur" if "?f < ?cur" "top_user s < HAL_SYSFREQ_USER_QTY"
  proof -
    have cur: "?cur = highest (sysfreq_per_user s)" using I that(2) by (simp add: sysfreq_inv_def hal_sysfreq_get_def)
    have "?per \<noteq> []" using len by (auto simp: HAL_SYSFREQ_USER_QTY_def)
    moreover have "x \<le> ?cur" if "x \<in> set ?per" for x
      using that \<open>?f < ?cur\<close> set_update_subset_insert [of "sysfreq_per_user s" user ?f] unfolding cur
      by (auto dest: highest_bound)
    ultimately show ?thesis using highest_user_correct(1) [of ?per] len by simp
  qed
  have cong: "hal_sysfreq_revise_freq g (?t u) = ?r g" for g u by (simp add: revise_simps)
  show ?thesis
    using S t up [of ?f user] down [of ?f user] down [of "fst (highest_user ?per)" "snd (highest_user ?per)"] top
    by (auto simp: hal_sysfreq_req_def Let_def case_prod_beta cong not_less)
qed

text \<open>
  C12: Supply and PLL. In the low-power build, without a forced divider, started on a clock of at least 26M
  with a supply and a PLL that suit it, after any number of calls of \<open>hal_sysfreq_req\<close>: at every moment after a call
  to the hardware, whenever the clock was above 26M the supply was configured for at least its
  frequency, and whenever it was above 52M the PLL was in use. \<open>hal_sysfreq_set_min_freq\<close> is excluded: it changes
  the clock alone.
\<close>

theorem sysfreq_supply_safe:
  assumes "low_power_build cfg" and "force_sys_div c = 0" and "HAL_CMU_FREQ_26M \<le> hal_cmu_sys_get_freq c"
    and "HAL_CMU_FREQ_26M < hal_cmu_sys_get_freq c \<longrightarrow> hal_cmu_sys_get_freq c \<le> pmu"
    and "HAL_CMU_FREQ_52M < hal_cmu_sys_get_freq c \<longrightarrow> pll"
    and "s = fold (\<lambda>(user, freq_no) s. snd (hal_sysfreq_req cfg user freq_no s)) reqs (sysfreq_init c pll pmu)"
    and "(clk, use_pll, supply) \<in> set (sf_hw s # sf_seen s)"
  shows "(HAL_CMU_FREQ_26M < clk \<longrightarrow> clk \<le> supply) \<and> (HAL_CMU_FREQ_52M < clk \<longrightarrow> use_pll)"
proof -
  have C: "cfg_78m cfg" using assms(1) by (simp add: low_power_build_def cfg_78m_def)
  have run: "sysfreq_inv cfg t \<Longrightarrow> always_safe t \<Longrightarrow>
      always_safe (fold (\<lambda>(user, freq_no) s. snd (hal_sysfreq_req cfg user freq_no s)) reqs t)" for t
    by (induction reqs arbitrary: t) (auto simp: req_inv [OF _ C] req_safe [OF _ assms(1)])
  have "always_safe (sysfreq_init c pll pmu)"
    using assms(4,5) by (simp add: always_safe_def sysfreq_init_def sf_hw_def)
  from run [OF init_inv [OF assms(2,3)] this] have "hw_safe (clk, use_pll, supply)"
    using assms(7) unfolding assms(6) always_safe_def by blast
  then show ?thesis by simp
qed

theorem sysfreq_supply_safe_witness:
  "list_all hw_safe (sf_seen (fold (\<lambda>(user, freq_no) s. snd (hal_sysfreq_req demo_cfg user freq_no s))
     [(4, 8), (12, 5), (4, 0)] (sysfreq_init demo_clock False HAL_CMU_FREQ_26M)))"
proof -
  have "low_power_build demo_cfg" "force_sys_div demo_clock = 0" "HAL_CMU_FREQ_26M \<le> hal_cmu_sys_get_freq demo_clock"
    "HAL_CMU_FREQ_26M < hal_cmu_sys_get_freq demo_clock \<longrightarrow> hal_cmu_sys_get_freq demo_clock \<le> HAL_CMU_FREQ_26M"
    "HAL_CMU_FREQ_52M < hal_cmu_sys_get_freq demo_clock \<longrightarrow> False"
    using demo_clock_26m by (simp_all add: low_power_build_def demo_cfg_def demo_clock_def freq_order)
  note S = sysfreq_supply_safe [OF this refl, of _ _ _ "[(4, 8), (12, 5), (4, 0)]"]
  show ?thesis unfolding list_all_iff
  proof
    fix h
    assume h: "h \<in> set (sf_seen (fold (\<lambda>(user, freq_no) s. snd (hal_sysfreq_req demo_cfg user freq_no s))
      [(4, 8), (12, 5), (4, 0)] (sysfreq_init demo_clock False HAL_CMU_FREQ_26M)))"
    obtain clk pll pmu where "h = (clk, pll, pmu)" by (cases h)
    then show "hw_safe h" using S [of clk pll pmu, OF list.set_intros(2)] h by simp
  qed
qed

end
