(* ===== verification/HalTimer.thy ===== *)
theory HalTimer
  imports BesPrelude
begin

text \<open>
  The calibrated slow timer of \<open>src/platform/hal/hal_timer.c\<close>, built without the floating-point unit: the
  measurement of its frequency against the fast timer and the conversions between ticks and time.
  Every product has a 32-bit branch for small arguments and a 64-bit one for large arguments.
\<close>

section \<open>State and calibration\<close>

type_synonym u64 = "64 word"

definition CONFIG_SYSTICK_HZ_NOMINAL :: u32 where
  "CONFIG_SYSTICK_HZ_NOMINAL = 16000"

definition MAX_CALIB_SYSTICK_HZ :: u32 where
  "MAX_CALIB_SYSTICK_HZ = CONFIG_SYSTICK_HZ_NOMINAL * 2"

definition MIN_CALIB_TICKS :: u32 where
  "MIN_CALIB_TICKS = 30 * (CONFIG_SYSTICK_HZ_NOMINAL div 1000)"

definition MAX_CALIB_TICKS :: u32 where
  "MAX_CALIB_TICKS = 30 * CONFIG_SYSTICK_HZ_NOMINAL"

record sys_timer =
  sys_tick_hz :: u32
  slow_val :: u32
  fast_val :: u32

definition sys_timer_init :: sys_timer where
  "sys_timer_init = \<lparr>sys_tick_hz = CONFIG_SYSTICK_HZ_NOMINAL, slow_val = 0, fast_val = 0\<rparr>"

text \<open>
  \<open>slow\<close> is the slow timer's count when the measurement is called and \<open>fast\<close> the fast timer's at the
  next slow tick, which the code waits for; \<open>fast_hz\<close> is \<open>CONFIG_FAST_SYSTICK_HZ\<close>.
\<close>

definition hal_sys_timer_calib_start :: "u32 \<Rightarrow> u32 \<Rightarrow> sys_timer \<Rightarrow> sys_timer" where
  "hal_sys_timer_calib_start slow fast t = t\<lparr>slow_val := slow + 1, fast_val := fast\<rparr>"

definition hal_sys_timer_calib_end :: "u32 \<Rightarrow> u32 \<Rightarrow> u32 \<Rightarrow> sys_timer \<Rightarrow> int \<times> sys_timer" where
  "hal_sys_timer_calib_end fast_hz slow fast t =
     (let slow = slow + 1;
          slow_diff = slow - slow_val t
      in if slow_diff < MIN_CALIB_TICKS then (1, t)
         else if MAX_CALIB_TICKS < slow_diff then (2, t)
         else
           let fast_diff = fast - fast_val t;
               mul = (ucast fast_hz :: u64) * ucast slow_diff + ucast (fast_diff div 2);
               hz = (if drop_bit 32 mul = 0 then ucast mul div fast_diff else ucast (mul div ucast fast_diff));
               hz = (if MAX_CALIB_SYSTICK_HZ < hz then MAX_CALIB_SYSTICK_HZ else hz)
           in (0, t\<lparr>sys_tick_hz := hz\<rparr>))"

definition hal_sys_timer_systick_hz :: "sys_timer \<Rightarrow> u32" where
  "hal_sys_timer_systick_hz t = sys_tick_hz t"

section \<open>Conversions\<close>

text \<open>\<^verbatim>\<open>~0UL\<close> has 32 bits.\<close>

definition ULONG_MAX :: u32 where
  "ULONG_MAX = 0xFFFFFFFF"

definition hal_sys_timer_ms_to_ticks :: "u32 \<Rightarrow> sys_timer \<Rightarrow> u32" where
  "hal_sys_timer_ms_to_ticks ms t =
     (if ms \<le> ULONG_MAX div MAX_CALIB_SYSTICK_HZ then (ms * sys_tick_hz t + 1000 - 1) div 1000
      else ucast (((ucast ms :: u64) * ucast (sys_tick_hz t) + 1000 - 1) div 1000))"


definition hal_sys_timer_ticks_to_ms :: "u32 \<Rightarrow> sys_timer \<Rightarrow> u32" where
  "hal_sys_timer_ticks_to_ms tick t =
     (let hz = sys_tick_hz t in
      if tick \<le> (ULONG_MAX - MAX_CALIB_SYSTICK_HZ div 2) div 1000 then (tick * 1000 + hz div 2) div hz
      else ucast (((ucast tick :: u64) * 1000 + ucast (hz div 2)) div ucast hz))"


section \<open>No product overflows\<close>

lemmas timer_consts = CONFIG_SYSTICK_HZ_NOMINAL_def MAX_CALIB_SYSTICK_HZ_def MIN_CALIB_TICKS_def MAX_CALIB_TICKS_def
  ULONG_MAX_def

lemma unat_affine:
  fixes a b c :: "'a::len word"
  assumes "unat a * unat b + unat c < 2 ^ LENGTH('a)"
  shows "unat (a * b + c) = unat a * unat b + unat c"
  using assms by (simp add: unat_word_ariths mod_less)

lemma unat_up [simp]: "unat (ucast (v :: u32) :: u64) = unat v"
  by (simp add: unsigned_ucast_eq take_bit_nat_eq_self unsigned_less [THEN order.strict_trans])

lemma unat_down: "unat (ucast (w :: u64) :: u32) = unat w mod 2 ^ 32"
  by (simp add: unsigned_ucast_eq take_bit_eq_mod)

lemma unat_round_up:
  fixes x :: "'a::len word"
  assumes "unat x + 1000 < 2 ^ LENGTH('a)" and k: "unat (1000 :: 'a word) = 1000"
  shows "unat ((x + 1000 - 1) div 1000) = (unat x + 999) div 1000"
proof -
  have a: "unat (x + 1000) = unat x + 1000" using assms by (simp add: unat_word_ariths)
  then have "1 \<le> x + 1000" by (simp add: word_le_nat_alt)
  from unat_sub [OF this] have "unat (x + 1000 - 1) = unat x + 999" unfolding a by simp
  then show ?thesis unfolding unat_div k by simp
qed

lemma hz_bound: "hz \<le> MAX_CALIB_SYSTICK_HZ \<longleftrightarrow> unat hz \<le> 32000"
  by (simp add: timer_consts word_le_nat_alt)

lemma limits:
  "unat (ULONG_MAX div MAX_CALIB_SYSTICK_HZ) = 134217"
  "unat ((ULONG_MAX - MAX_CALIB_SYSTICK_HZ div 2) div 1000) = 4294951"
  "unat (ULONG_MAX div 1000000) = 4294"
  by (simp_all add: timer_consts unat_div unat_sub_if')

lemma small_product:
  fixes a b :: "'a::len word"
  assumes "unat a \<le> m" and "unat b \<le> n" and "m * n < 2 ^ LENGTH('a)"
  shows "unat (a * b) = unat a * unat b"
proof -
  have "unat a * unat b \<le> m * n" using assms(1,2) by (rule mult_le_mono)
  then show ?thesis using assms(3) by (simp add: unat_word_ariths)
qed

lemma u32_bound: "unat (v :: u32) \<le> 4294967295"
  using unsigned_less [of v, where 'a = nat] by simp

lemma ms_to_ticks_exact:
  assumes "sys_tick_hz t \<le> MAX_CALIB_SYSTICK_HZ"
  shows "unat (hal_sys_timer_ms_to_ticks ms t) = ((unat ms * unat (sys_tick_hz t) + 999) div 1000) mod 2 ^ 32"
proof (cases "ms \<le> ULONG_MAX div MAX_CALIB_SYSTICK_HZ")
  case True
  then have m: "unat ms \<le> 134217" by (simp add: word_le_nat_alt limits)
  have hz: "unat (sys_tick_hz t) \<le> 32000" using assms by (simp add: hz_bound)
  have p: "unat (ms * sys_tick_hz t) = unat ms * unat (sys_tick_hz t)" by (rule small_product [OF m hz]) simp
  have "unat ms * unat (sys_tick_hz t) \<le> 134217 * 32000" using m hz by (rule mult_le_mono)
  then have "unat ((ms * sys_tick_hz t + 1000 - 1) div 1000) = (unat ms * unat (sys_tick_hz t) + 999) div 1000"
    by (subst unat_round_up) (simp_all add: p)
  with True \<open>_ \<le> 134217 * 32000\<close> show ?thesis
    unfolding hal_sys_timer_ms_to_ticks_def by (simp only: if_True) simp
next
  case False
  have hz: "unat (ucast (sys_tick_hz t) :: u64) \<le> 32000" using assms by (simp add: hz_bound)
  have m: "unat (ucast ms :: u64) \<le> 4294967295" using u32_bound by simp
  have p: "unat ((ucast ms :: u64) * ucast (sys_tick_hz t)) = unat ms * unat (sys_tick_hz t)"
    using small_product [OF m hz] by simp
  have "unat ms * unat (sys_tick_hz t) \<le> 4294967295 * 32000"
    using u32_bound [of ms] assms by (intro mult_le_mono) (simp_all add: hz_bound)
  then have "unat (((ucast ms :: u64) * ucast (sys_tick_hz t) + 1000 - 1) div 1000)
      = (unat ms * unat (sys_tick_hz t) + 999) div 1000"
    by (subst unat_round_up) (simp_all add: p)
  with False show ?thesis unfolding hal_sys_timer_ms_to_ticks_def by (simp only: if_False unat_down)
qed

lemma ticks_to_ms_exact:
  assumes "sys_tick_hz t \<le> MAX_CALIB_SYSTICK_HZ"
  shows "unat (hal_sys_timer_ticks_to_ms tick t) =
    ((unat tick * 1000 + unat (sys_tick_hz t) div 2) div unat (sys_tick_hz t)) mod 2 ^ 32"
proof (cases "tick \<le> (ULONG_MAX - MAX_CALIB_SYSTICK_HZ div 2) div 1000")
  case True
  then have m: "unat tick \<le> 4294951" by (simp add: word_le_nat_alt limits)
  have hz: "unat (sys_tick_hz t) \<le> 32000" using assms by (simp add: hz_bound)
  have p: "unat (tick * 1000 + sys_tick_hz t div 2) = unat tick * 1000 + unat (sys_tick_hz t) div 2"
    using m hz by (subst unat_affine) (simp_all add: unat_div)
  have "(unat tick * 1000 + unat (sys_tick_hz t) div 2) div unat (sys_tick_hz t) < 2 ^ 32"
    by (rule le_less_trans [OF div_le_dividend]) (use m hz in simp)
  with True show ?thesis by (simp add: hal_sys_timer_ticks_to_ms_def unat_div p Let_def)
next
  case False
  have "unat (sys_tick_hz t) \<le> 32000" using assms by (simp add: hz_bound)
  then have p: "unat ((ucast tick :: u64) * 1000 + ucast (sys_tick_hz t div 2))
      = unat tick * 1000 + unat (sys_tick_hz t) div 2"
    using u32_bound [of tick] by (subst unat_affine) (simp_all add: unat_div)
  with False show ?thesis by (simp add: hal_sys_timer_ticks_to_ms_def unat_down unat_div p Let_def)
qed



section \<open>The slow timer\<close>







lemma round_trip_arith:
  fixes m hz :: nat
  assumes "2000 \<le> hz"
  shows "((m * hz + 999) div 1000 * 1000 + hz div 2) div hz = m"
proof -
  let ?k = "(m * hz + 999) div 1000 * 1000"
  have "?k + (m * hz + 999) mod 1000 = m * hz + 999" by (rule div_mult_mod_eq)
  moreover have "(m * hz + 999) mod 1000 < 1000" by simp
  ultimately have "m * hz \<le> ?k" "?k \<le> m * hz + 999" by linarith+
  moreover have "999 + hz div 2 < hz" using assms by linarith
  ultimately have "m * hz \<le> ?k + hz div 2" "?k + hz div 2 < Suc m * hz" by simp_all
  then show ?thesis by (intro div_nat_eqI) (simp_all add: mult.commute)
qed

lemma calib_end_hz:
  "sys_tick_hz t \<le> MAX_CALIB_SYSTICK_HZ \<Longrightarrow>
   sys_tick_hz (snd (hal_sys_timer_calib_end fast_hz slow fast t)) \<le> MAX_CALIB_SYSTICK_HZ"
  by (simp add: hal_sys_timer_calib_end_def Let_def not_less)

text \<open>
  A time converted to ticks and back is unchanged, for every frequency of at least 2000 Hz that
  a calibration can produce and every time whose ticks fit into 32 bits.
\<close>

theorem timer_ms_roundtrip:
  assumes "2000 \<le> sys_tick_hz t" and "sys_tick_hz t \<le> MAX_CALIB_SYSTICK_HZ"
    and "unat ms * unat (sys_tick_hz t) + 999 < 1000 * 2 ^ 32"
  shows "hal_sys_timer_ticks_to_ms (hal_sys_timer_ms_to_ticks ms t) t = ms"
proof -
  have hz: "2000 \<le> unat (sys_tick_hz t)" using assms(1) by (simp add: word_le_nat_alt)
  have "(unat ms * unat (sys_tick_hz t) + 999) div 1000 < 2 ^ 32" using assms(3) by simp
  then have k: "unat (hal_sys_timer_ms_to_ticks ms t) = (unat ms * unat (sys_tick_hz t) + 999) div 1000"
    using ms_to_ticks_exact [OF assms(2)] by simp
  have "unat (hal_sys_timer_ticks_to_ms (hal_sys_timer_ms_to_ticks ms t) t) = unat ms mod 2 ^ 32"
    unfolding ticks_to_ms_exact [OF assms(2)] k round_trip_arith [OF hz] ..
  then show ?thesis using unsigned_less [of ms, where 'a = nat] by (simp add: word_unat_eq_iff)
qed

theorem timer_ms_roundtrip_witness:
  "hal_sys_timer_ticks_to_ms (hal_sys_timer_ms_to_ticks 86400000 sys_timer_init) sys_timer_init = 86400000"
  by (rule timer_ms_roundtrip) (simp_all add: sys_timer_init_def timer_consts)

end
