(* ===== verification/HalKey.thy ===== *)
theory HalKey
  imports HalTimer
begin

text \<open>
  The keys of \<open>src/platform/hal/hal_key.c\<close>: interrupts of the power key and of the GPIO keys, the timer
  handler that debounces them and turns them into key events (down, up, click to rampage click,
  long press, repeat), the boot handler of the power key, opening and closing. The build has no
  ADC keys and no \<open>NO_GROUPKEY\<close>; the table of GPIO keys is a parameter. The handlers run with interrupts of
  equal priority, so each is one step.
\<close>

section \<open>Codes, events and state\<close>

datatype HAL_KEY_EVENT_T =
    HAL_KEY_EVENT_NONE
  | HAL_KEY_EVENT_DOWN
  | HAL_KEY_EVENT_FIRST_DOWN
  | HAL_KEY_EVENT_CONTINUED_DOWN
  | HAL_KEY_EVENT_UP
  | HAL_KEY_EVENT_UP_AFTER_LONGPRESS
  | HAL_KEY_EVENT_LONGPRESS
  | HAL_KEY_EVENT_LONGLONGPRESS
  | HAL_KEY_EVENT_CLICK
  | HAL_KEY_EVENT_DOUBLECLICK
  | HAL_KEY_EVENT_TRIPLECLICK
  | HAL_KEY_EVENT_ULTRACLICK
  | HAL_KEY_EVENT_RAMPAGECLICK
  | HAL_KEY_EVENT_REPEAT
  | HAL_KEY_EVENT_GROUPKEY_DOWN
  | HAL_KEY_EVENT_GROUPKEY_REPEAT
  | HAL_KEY_EVENT_INITDOWN
  | HAL_KEY_EVENT_INITUP
  | HAL_KEY_EVENT_INITLONGPRESS
  | HAL_KEY_EVENT_INITLONGLONGPRESS
  | HAL_KEY_EVENT_INITFINISHED

text \<open>The number of an event, as the callback receives it.\<close>

fun event_num :: "HAL_KEY_EVENT_T \<Rightarrow> u8" where
  "event_num HAL_KEY_EVENT_NONE = 0"
| "event_num HAL_KEY_EVENT_DOWN = 1"
| "event_num HAL_KEY_EVENT_FIRST_DOWN = 2"
| "event_num HAL_KEY_EVENT_CONTINUED_DOWN = 3"
| "event_num HAL_KEY_EVENT_UP = 4"
| "event_num HAL_KEY_EVENT_UP_AFTER_LONGPRESS = 5"
| "event_num HAL_KEY_EVENT_LONGPRESS = 6"
| "event_num HAL_KEY_EVENT_LONGLONGPRESS = 7"
| "event_num HAL_KEY_EVENT_CLICK = 8"
| "event_num HAL_KEY_EVENT_DOUBLECLICK = 9"
| "event_num HAL_KEY_EVENT_TRIPLECLICK = 10"
| "event_num HAL_KEY_EVENT_ULTRACLICK = 11"
| "event_num HAL_KEY_EVENT_RAMPAGECLICK = 12"
| "event_num HAL_KEY_EVENT_REPEAT = 13"
| "event_num HAL_KEY_EVENT_GROUPKEY_DOWN = 14"
| "event_num HAL_KEY_EVENT_GROUPKEY_REPEAT = 15"
| "event_num HAL_KEY_EVENT_INITDOWN = 16"
| "event_num HAL_KEY_EVENT_INITUP = 17"
| "event_num HAL_KEY_EVENT_INITLONGPRESS = 18"
| "event_num HAL_KEY_EVENT_INITLONGLONGPRESS = 19"
| "event_num HAL_KEY_EVENT_INITFINISHED = 20"

definition HAL_KEY_CODE_NONE :: u32 where
  "HAL_KEY_CODE_NONE = 0"

definition HAL_KEY_CODE_PWR :: u32 where
  "HAL_KEY_CODE_PWR = BIT 0"

definition MAX_KEY_CLICK_COUNT :: u8 where
  "MAX_KEY_CLICK_COUNT = event_num HAL_KEY_EVENT_RAMPAGECLICK - event_num HAL_KEY_EVENT_CLICK"

definition HAL_GPIO_PIN_NUM :: nat where
  "HAL_GPIO_PIN_NUM = 16"

definition GPIO_MAP_WORD_CNT :: nat where
  "GPIO_MAP_WORD_CNT = (HAL_GPIO_PIN_NUM + 31) div 32"

type_synonym GPIO_MAP_T = "u32 list"

record HAL_KEY_GPIOKEY_T =
  pin_debounce :: GPIO_MAP_T
  pin_dither :: GPIO_MAP_T
  pin_down :: GPIO_MAP_T
  time_debounce :: u32
  time_dither :: u32

record HAL_KEY_PWRKEY_T =
  pwr_debounce :: bool
  pwr_dither :: bool
  pwr_pressed :: bool
  pwr_time :: u32

record HAL_KEY_STATUS_T =
  code_down :: u32
  code_ready :: u32
  code_click :: u32
  event :: HAL_KEY_EVENT_T
  time_updown :: u32
  time_click :: u32
  cnt_repeat :: u8
  cnt_click :: u8

record HAL_KEY_GPIOKEY_CFG_T =
  key_code :: u32
  key_pin :: nat
  key_down :: u8

text \<open>The function that the timer calls.\<close>

datatype key_handler = Boot_Handler | Debounce_Handler

text \<open>
  The statics of the file, the enabled interrupts, the calls of the callback (newest first), and
  whether an \<open>ASSERT\<close> failed, which stops the device.
\<close>

record hal_key =
  key_detected_callback :: bool
  debounce_timer :: "key_handler option"
  timer_active :: bool
  key_status :: HAL_KEY_STATUS_T
  debounce_started :: bool
  time_first_debounce :: u32
  pwr_key :: HAL_KEY_PWRKEY_T
  gpio_key :: HAL_KEY_GPIOKEY_T
  pwr_irq :: bool
  gpio_irq :: "nat set"
  key_sent :: "(u32 \<times> u8) list"
  key_assert :: bool

text \<open>What a handler reads: the time, the calibration of the timer, the power key and the pins.\<close>

record key_hw =
  hw_time :: u32
  hw_timer :: sys_timer
  hal_pwrkey_pressed :: bool
  hal_gpio_pin_get_val :: "nat \<Rightarrow> u8"

text \<open>The thresholds in ticks; the build defines none of the \<open>CFG_SW_KEY\<close> options.\<close>

definition MS_TO_TICKS :: "key_hw \<Rightarrow> u32 \<Rightarrow> u32" where
  "MS_TO_TICKS hw ms = hal_sys_timer_ms_to_ticks ms (hw_timer hw)"

definition KEY_PERMPRESS_THRESHOLD :: "key_hw \<Rightarrow> u32" where
  "KEY_PERMPRESS_THRESHOLD hw = MS_TO_TICKS hw 30000"

definition KEY_LONGLONGPRESS_THRESHOLD :: "key_hw \<Rightarrow> u32" where
  "KEY_LONGLONGPRESS_THRESHOLD hw = MS_TO_TICKS hw 5000"

definition KEY_LONGPRESS_THRESHOLD :: "key_hw \<Rightarrow> u32" where
  "KEY_LONGPRESS_THRESHOLD hw = MS_TO_TICKS hw 1500"

definition KEY_DOUBLECLICK_THRESHOLD :: "key_hw \<Rightarrow> u32" where
  "KEY_DOUBLECLICK_THRESHOLD hw = MS_TO_TICKS hw 400"

definition KEY_LONGPRESS_REPEAT_THRESHOLD :: "key_hw \<Rightarrow> u32" where
  "KEY_LONGPRESS_REPEAT_THRESHOLD hw = MS_TO_TICKS hw 500"

definition KEY_INIT_DOWN_THRESHOLD :: "key_hw \<Rightarrow> u32" where
  "KEY_INIT_DOWN_THRESHOLD hw = MS_TO_TICKS hw 200"

definition KEY_INIT_LONGPRESS_THRESHOLD :: "key_hw \<Rightarrow> u32" where
  "KEY_INIT_LONGPRESS_THRESHOLD hw = MS_TO_TICKS hw 3000"

definition KEY_INIT_LONGLONGPRESS_THRESHOLD :: "key_hw \<Rightarrow> u32" where
  "KEY_INIT_LONGLONGPRESS_THRESHOLD hw = MS_TO_TICKS hw 10000"

definition KEY_CHECKER_INTERVAL :: "key_hw \<Rightarrow> u32" where
  "KEY_CHECKER_INTERVAL hw = MS_TO_TICKS hw 40"

definition KEY_DEBOUNCE_INTERVAL :: "key_hw \<Rightarrow> u32" where
  "KEY_DEBOUNCE_INTERVAL hw = KEY_CHECKER_INTERVAL hw * 2"

definition KEY_DITHER_INTERVAL :: "key_hw \<Rightarrow> u32" where
  "KEY_DITHER_INTERVAL hw = KEY_CHECKER_INTERVAL hw * 1"

definition send_key_event :: "u32 \<Rightarrow> u8 \<Rightarrow> hal_key \<Rightarrow> hal_key" where
  "send_key_event code ev s =
     (if key_detected_callback s then s\<lparr>key_sent := (code, ev) # key_sent s\<rparr> else s)"

definition hal_key_debounce_timer_restart :: "hal_key \<Rightarrow> hal_key" where
  "hal_key_debounce_timer_restart s = (if \<not> timer_active s then s\<lparr>timer_active := True\<rparr> else s)"

definition key_fail :: "hal_key \<Rightarrow> hal_key" where
  "key_fail s = s\<lparr>key_assert := True\<rparr>"

definition upd_status :: "(HAL_KEY_STATUS_T \<Rightarrow> HAL_KEY_STATUS_T) \<Rightarrow> hal_key \<Rightarrow> hal_key" where
  "upd_status f s = s\<lparr>key_status := f (key_status s)\<rparr>"

section \<open>Power key\<close>

definition hal_pwrkey_enable_int :: "hal_key \<Rightarrow> hal_key" where
  "hal_pwrkey_enable_int s = s\<lparr>pwr_irq := True\<rparr>"

definition hal_pwrkey_disable_int :: "hal_key \<Rightarrow> hal_key" where
  "hal_pwrkey_disable_int s = s\<lparr>pwr_irq := False\<rparr>"

definition zero_pwrkey :: HAL_KEY_PWRKEY_T where
  "zero_pwrkey = \<lparr>pwr_debounce = False, pwr_dither = False, pwr_pressed = False, pwr_time = 0\<rparr>"

definition hal_pwrkey_reset :: "hal_key \<Rightarrow> hal_key" where
  "hal_pwrkey_reset s = s\<lparr>pwr_key := zero_pwrkey\<rparr>"

text \<open>\<open>falling\<close> is the bit \<open>HAL_PWRKEY_IRQ_FALLING_EDGE\<close> of the interrupt's state.\<close>

definition hal_pwrkey_handle_irq_state :: "bool \<Rightarrow> key_hw \<Rightarrow> hal_key \<Rightarrow> hal_key" where
  "hal_pwrkey_handle_irq_state falling hw s =
     (let s = hal_pwrkey_disable_int s;
          s = (if falling then
                 let p = (pwr_key s)\<lparr>pwr_pressed := hal_pwrkey_pressed hw\<rparr>;
                     p = (if pwr_pressed p then p\<lparr>pwr_debounce := True\<rparr> else p\<lparr>pwr_dither := True\<rparr>)
                 in s\<lparr>pwr_key := p\<lparr>pwr_time := hw_time hw\<rparr>\<rparr>
               else s)
      in hal_key_debounce_timer_restart s)"

definition hal_pwrkey_open :: "hal_key \<Rightarrow> hal_key" where
  "hal_pwrkey_open s = hal_pwrkey_reset s"

definition hal_pwrkey_close :: "hal_key \<Rightarrow> hal_key" where
  "hal_pwrkey_close s = hal_pwrkey_disable_int (hal_pwrkey_reset s)"

definition pwr_busy :: "HAL_KEY_PWRKEY_T \<Rightarrow> bool" where
  "pwr_busy p \<longleftrightarrow> pwr_debounce p \<or> pwr_dither p \<or> pwr_pressed p"

section \<open>Maps of GPIO pins\<close>

definition gpio_map_set_pin :: "GPIO_MAP_T \<Rightarrow> nat \<Rightarrow> GPIO_MAP_T" where
  "gpio_map_set_pin m pin = m[pin div 32 := m ! (pin div 32) OR BIT (pin mod 32)]"

definition gpio_map_clear_pin :: "GPIO_MAP_T \<Rightarrow> nat \<Rightarrow> GPIO_MAP_T" where
  "gpio_map_clear_pin m pin = m[pin div 32 := m ! (pin div 32) AND NOT (BIT (pin mod 32))]"

definition gpio_map_test_set_pin :: "GPIO_MAP_T \<Rightarrow> nat \<Rightarrow> bool" where
  "gpio_map_test_set_pin m pin \<longleftrightarrow> m ! (pin div 32) AND BIT (pin mod 32) \<noteq> 0"

definition gpio_map_set_map :: "GPIO_MAP_T \<Rightarrow> GPIO_MAP_T \<Rightarrow> GPIO_MAP_T" where
  "gpio_map_set_map m1 m2 = map (\<lambda>i. m1 ! i OR m2 ! i) [0..<GPIO_MAP_WORD_CNT]"

definition gpio_map_clear_map :: "GPIO_MAP_T \<Rightarrow> GPIO_MAP_T \<Rightarrow> GPIO_MAP_T" where
  "gpio_map_clear_map m1 m2 = map (\<lambda>i. m1 ! i AND NOT (m2 ! i)) [0..<GPIO_MAP_WORD_CNT]"

definition gpio_map_clear :: GPIO_MAP_T where
  "gpio_map_clear = map (\<lambda>i. 0) [0..<GPIO_MAP_WORD_CNT]"

definition gpio_map_test_set_map :: "GPIO_MAP_T \<Rightarrow> GPIO_MAP_T \<Rightarrow> bool" where
  "gpio_map_test_set_map m1 m2 \<longleftrightarrow> list_ex (\<lambda>i. m1 ! i AND m2 ! i \<noteq> 0) [0..<GPIO_MAP_WORD_CNT]"

definition gpio_map_test_set :: "GPIO_MAP_T \<Rightarrow> bool" where
  "gpio_map_test_set m \<longleftrightarrow> list_ex (\<lambda>i. m ! i \<noteq> 0) [0..<GPIO_MAP_WORD_CNT]"

text \<open>
  The loop that visits the pins of a map: each set pin is cleared and handled, until the map is
  empty. The bound on the pin only ends the recursion; the map is empty before it is reached.
\<close>

function pin_loop :: "(nat \<Rightarrow> 's \<Rightarrow> 's) \<Rightarrow> nat \<Rightarrow> GPIO_MAP_T \<Rightarrow> 's \<Rightarrow> 's" where
  "pin_loop f gpio pin_map s =
     (if gpio_map_test_set pin_map \<and> gpio < 32 * GPIO_MAP_WORD_CNT
      then if gpio_map_test_set_pin pin_map gpio
           then pin_loop f (gpio + 1) (gpio_map_clear_pin pin_map gpio) (f gpio s)
           else pin_loop f (gpio + 1) pin_map s
      else s)"
  by pat_completeness auto

termination
  by (relation "measure (\<lambda>(f, gpio, pin_map, s). 32 * GPIO_MAP_WORD_CNT - gpio)") auto

declare pin_loop.simps [simp del]

section \<open>GPIO keys\<close>

type_synonym gpio_cfg = "HAL_KEY_GPIOKEY_CFG_T list"

definition zero_gpiokey :: HAL_KEY_GPIOKEY_T where
  "zero_gpiokey = \<lparr>pin_debounce = gpio_map_clear, pin_dither = gpio_map_clear, pin_down = gpio_map_clear,
     time_debounce = 0, time_dither = 0\<rparr>"

definition hal_gpiokey_reset :: "hal_key \<Rightarrow> hal_key" where
  "hal_gpiokey_reset s = s\<lparr>gpio_key := zero_gpiokey\<rparr>"

text \<open>The entry of a pin; \<open>None\<close> is the failing \<open>ASSERT\<close>.\<close>

definition hal_gpiokey_find_index :: "gpio_cfg \<Rightarrow> nat \<Rightarrow> HAL_KEY_GPIOKEY_CFG_T option" where
  "hal_gpiokey_find_index cfg pin = find (\<lambda>c. key_pin c = pin) cfg"

definition hal_gpiokey_enable_irq :: "nat \<Rightarrow> hal_key \<Rightarrow> hal_key" where
  "hal_gpiokey_enable_irq pin s = s\<lparr>gpio_irq := insert pin (gpio_irq s)\<rparr>"

definition hal_gpiokey_disable_irq :: "nat \<Rightarrow> hal_key \<Rightarrow> hal_key" where
  "hal_gpiokey_disable_irq pin s = s\<lparr>gpio_irq := gpio_irq s - {pin}\<rparr>"

definition hal_gpiokey_irqhandler :: "gpio_cfg \<Rightarrow> key_hw \<Rightarrow> nat \<Rightarrow> hal_key \<Rightarrow> hal_key" where
  "hal_gpiokey_irqhandler cfg hw pin s =
     (let s = hal_gpiokey_disable_irq pin s in
      case hal_gpiokey_find_index cfg pin of
        None \<Rightarrow> key_fail s
      | Some c \<Rightarrow>
          let g = gpio_key s;
              g = (if hal_gpio_pin_get_val hw pin = key_down c
                   then g\<lparr>pin_debounce := gpio_map_set_pin (pin_debounce g) pin, time_debounce := hw_time hw\<rparr>
                   else g\<lparr>pin_dither := gpio_map_set_pin (pin_dither g) pin, time_dither := hw_time hw\<rparr>)
          in hal_key_debounce_timer_restart (s\<lparr>gpio_key := g\<rparr>))"

definition hal_gpiokey_enable_allint :: "gpio_cfg \<Rightarrow> hal_key \<Rightarrow> hal_key" where
  "hal_gpiokey_enable_allint cfg s =
     fold (\<lambda>c s. if key_code c = HAL_KEY_CODE_NONE then s else hal_gpiokey_enable_irq (key_pin c) s) cfg s"

definition hal_gpiokey_disable_allint :: "gpio_cfg \<Rightarrow> hal_key \<Rightarrow> hal_key" where
  "hal_gpiokey_disable_allint cfg s =
     fold (\<lambda>c s. if key_code c = HAL_KEY_CODE_NONE then s else hal_gpiokey_disable_irq (key_pin c) s) cfg s"

text \<open>\<open>hal_gpiokey_open\<close> also sets the function of the pins, which \<open>hal_iomux_function_is_gpio\<close> allows.\<close>

definition hal_gpiokey_open :: "hal_key \<Rightarrow> hal_key" where
  "hal_gpiokey_open s = hal_gpiokey_reset s"

definition hal_gpiokey_close :: "gpio_cfg \<Rightarrow> hal_key \<Rightarrow> hal_key" where
  "hal_gpiokey_close cfg s = hal_gpiokey_disable_allint cfg (hal_gpiokey_reset s)"

definition gpio_busy :: "HAL_KEY_GPIOKEY_T \<Rightarrow> bool" where
  "gpio_busy g \<longleftrightarrow> gpio_map_test_set (pin_dither g) \<or> gpio_map_test_set (pin_down g) \<or>
     gpio_map_test_set (pin_debounce g)"

section \<open>All keys\<close>

definition hal_key_read_status :: "gpio_cfg \<Rightarrow> key_hw \<Rightarrow> u32 \<Rightarrow> HAL_KEY_EVENT_T" where
  "hal_key_read_status cfg hw code =
     (if code = HAL_KEY_CODE_PWR
      then if hal_pwrkey_pressed hw then HAL_KEY_EVENT_DOWN else HAL_KEY_EVENT_UP
      else case find (\<lambda>c. key_code c = code) cfg of
             Some c \<Rightarrow> if hal_gpio_pin_get_val hw (key_pin c) = key_down c then HAL_KEY_EVENT_DOWN else HAL_KEY_EVENT_UP
           | None \<Rightarrow> HAL_KEY_EVENT_NONE)"

definition hal_key_disable_allint :: "gpio_cfg \<Rightarrow> hal_key \<Rightarrow> hal_key" where
  "hal_key_disable_allint cfg s = hal_gpiokey_disable_allint cfg (hal_pwrkey_disable_int s)"

definition hal_key_enable_allint :: "gpio_cfg \<Rightarrow> hal_key \<Rightarrow> hal_key" where
  "hal_key_enable_allint cfg s = hal_gpiokey_enable_allint cfg (hal_pwrkey_enable_int s)"

section \<open>The debounce handler: which keys are down\<close>

text \<open>The power key: the bits it adds to \<open>code_down\<close> and its new state.\<close>

definition pwr_scan :: "key_hw \<Rightarrow> hal_key \<Rightarrow> u32 \<times> hal_key" where
  "pwr_scan hw s =
     (let time = hw_time hw; p = pwr_key s; pressed = hal_pwrkey_pressed hw in
      if pwr_busy p then
        if pwr_debounce p then
          let p = p\<lparr>pwr_pressed := pressed\<rparr> in
          if pressed then
            let p = p\<lparr>pwr_dither := False\<rparr> in
            if KEY_DEBOUNCE_INTERVAL hw \<le> time - pwr_time p
            then (HAL_KEY_CODE_PWR, s\<lparr>pwr_key := p\<lparr>pwr_debounce := False, pwr_dither := False\<rparr>\<rparr>)
            else (0, s\<lparr>pwr_key := p\<rparr>)
          else (0, s\<lparr>pwr_key := p\<lparr>pwr_debounce := False, pwr_dither := True, pwr_time := time\<rparr>\<rparr>)
        else if pwr_dither p then
          if KEY_DITHER_INTERVAL hw \<le> time - pwr_time p
          then (0, hal_pwrkey_enable_int (s\<lparr>pwr_key := p\<lparr>pwr_dither := False, pwr_pressed := False\<rparr>\<rparr>))
          else (0, s)
        else
          if pressed then (HAL_KEY_CODE_PWR, s)
          else (0, hal_pwrkey_enable_int (s\<lparr>pwr_key := p\<lparr>pwr_pressed := False\<rparr>\<rparr>))
      else (0, s))"

definition gpio_assert :: "hal_key \<Rightarrow> hal_key" where
  "gpio_assert s =
     (let g = gpio_key s in
      if gpio_map_test_set_map (pin_debounce g) (pin_dither g) \<or>
         gpio_map_test_set_map (pin_debounce g) (pin_down g) \<or>
         gpio_map_test_set_map (pin_down g) (pin_dither g)
      then key_fail s else s)"

text \<open>Pins that dithered long enough get their interrupt back.\<close>

definition gpio_dither_pin :: "gpio_cfg \<Rightarrow> nat \<Rightarrow> hal_key \<Rightarrow> hal_key" where
  "gpio_dither_pin cfg gpio s =
     (case hal_gpiokey_find_index cfg gpio of None \<Rightarrow> key_fail s | Some c \<Rightarrow> hal_gpiokey_enable_irq gpio s)"

definition gpio_dither_scan :: "gpio_cfg \<Rightarrow> key_hw \<Rightarrow> hal_key \<Rightarrow> hal_key" where
  "gpio_dither_scan cfg hw s =
     (let g = gpio_key s in
      if gpio_map_test_set (pin_dither g) \<and> KEY_DITHER_INTERVAL hw \<le> hw_time hw - time_dither g
      then let pin_map = pin_dither g;
               s = s\<lparr>gpio_key := g\<lparr>pin_dither := gpio_map_clear_map (pin_dither g) pin_map\<rparr>\<rparr>
           in pin_loop (gpio_dither_pin cfg) 0 pin_map s
      else s)"

text \<open>Pins that are down: still down, or released, which gives them their interrupt back.\<close>

definition gpio_down_pin :: "gpio_cfg \<Rightarrow> key_hw \<Rightarrow> nat \<Rightarrow> u32 \<times> hal_key \<Rightarrow> u32 \<times> hal_key" where
  "gpio_down_pin cfg hw gpio cs =
     (let (code, s) = cs in
      case hal_gpiokey_find_index cfg gpio of
        None \<Rightarrow> (code, key_fail s)
      | Some c \<Rightarrow>
          if hal_gpio_pin_get_val hw gpio = key_down c then (code OR key_code c, s)
          else let g = gpio_key s
               in (code, hal_gpiokey_enable_irq gpio
                    (s\<lparr>gpio_key := g\<lparr>pin_down := gpio_map_clear_pin (pin_down g) gpio\<rparr>\<rparr>)))"

definition gpio_down_scan :: "gpio_cfg \<Rightarrow> key_hw \<Rightarrow> u32 \<times> hal_key \<Rightarrow> u32 \<times> hal_key" where
  "gpio_down_scan cfg hw cs =
     (let g = gpio_key (snd cs) in
      if gpio_map_test_set (pin_down g) then pin_loop (gpio_down_pin cfg hw) 0 (pin_down g) cs else cs)"

text \<open>Pins under debounce: down after the interval, or dithering.\<close>

type_synonym debounce_acc = "GPIO_MAP_T \<times> GPIO_MAP_T \<times> u32 \<times> hal_key"

definition gpio_debounce_pin :: "gpio_cfg \<Rightarrow> key_hw \<Rightarrow> nat \<Rightarrow> debounce_acc \<Rightarrow> debounce_acc" where
  "gpio_debounce_pin cfg hw gpio acc =
     (let (down_added, dither_added, code, s) = acc in
      case hal_gpiokey_find_index cfg gpio of
        None \<Rightarrow> (down_added, dither_added, code, key_fail s)
      | Some c \<Rightarrow>
          if hal_gpio_pin_get_val hw gpio = key_down c then
            let g = gpio_key s in
            if KEY_DEBOUNCE_INTERVAL hw \<le> hw_time hw - time_debounce g
            then (gpio_map_set_pin down_added gpio, dither_added, code OR key_code c,
                  s\<lparr>gpio_key := g\<lparr>pin_down := gpio_map_set_pin (pin_down g) gpio\<rparr>\<rparr>)
            else acc
          else (down_added, gpio_map_set_pin dither_added gpio, code, s))"

definition gpio_debounce_scan :: "gpio_cfg \<Rightarrow> key_hw \<Rightarrow> u32 \<times> hal_key \<Rightarrow> u32 \<times> hal_key" where
  "gpio_debounce_scan cfg hw cs =
     (let (code, s) = cs in
      if gpio_map_test_set (pin_debounce (gpio_key s)) then
        let (down_added, dither_added, code, s) =
              pin_loop (gpio_debounce_pin cfg hw) 0 (pin_debounce (gpio_key s))
                (gpio_map_clear, gpio_map_clear, code, s);
            g = gpio_key s;
            g = g\<lparr>pin_debounce := gpio_map_clear_map (pin_debounce g) down_added\<rparr>;
            g = g\<lparr>pin_debounce := gpio_map_clear_map (pin_debounce g) dither_added\<rparr>;
            g = g\<lparr>pin_dither := gpio_map_set_map (pin_dither g) dither_added\<rparr>
        in (code, s\<lparr>gpio_key := g\<rparr>)
      else (code, s))"

definition gpio_scan :: "gpio_cfg \<Rightarrow> key_hw \<Rightarrow> u32 \<times> hal_key \<Rightarrow> u32 \<times> hal_key" where
  "gpio_scan cfg hw cs =
     (let (code, s) = cs
      in gpio_debounce_scan cfg hw (gpio_down_scan cfg hw (code, gpio_dither_scan cfg hw (gpio_assert s))))"

section \<open>The debounce handler: events\<close>

text \<open>The loop over the set bits of a code.\<close>

function bit_loop :: "(nat \<Rightarrow> 's \<Rightarrow> 's) \<Rightarrow> nat \<Rightarrow> u32 \<Rightarrow> 's \<Rightarrow> 's" where
  "bit_loop f index m s =
     (if m \<noteq> 0 \<and> index < 32
      then if m AND BIT index \<noteq> 0 then bit_loop f (index + 1) (m AND NOT (BIT index)) (f index s)
           else bit_loop f (index + 1) m s
      else s)"
  by pat_completeness auto

termination
  by (relation "measure (\<lambda>(f, index, m, s). 32 - index)") auto

declare bit_loop.simps [simp del]

definition in_longpress :: "HAL_KEY_STATUS_T \<Rightarrow> bool" where
  "in_longpress k \<longleftrightarrow> event k = HAL_KEY_EVENT_LONGPRESS \<or> event k = HAL_KEY_EVENT_LONGLONGPRESS"

definition key_up_edge :: "key_hw \<Rightarrow> nat \<Rightarrow> hal_key \<Rightarrow> hal_key" where
  "key_up_edge hw index s =
     (let s = send_key_event (BIT index) (event_num HAL_KEY_EVENT_UP) s;
          s = (if in_longpress (key_status s)
               then send_key_event (BIT index) (event_num HAL_KEY_EVENT_UP_AFTER_LONGPRESS) s else s)
      in upd_status (\<lambda>k. k\<lparr>time_updown := hw_time hw\<rparr>) s)"

definition key_up :: "u32 \<Rightarrow> HAL_KEY_STATUS_T \<Rightarrow> HAL_KEY_STATUS_T" where
  "key_up code k =
     (if in_longpress k
      then if code AND code_ready k = 0 then k\<lparr>event := HAL_KEY_EVENT_NONE\<rparr> else k
      else if event k = HAL_KEY_EVENT_DOWN then k\<lparr>event := HAL_KEY_EVENT_UP\<rparr> else k)"

definition key_click :: "key_hw \<Rightarrow> u32 \<Rightarrow> hal_key \<Rightarrow> hal_key" where
  "key_click hw up_new s =
     (if event (key_status s) = HAL_KEY_EVENT_UP then
        let time = hw_time hw;
            k = key_status s;
            s = (if code_click k = HAL_KEY_CODE_NONE \<or> code_click k \<noteq> code_ready k then
                   let s = (if code_click k \<noteq> HAL_KEY_CODE_NONE
                            then send_key_event (code_click k) (event_num HAL_KEY_EVENT_CLICK + cnt_click k) s else s)
                   in upd_status (\<lambda>k. k\<lparr>code_click := code_ready k, cnt_click := 0, time_click := time\<rparr>) s
                 else if up_new \<noteq> 0 \<and> up_new OR code_down k = code_click k
                 then upd_status (\<lambda>k. k\<lparr>cnt_click := cnt_click k + 1, time_click := time\<rparr>) s
                 else s);
            k = key_status s
        in if KEY_DOUBLECLICK_THRESHOLD hw \<le> time - time_click k \<or> MAX_KEY_CLICK_COUNT \<le> cnt_click k
           then upd_status (\<lambda>k. k\<lparr>code_click := HAL_KEY_CODE_NONE, cnt_click := 0, event := HAL_KEY_EVENT_NONE\<rparr>)
                  (send_key_event (code_click k) (event_num HAL_KEY_EVENT_CLICK + cnt_click k) s)
           else s
      else s)"

definition key_down_edge :: "key_hw \<Rightarrow> u32 \<Rightarrow> nat \<Rightarrow> hal_key \<Rightarrow> hal_key" where
  "key_down_edge hw code index s =
     (let s = send_key_event (BIT index) (event_num HAL_KEY_EVENT_DOWN) s;
          s = (if event (key_status s) = HAL_KEY_EVENT_NONE
               then send_key_event (BIT index) (event_num HAL_KEY_EVENT_FIRST_DOWN) s
               else send_key_event (BIT index) (event_num HAL_KEY_EVENT_CONTINUED_DOWN) s);
          s = (if event (key_status s) = HAL_KEY_EVENT_NONE \<or> event (key_status s) = HAL_KEY_EVENT_DOWN \<or>
                  event (key_status s) = HAL_KEY_EVENT_UP
               then upd_status (\<lambda>k. k\<lparr>code_ready := code\<rparr>) s else s)
      in upd_status (\<lambda>k. k\<lparr>time_updown := hw_time hw\<rparr>) s)"

definition key_longpress :: "key_hw \<Rightarrow> u32 \<Rightarrow> hal_key \<Rightarrow> hal_key" where
  "key_longpress hw code s =
     (let k = key_status s in
      if code AND code_ready k = code_ready k then
        if event k = HAL_KEY_EVENT_DOWN then
          if KEY_LONGPRESS_THRESHOLD hw \<le> hw_time hw - time_updown k
          then send_key_event (code_ready k) (event_num HAL_KEY_EVENT_LONGPRESS)
                 (upd_status (\<lambda>k. k\<lparr>cnt_repeat := 0, event := HAL_KEY_EVENT_LONGPRESS\<rparr>) s)
          else s
        else if in_longpress k then
          let s = upd_status (\<lambda>k. k\<lparr>cnt_repeat := cnt_repeat k + 1\<rparr>) s;
              s = (if ucast (cnt_repeat (key_status s)) = KEY_LONGPRESS_REPEAT_THRESHOLD hw div KEY_CHECKER_INTERVAL hw
                   then send_key_event (code_ready k) (event_num HAL_KEY_EVENT_REPEAT)
                          (upd_status (\<lambda>k. k\<lparr>cnt_repeat := 0\<rparr>) s)
                   else s)
          in if event k = HAL_KEY_EVENT_LONGPRESS \<and> KEY_LONGLONGPRESS_THRESHOLD hw \<le> hw_time hw - time_updown k
             then send_key_event (code_ready k) (event_num HAL_KEY_EVENT_LONGLONGPRESS)
                    (upd_status (\<lambda>k. k\<lparr>event := HAL_KEY_EVENT_LONGLONGPRESS\<rparr>) s)
             else s
        else s
      else s)"

text \<open>The warning of a permanent press keeps its own time; the message itself is only printed.\<close>

definition key_permpress :: "key_hw \<Rightarrow> hal_key \<Rightarrow> hal_key" where
  "key_permpress hw s =
     (if event (key_status s) \<noteq> HAL_KEY_EVENT_NONE then
        if debounce_started s
        then if KEY_PERMPRESS_THRESHOLD hw \<le> hw_time hw - time_first_debounce s
             then s\<lparr>time_first_debounce := hw_time hw\<rparr> else s
        else s\<lparr>debounce_started := True, time_first_debounce := hw_time hw\<rparr>
      else s)"

definition key_update :: "key_hw \<Rightarrow> u32 \<Rightarrow> hal_key \<Rightarrow> hal_key" where
  "key_update hw code s =
     (let down_new = code AND NOT (code_down (key_status s));
          up_new = NOT code AND code_down (key_status s);
          s = bit_loop (key_up_edge hw) 0 up_new s;
          s = (if up_new \<noteq> 0 then upd_status (key_up code) s else s);
          s = key_click hw up_new s;
          s = upd_status (\<lambda>k. k\<lparr>code_down := code\<rparr>) s;
          s = bit_loop (key_down_edge hw code) 0 down_new s;
          s = (if down_new \<noteq> 0 \<and>
                  (event (key_status s) = HAL_KEY_EVENT_NONE \<or> event (key_status s) = HAL_KEY_EVENT_UP)
               then upd_status (\<lambda>k. k\<lparr>event := HAL_KEY_EVENT_DOWN\<rparr>) s else s)
      in key_longpress hw code s)"

definition hal_key_debounce_handler :: "gpio_cfg \<Rightarrow> key_hw \<Rightarrow> hal_key \<Rightarrow> hal_key" where
  "hal_key_debounce_handler cfg hw s =
     (let s = s\<lparr>timer_active := False\<rparr>;
          (code, s) = pwr_scan hw s;
          need_timer = pwr_busy (pwr_key s);
          (code, s) = gpio_scan cfg hw (code, s);
          need_timer = (need_timer \<or> gpio_busy (gpio_key s));
          s = key_update hw code s;
          need_timer = (need_timer \<or> event (key_status s) \<noteq> HAL_KEY_EVENT_NONE);
          s = key_permpress hw s
      in if need_timer then hal_key_debounce_timer_restart s else s\<lparr>debounce_started := False\<rparr>)"

section \<open>Boot, opening and closing\<close>

definition zero_key_status :: HAL_KEY_STATUS_T where
  "zero_key_status = \<lparr>code_down = 0, code_ready = 0, code_click = 0, event = HAL_KEY_EVENT_NONE, time_updown = 0,
     time_click = 0, cnt_repeat = 0, cnt_click = 0\<rparr>"

definition boot_pwr :: "key_hw \<Rightarrow> hal_key \<Rightarrow> hal_key" where
  "boot_pwr hw s =
     (let time = hw_time hw; p = pwr_key s; pressed = hal_pwrkey_pressed hw in
      if pwr_busy p then
        if pwr_debounce p then
          let p = p\<lparr>pwr_pressed := pressed\<rparr> in
          if pressed then
            let p = p\<lparr>pwr_dither := False\<rparr> in
            if KEY_DEBOUNCE_INTERVAL hw \<le> time - pwr_time p
            then upd_status (\<lambda>k. k\<lparr>time_updown := time\<rparr>) (s\<lparr>pwr_key := p\<lparr>pwr_debounce := False\<rparr>\<rparr>)
            else s\<lparr>pwr_key := p\<rparr>
          else s\<lparr>pwr_key := p\<lparr>pwr_debounce := False, pwr_dither := True, pwr_time := time\<rparr>\<rparr>
        else if pwr_dither p then
          if KEY_DITHER_INTERVAL hw \<le> time - pwr_time p
          then s\<lparr>pwr_key := p\<lparr>pwr_dither := False, pwr_pressed := False\<rparr>\<rparr>
          else s
        else if \<not> pressed then s\<lparr>pwr_key := p\<lparr>pwr_pressed := False\<rparr>\<rparr> else s
      else s)"

definition boot_events :: "key_hw \<Rightarrow> hal_key \<Rightarrow> hal_key" where
  "boot_events hw s =
     (let k = key_status s; elapsed = hw_time hw - time_updown k in
      if event k = HAL_KEY_EVENT_NONE then
        if KEY_INIT_DOWN_THRESHOLD hw \<le> elapsed
        then send_key_event HAL_KEY_CODE_PWR (event_num HAL_KEY_EVENT_INITDOWN)
               (upd_status (\<lambda>k. k\<lparr>event := HAL_KEY_EVENT_INITDOWN\<rparr>) s)
        else s
      else if event k = HAL_KEY_EVENT_INITDOWN then
        if KEY_INIT_LONGPRESS_THRESHOLD hw \<le> elapsed
        then send_key_event HAL_KEY_CODE_PWR (event_num HAL_KEY_EVENT_INITLONGPRESS)
               (upd_status (\<lambda>k. k\<lparr>cnt_repeat := 0, event := HAL_KEY_EVENT_INITLONGPRESS\<rparr>) s)
        else s
      else if event k = HAL_KEY_EVENT_INITLONGPRESS then
        if KEY_INIT_LONGLONGPRESS_THRESHOLD hw \<le> elapsed
        then send_key_event HAL_KEY_CODE_PWR (event_num HAL_KEY_EVENT_INITLONGLONGPRESS)
               (upd_status (\<lambda>k. k\<lparr>event := HAL_KEY_EVENT_INITLONGLONGPRESS\<rparr>) s)
        else s
      else s)"

definition boot_finish :: "gpio_cfg \<Rightarrow> hal_key \<Rightarrow> hal_key" where
  "boot_finish cfg s =
     (let s = (if event (key_status s) = HAL_KEY_EVENT_NONE \<or> event (key_status s) = HAL_KEY_EVENT_INITDOWN
               then send_key_event HAL_KEY_CODE_PWR (event_num HAL_KEY_EVENT_INITUP) s else s);
          s = send_key_event HAL_KEY_CODE_PWR (event_num HAL_KEY_EVENT_INITFINISHED) s;
          s = s\<lparr>debounce_timer := Some Debounce_Handler\<rparr>;
          s = s\<lparr>key_status := zero_key_status\<rparr>;
          s = hal_pwrkey_reset s
      in hal_key_enable_allint cfg s)"

definition hal_key_boot_handler :: "gpio_cfg \<Rightarrow> key_hw \<Rightarrow> hal_key \<Rightarrow> hal_key" where
  "hal_key_boot_handler cfg hw s =
     (let s = s\<lparr>timer_active := False\<rparr>;
          s = boot_pwr hw s
      in if pwr_busy (pwr_key s)
         then hal_key_debounce_timer_restart (if pwr_pressed (pwr_key s) then boot_events hw s else s)
         else boot_finish cfg s)"

text \<open>
  \<open>startup\<close> holds the ten readings of \<open>hal_pwrkey_startup_pressed\<close>, 20 ms apart; without a steady press
  the opening gives up. The timer is always allocated.
\<close>

definition hal_key_open :: "gpio_cfg \<Rightarrow> bool \<Rightarrow> bool list \<Rightarrow> key_hw \<Rightarrow> bool \<Rightarrow> hal_key \<Rightarrow> int \<times> hal_key" where
  "hal_key_open cfg checkPwrKey startup hw cb s =
     (let s = s\<lparr>key_detected_callback := cb, key_status := zero_key_status\<rparr> in
      if checkPwrKey \<and> \<not> list_all (\<lambda>b. b) (take 10 startup) then (-1, s)
      else
        let s = hal_gpiokey_open (hal_pwrkey_open s)
        in (0, if checkPwrKey
               then hal_pwrkey_handle_irq_state True hw (s\<lparr>debounce_timer := Some Boot_Handler\<rparr>)
               else hal_key_enable_allint cfg (s\<lparr>debounce_timer := Some Debounce_Handler\<rparr>)))"

definition hal_key_close :: "gpio_cfg \<Rightarrow> hal_key \<Rightarrow> hal_key" where
  "hal_key_close cfg s =
     (let s = hal_key_disable_allint cfg s;
          s = hal_pwrkey_close s;
          s = hal_gpiokey_close cfg s
      in s\<lparr>debounce_timer := None, timer_active := False, key_detected_callback := False\<rparr>)"

text \<open>The statics when the program starts, with no interrupt enabled.\<close>

definition hal_key_init :: hal_key where
  "hal_key_init = \<lparr>key_detected_callback = False, debounce_timer = None, timer_active = False,
     key_status = zero_key_status, debounce_started = False, time_first_debounce = 0, pwr_key = zero_pwrkey,
     gpio_key = zero_gpiokey, pwr_irq = False, gpio_irq = {}, key_sent = [], key_assert = False\<rparr>"

section \<open>Runs\<close>

text \<open>An enabled interrupt arrives, or the timer expires.\<close>

inductive key_step :: "gpio_cfg \<Rightarrow> hal_key \<Rightarrow> hal_key \<Rightarrow> bool" for cfg where
  pwr: "pwr_irq s \<Longrightarrow> key_step cfg s (hal_pwrkey_handle_irq_state True hw s)"
| gpio: "pin \<in> gpio_irq s \<Longrightarrow> key_step cfg s (hal_gpiokey_irqhandler cfg hw pin s)"
| debounce: "timer_active s \<Longrightarrow> debounce_timer s = Some Debounce_Handler \<Longrightarrow>
    key_step cfg s (hal_key_debounce_handler cfg hw s)"
| boot: "timer_active s \<Longrightarrow> debounce_timer s = Some Boot_Handler \<Longrightarrow>
    key_step cfg s (hal_key_boot_handler cfg hw s)"

inductive_cases key_stepE: "key_step cfg s s'"

end
