(* ===== verification/HalKeySafety.thy ===== *)
theory HalKeySafety
  imports HalKey
begin

text \<open>
  The keys: the pin maps are finite sets, the loops visit every set bit once, the invariant of the
  handlers, and what the callback sees.
\<close>

section \<open>The interface of a set of pins\<close>

text \<open>
  What the handlers rely on: a map stands for a set of pins below a bound, and moving a pin from
  one map to another keeps them disjoint and their union.
\<close>

locale pin_set =
  fixes empty :: 'm and add remove :: "'m \<Rightarrow> nat \<Rightarrow> 'm" and isin :: "'m \<Rightarrow> nat \<Rightarrow> bool"
    and join minus :: "'m \<Rightarrow> 'm \<Rightarrow> 'm" and overlap :: "'m \<Rightarrow> 'm \<Rightarrow> bool" and some :: "'m \<Rightarrow> bool"
    and elems :: "'m \<Rightarrow> nat set" and invar :: "'m \<Rightarrow> bool" and bound :: nat
  assumes elems_empty: "elems empty = {}" "invar empty"
    and elems_bound: "elems m \<subseteq> {..<bound}"
    and elems_add: "invar m \<Longrightarrow> p < bound \<Longrightarrow> elems (add m p) = insert p (elems m)" "invar m \<Longrightarrow> invar (add m p)"
    and elems_remove: "invar m \<Longrightarrow> p < bound \<Longrightarrow> elems (remove m p) = elems m - {p}" "invar m \<Longrightarrow> invar (remove m p)"
    and elems_isin: "p < bound \<Longrightarrow> isin m p \<longleftrightarrow> p \<in> elems m"
    and elems_join: "elems (join m m') = elems m \<union> elems m'" "invar (join m m')"
    and elems_minus: "elems (minus m m') = elems m - elems m'" "invar (minus m m')"
    and elems_overlap: "overlap m m' \<longleftrightarrow> elems m \<inter> elems m' \<noteq> {}"
    and elems_some: "some m \<longleftrightarrow> elems m \<noteq> {}"
begin

lemma elems_finite: "finite (elems m)"
  using elems_bound by (rule finite_subset) simp

lemma some_overlap: "some m \<longleftrightarrow> overlap m m"
  by (simp add: elems_some elems_overlap)

lemma move_pin:
  assumes "invar a" "invar b" "p \<in> elems a" "\<not> overlap a b"
  shows "elems (remove a p) \<union> elems (add b p) = elems a \<union> elems b" and "\<not> overlap (remove a p) (add b p)"
proof -
  have "p < bound" using assms(3) elems_bound by auto
  then show "elems (remove a p) \<union> elems (add b p) = elems a \<union> elems b" "\<not> overlap (remove a p) (add b p)"
    using assms by (auto simp: elems_overlap elems_remove(1) elems_add(1))
qed

lemma move_map:
  assumes "elems d \<subseteq> elems a" "\<not> overlap a b"
  shows "elems (minus a d) \<union> elems (join b d) = elems a \<union> elems b" and "\<not> overlap (minus a d) (join b d)"
  using assms by (auto simp: elems_overlap elems_minus elems_join)

lemma pick_rest:
  assumes "invar m" "some m"
  shows "\<exists>p < bound. isin m p \<and> \<not> isin (remove m p) p \<and> card (elems (remove m p)) < card (elems m)"
proof -
  obtain p where p: "p \<in> elems m" using assms(2) by (auto simp: elems_some)
  then have "p < bound" using elems_bound by auto
  then show ?thesis
    using p assms(1) card_Diff1_less [OF elems_finite p] by (auto simp: elems_isin elems_remove(1))
qed

end

section \<open>Pin maps as sets\<close>

abbreviation wf_map :: "GPIO_MAP_T \<Rightarrow> bool" where
  "wf_map m \<equiv> length m = GPIO_MAP_WORD_CNT"

definition pins :: "GPIO_MAP_T \<Rightarrow> nat set" where
  "pins m = {p. p < 32 * GPIO_MAP_WORD_CNT \<and> bit (m ! (p div 32)) (p mod 32)}"

named_theorems map_simps \<open>pin maps as sets\<close>

lemma pin_word: "p < 32 * n \<Longrightarrow> p div 32 < (n :: nat)"
  by (simp add: less_mult_imp_div_less mult.commute)

lemma word_zero_bits: "(w :: u32) = 0 \<longleftrightarrow> (\<forall>i < 32. \<not> bit w i)"
  by (simp add: bit_eq_iff)

lemma pin_eq: "p = q \<longleftrightarrow> p div 32 = q div 32 \<and> p mod 32 = (q :: nat) mod 32"
  by (metis div_mult_mod_eq)

lemma map_length [simp]:
  "length (gpio_map_set_pin m p) = length m" "length (gpio_map_clear_pin m p) = length m"
  "wf_map (gpio_map_set_map m m')" "wf_map (gpio_map_clear_map m m')" "wf_map gpio_map_clear"
  by (simp_all add: gpio_map_set_pin_def gpio_map_clear_pin_def gpio_map_set_map_def gpio_map_clear_map_def
      gpio_map_clear_def)

lemma set_pin_pins [map_simps]:
  assumes "wf_map m" and "p < 32 * GPIO_MAP_WORD_CNT"
  shows "pins (gpio_map_set_pin m p) = insert p (pins m)"
  using assms pin_word [OF assms(2)]
  by (auto simp: pins_def gpio_map_set_pin_def nth_list_update bit_or_iff pin_eq [of _ p] split: if_splits)

lemma clear_pin_pins [map_simps]:
  assumes "wf_map m" and "p < 32 * GPIO_MAP_WORD_CNT"
  shows "pins (gpio_map_clear_pin m p) = pins m - {p}"
  using assms pin_word [OF assms(2)]
  by (auto simp: pins_def gpio_map_clear_pin_def nth_list_update bit_and_iff bit_not_iff pin_eq [of _ p]
      split: if_splits)

lemma test_pin_pins [map_simps]: "p < 32 * GPIO_MAP_WORD_CNT \<Longrightarrow> gpio_map_test_set_pin m p \<longleftrightarrow> p \<in> pins m"
  by (simp add: gpio_map_test_set_pin_def pins_def)

lemma map_pins [map_simps]:
  "pins (gpio_map_set_map m m') = pins m \<union> pins m'"
  "pins (gpio_map_clear_map m m') = pins m - pins m'"
  "pins gpio_map_clear = {}"
  by (auto simp: pins_def gpio_map_set_map_def gpio_map_clear_map_def gpio_map_clear_def bit_or_iff bit_and_iff
      bit_not_iff pin_word)

lemma pin_of_bit: "i < n \<Longrightarrow> j < 32 \<Longrightarrow> 32 * i + j < 32 * n \<and> (32 * i + j) div 32 = i \<and> (32 * i + j) mod 32 = (j :: nat)"
  by simp

lemma map_empty [map_simps]:
  "gpio_map_test_set_map m m' \<longleftrightarrow> pins m \<inter> pins m' \<noteq> {}"
  "gpio_map_test_set m \<longleftrightarrow> pins m \<noteq> {}"
proof -
  have "(\<exists>i < GPIO_MAP_WORD_CNT. m ! i AND m' ! i \<noteq> 0) \<longleftrightarrow> pins m \<inter> pins m' \<noteq> {}" for m'
  proof
    assume "\<exists>i < GPIO_MAP_WORD_CNT. m ! i AND m' ! i \<noteq> 0"
    then obtain i j where "i < GPIO_MAP_WORD_CNT" "j < 32" "bit (m ! i) j" "bit (m' ! i) j"
      by (auto simp: word_zero_bits bit_and_iff)
    with pin_of_bit [of i GPIO_MAP_WORD_CNT j] have "32 * i + j \<in> pins m \<inter> pins m'" by (simp add: pins_def)
    then show "pins m \<inter> pins m' \<noteq> {}" by blast
  next
    assume "pins m \<inter> pins m' \<noteq> {}"
    then obtain p where "p < 32 * GPIO_MAP_WORD_CNT" "bit (m ! (p div 32)) (p mod 32)" "bit (m' ! (p div 32)) (p mod 32)"
      by (auto simp: pins_def)
    then show "\<exists>i < GPIO_MAP_WORD_CNT. m ! i AND m' ! i \<noteq> 0"
      by (intro exI [of _ "p div 32"]) (auto simp: pin_word word_zero_bits bit_and_iff intro!: exI [of _ "p mod 32"])
  qed
  from this [of m'] this [of m] show "gpio_map_test_set_map m m' \<longleftrightarrow> pins m \<inter> pins m' \<noteq> {}"
    "gpio_map_test_set m \<longleftrightarrow> pins m \<noteq> {}"
    by (auto simp: gpio_map_test_set_map_def gpio_map_test_set_def list_ex_iff)
qed

lemma pins_bound: "pins m \<subseteq> {..<32 * GPIO_MAP_WORD_CNT}"
  by (auto simp: pins_def)

interpretation gm: pin_set gpio_map_clear gpio_map_set_pin gpio_map_clear_pin gpio_map_test_set_pin gpio_map_set_map
  gpio_map_clear_map gpio_map_test_set_map gpio_map_test_set pins wf_map "32 * GPIO_MAP_WORD_CNT"
  by unfold_locales (use pins_bound in \<open>simp_all add: map_simps\<close>)

section \<open>The loops\<close>

text \<open>The loop over a map calls its body once for each pin, in increasing order.\<close>

lemma pin_loop_fold:
  assumes "wf_map m"
  shows "pin_loop f g m s = fold f (filter (\<lambda>p. p \<in> pins m) [g..<32 * GPIO_MAP_WORD_CNT]) s"
  using assms
proof (induction "32 * GPIO_MAP_WORD_CNT - g" arbitrary: g m s)
  case 0
  then show ?case by (subst pin_loop.simps) simp
next
  case (Suc n)
  then have g: "g < 32 * GPIO_MAP_WORD_CNT" and n: "n = 32 * GPIO_MAP_WORD_CNT - Suc g" by simp_all
  have split: "[g..<32 * GPIO_MAP_WORD_CNT] = g # [Suc g..<32 * GPIO_MAP_WORD_CNT]"
    using g by (simp add: upt_conv_Cons)
  have clear: "filter (\<lambda>p. p \<in> pins m - {g}) [Suc g..<32 * GPIO_MAP_WORD_CNT]
      = filter (\<lambda>p. p \<in> pins m) [Suc g..<32 * GPIO_MAP_WORD_CNT]"
    by (rule filter_cong) auto
  show ?case
  proof (cases "pins m = {}")
    case True
    then show ?thesis by (subst pin_loop.simps) (simp add: map_simps)
  next
    case False
    with g Suc.prems show ?thesis
      by (subst pin_loop.simps)
        (simp add: map_simps split Suc.hyps(1) [OF n] clear [simplified] del: upt_Suc)
  qed
qed

lemma bit_loop_fold: "bit_loop f i m s = fold f (filter (bit m) [i..<32]) s"
proof (induction "32 - i" arbitrary: i m s)
  case 0
  then show ?case by (subst bit_loop.simps) simp
next
  case (Suc n)
  then have i: "i < 32" and n: "n = 32 - Suc i" by simp_all
  have split: "[i..<32] = i # [Suc i..<32]" using i by (simp add: upt_conv_Cons)
  have clear: "filter (bit (m AND NOT (BIT i))) [Suc i..<32] = filter (bit m) [Suc i..<32]"
    by (rule filter_cong) (auto simp: bit_and_iff bit_not_iff)
  show ?case
  proof (cases "m = 0")
    case True
    then show ?thesis by (subst bit_loop.simps) simp
  next
    case False
    with i show ?thesis
      by (subst bit_loop.simps) (simp add: split Suc.hyps(1) [OF n] clear del: upt_Suc)
  qed
qed

section \<open>Events of one handler\<close>

text \<open>The handler's second half changes the key status and calls the callback, nothing else.\<close>

definition status_frame :: "hal_key \<Rightarrow> hal_key \<Rightarrow> bool" where
  "status_frame s t \<longleftrightarrow> t = s\<lparr>key_status := key_status t, key_sent := key_sent t\<rparr>"

lemma status_frame_refl [simp]: "status_frame s s"
  by (simp add: status_frame_def)

lemma status_frame_trans: "status_frame s t \<Longrightarrow> status_frame t u \<Longrightarrow> status_frame s u"
  unfolding status_frame_def by (cases s; cases t; cases u) simp

lemma status_frame_send [simp]:
  "status_frame s (send_key_event c e t) \<longleftrightarrow> status_frame s t" "status_frame s (upd_status f t) \<longleftrightarrow> status_frame s t"
  unfolding status_frame_def send_key_event_def upd_status_def by (cases s; cases t; simp; fail)+

lemma send_simps [simp]:
  "key_status (send_key_event c e s) = key_status s"
  "key_detected_callback (send_key_event c e s) = key_detected_callback s"
  "key_status (upd_status f s) = f (key_status s)" "key_sent (upd_status f s) = key_sent s"
  "key_detected_callback (upd_status f s) = key_detected_callback s"
  by (simp_all add: send_key_event_def upd_status_def)

lemma status_frame_cb: "status_frame s t \<Longrightarrow> key_detected_callback t = key_detected_callback s"
  unfolding status_frame_def by (cases s; cases t) simp

lemma fold_status_frame:
  "(\<And>p s. status_frame s (f p s)) \<Longrightarrow> status_frame s (fold f ps s)"
  by (induction ps arbitrary: s) (auto intro: status_frame_trans)

lemma edge_frames: "status_frame s (key_up_edge hw i s)" "status_frame s (key_down_edge hw code i s)"
  by (simp_all add: key_up_edge_def key_down_edge_def Let_def)

lemma part_frames:
  "status_frame s (key_click hw up s)" "status_frame s (key_longpress hw code s)"
  "status_frame s (bit_loop (key_up_edge hw) i m s)" "status_frame s (bit_loop (key_down_edge hw code) i m s)"
  by (simp_all add: key_click_def key_longpress_def Let_def bit_loop_fold fold_status_frame edge_frames)

lemma status_frame_if: "status_frame s t \<Longrightarrow> status_frame s u \<Longrightarrow> status_frame s (if b then t else u)"
  by simp

text \<open>The states of the update: after the up calls, the click handling and the down calls.\<close>

definition upd1 :: "key_hw \<Rightarrow> u32 \<Rightarrow> hal_key \<Rightarrow> hal_key" where
  "upd1 hw code s =
     (let up_new = NOT code AND code_down (key_status s);
          s = bit_loop (key_up_edge hw) 0 up_new s
      in if up_new \<noteq> 0 then upd_status (key_up code) s else s)"

definition upd2 :: "key_hw \<Rightarrow> u32 \<Rightarrow> hal_key \<Rightarrow> hal_key" where
  "upd2 hw code s = upd_status (\<lambda>k. k\<lparr>code_down := code\<rparr>)
     (key_click hw (NOT code AND code_down (key_status s)) (upd1 hw code s))"

definition upd3 :: "key_hw \<Rightarrow> u32 \<Rightarrow> hal_key \<Rightarrow> hal_key" where
  "upd3 hw code s =
     (let down_new = code AND NOT (code_down (key_status s));
          s = bit_loop (key_down_edge hw code) 0 down_new (upd2 hw code s)
      in if down_new \<noteq> 0 \<and> (event (key_status s) = HAL_KEY_EVENT_NONE \<or> event (key_status s) = HAL_KEY_EVENT_UP)
         then upd_status (\<lambda>k. k\<lparr>event := HAL_KEY_EVENT_DOWN\<rparr>) s else s)"

lemma key_update_parts: "key_update hw code s = key_longpress hw code (upd3 hw code s)"
  by (simp only: key_update_def upd1_def upd2_def upd3_def Let_def)

lemma upd_frames: "status_frame s (upd1 hw code s)" "status_frame s (upd2 hw code s)" "status_frame s (upd3 hw code s)"
proof -
  show 1: "status_frame s (upd1 hw code s)" by (simp add: upd1_def Let_def part_frames)
  show 2: "status_frame s (upd2 hw code s)"
    unfolding upd2_def status_frame_send by (rule status_frame_trans [OF 1 part_frames(1)])
  show "status_frame s (upd3 hw code s)"
    unfolding upd3_def Let_def by (intro status_frame_if) (simp_all add: status_frame_trans [OF 2 part_frames(4)])
qed

lemma key_update_frame: "status_frame s (key_update hw code s)"
  unfolding key_update_parts by (rule status_frame_trans [OF upd_frames(3) part_frames(2)])

text \<open>The down and up calls of a key, newest first, \<open>True\<close> for down.\<close>

definition edges :: "nat \<Rightarrow> (u32 \<times> u8) list \<Rightarrow> bool list" where
  "edges k es = map (\<lambda>(c, e). e = event_num HAL_KEY_EVENT_DOWN)
     (filter (\<lambda>(c, e). c = BIT k \<and> (e = event_num HAL_KEY_EVENT_DOWN \<or> e = event_num HAL_KEY_EVENT_UP)) es)"

lemma BIT_eq: "i < 32 \<Longrightarrow> BIT i = BIT k \<longleftrightarrow> i = k"
  by (metis bit_BIT)

lemma edges_send:
  "edges k (key_sent (send_key_event c e s)) =
     (if key_detected_callback s \<and> c = BIT k \<and> (e = 1 \<or> e = 4) then (e = 1) # edges k (key_sent s)
      else edges k (key_sent s))"
  by (auto simp: edges_def send_key_event_def)

lemma edges_up:
  assumes "i < 32" and "key_detected_callback s"
  shows "edges k (key_sent (key_up_edge hw i s)) = (if i = k then False # edges k (key_sent s) else edges k (key_sent s))"
  using assms by (simp add: key_up_edge_def Let_def edges_send BIT_eq)

lemma edges_down:
  assumes "i < 32" and "key_detected_callback s"
  shows "edges k (key_sent (key_down_edge hw code i s)) =
    (if i = k then True # edges k (key_sent s) else edges k (key_sent s))"
  using assms by (simp add: key_down_edge_def Let_def edges_send BIT_eq)

lemma edges_fold:
  assumes f: "\<And>i s. i < 32 \<Longrightarrow> key_detected_callback s \<Longrightarrow>
      edges k (key_sent (f i s)) = (if i = k then d # edges k (key_sent s) else edges k (key_sent s))"
    and cb: "\<And>i s. key_detected_callback (f i s) = key_detected_callback s"
    and "distinct ps" and "\<forall>p \<in> set ps. p < 32" and "key_detected_callback s"
  shows "edges k (key_sent (fold f ps s)) =
    (if k \<in> set ps then d # edges k (key_sent s) else edges k (key_sent s))"
  using assms(3-5) by (induction ps arbitrary: s) (auto simp: f cb)

lemma edges_loops:
  assumes "key_detected_callback s"
  shows "edges k (key_sent (bit_loop (key_up_edge hw) 0 m s)) =
      (if k < 32 \<and> bit m k then False # edges k (key_sent s) else edges k (key_sent s))"
    and "edges k (key_sent (bit_loop (key_down_edge hw code) 0 m s)) =
      (if k < 32 \<and> bit m k then True # edges k (key_sent s) else edges k (key_sent s))"
  using assms status_frame_cb [OF edge_frames(1)] status_frame_cb [OF edge_frames(2)]
  by (simp_all add: bit_loop_fold edges_fold [where d = False] edges_fold [where d = True] edges_up edges_down)

text \<open>Click counting never passes the last click event.\<close>

lemma word_small: "(x :: u8) < 4 \<Longrightarrow> x = 0 \<or> x = 1 \<or> x = 2 \<or> x = 3"
  by (simp add: word_less_nat_alt word_unat_eq_iff) linarith

definition click_ok :: "HAL_KEY_STATUS_T \<Rightarrow> bool" where
  "click_ok k \<longleftrightarrow> cnt_click k < MAX_KEY_CLICK_COUNT"

lemma key_click_ok:
  assumes "click_ok (key_status s)"
  shows "click_ok (key_status (key_click hw up s))"
    and "edges k (key_sent (key_click hw up s)) = edges k (key_sent s)"
proof -
  have x: "cnt_click (key_status s) < 4" using assms by (simp add: click_ok_def MAX_KEY_CLICK_COUNT_def)
  show "click_ok (key_status (key_click hw up s))"
    using x by (auto simp: key_click_def click_ok_def MAX_KEY_CLICK_COUNT_def Let_def not_le)
  show "edges k (key_sent (key_click hw up s)) = edges k (key_sent s)"
    using word_small [OF x] by (auto simp: key_click_def Let_def edges_send)
qed

definition run_event :: "HAL_KEY_EVENT_T \<Rightarrow> bool" where
  "run_event e \<longleftrightarrow> e \<in> {HAL_KEY_EVENT_NONE, HAL_KEY_EVENT_DOWN, HAL_KEY_EVENT_UP, HAL_KEY_EVENT_LONGPRESS,
     HAL_KEY_EVENT_LONGLONGPRESS}"

text \<open>What the loops over the keys leave of the status.\<close>

lemma fold_status:
  assumes "\<And>i s. g (key_status (f i s)) = g (key_status s)"
  shows "g (key_status (fold f ps s)) = g (key_status s)"
  using assms by (induction ps arbitrary: s) simp_all

lemma up_loop_status:
  "code_down (key_status (bit_loop (key_up_edge hw) i m s)) = code_down (key_status s)"
  "event (key_status (bit_loop (key_up_edge hw) i m s)) = event (key_status s)"
  "cnt_click (key_status (bit_loop (key_up_edge hw) i m s)) = cnt_click (key_status s)"
  unfolding bit_loop_fold by (rule fold_status; simp add: key_up_edge_def Let_def)+

lemma down_loop_status:
  "code_down (key_status (bit_loop (key_down_edge hw c) i m s)) = code_down (key_status s)"
  "event (key_status (bit_loop (key_down_edge hw c) i m s)) = event (key_status s)"
  "cnt_click (key_status (bit_loop (key_down_edge hw c) i m s)) = cnt_click (key_status s)"
  unfolding bit_loop_fold by (rule fold_status; simp add: key_down_edge_def Let_def)+

lemma longpress_status:
  "code_down (key_status (key_longpress hw c s)) = code_down (key_status s)"
  "cnt_click (key_status (key_longpress hw c s)) = cnt_click (key_status s)"
  "run_event (event (key_status s)) \<Longrightarrow> run_event (event (key_status (key_longpress hw c s)))"
  "edges k (key_sent (key_longpress hw c s)) = edges k (key_sent s)"
  by (auto simp: key_longpress_def Let_def run_event_def edges_send)

lemma click_status:
  "code_down (key_status (key_click hw up s)) = code_down (key_status s)"
  "run_event (event (key_status s)) \<Longrightarrow> run_event (event (key_status (key_click hw up s)))"
  by (auto simp: key_click_def Let_def run_event_def)

lemma key_up_status:
  "code_down (key_up c k) = code_down k" "cnt_click (key_up c k) = cnt_click k"
  "run_event (event k) \<Longrightarrow> run_event (event (key_up c k))"
  by (auto simp: key_up_def run_event_def)

text \<open>One update: the reported keys, and for each key an up and a down call for a change.\<close>

lemma upd1_status:
  assumes "click_ok (key_status s)" and "run_event (event (key_status s))"
  shows "click_ok (key_status (upd1 hw code s))" and "run_event (event (key_status (upd1 hw code s)))"
  using assms by (simp_all add: upd1_def Let_def click_ok_def up_loop_status key_up_status)

lemma upd2_status:
  assumes "click_ok (key_status s)" and "run_event (event (key_status s))"
  shows "click_ok (key_status (upd2 hw code s))" and "run_event (event (key_status (upd2 hw code s)))"
    and "code_down (key_status (upd2 hw code s)) = code"
  using key_click_ok(1) [OF upd1_status(1) [OF assms]] click_status(2) [OF upd1_status(2) [OF assms]]
  by (simp_all add: upd2_def click_ok_def)

lemma upd3_status:
  assumes "click_ok (key_status s)" and "run_event (event (key_status s))"
  shows "click_ok (key_status (upd3 hw code s))" and "run_event (event (key_status (upd3 hw code s)))"
    and "code_down (key_status (upd3 hw code s)) = code"
  using upd2_status [OF assms, of hw code]
  by (auto simp: upd3_def Let_def click_ok_def down_loop_status run_event_def)

lemma key_update_status:
  assumes "click_ok (key_status s)" and "run_event (event (key_status s))"
  shows "click_ok (key_status (key_update hw code s))" and "run_event (event (key_status (key_update hw code s)))"
    and "code_down (key_status (key_update hw code s)) = code"
  using upd3_status [OF assms, of hw code] unfolding key_update_parts
  by (simp_all only: longpress_status click_ok_def)

lemma key_update_edges:
  assumes "click_ok (key_status s)" and cb: "key_detected_callback s" and k: "k < 32"
  shows "edges k (key_sent (key_update hw code s)) =
    (if bit code k \<and> \<not> bit (code_down (key_status s)) k then [True] else []) @
    (if \<not> bit code k \<and> bit (code_down (key_status s)) k then [False] else []) @ edges k (key_sent s)"
proof -
  let ?E = "\<lambda>s. edges k (key_sent s)"
  let ?up = "NOT code AND code_down (key_status s)" and ?d = "code AND NOT (code_down (key_status s))"
  have c1: "click_ok (key_status (upd1 hw code s))"
    using assms(1) by (simp add: upd1_def Let_def click_ok_def up_loop_status key_up_status)
  have "?E (upd1 hw code s) = (if bit ?up k then [False] else []) @ ?E s"
    using k by (simp add: upd1_def Let_def edges_loops(1) [OF cb])
  then have 2: "?E (upd2 hw code s) = (if bit ?up k then [False] else []) @ ?E s"
    unfolding upd2_def send_simps key_click_ok(2) [OF c1] .
  have "?E (upd3 hw code s) = ?E (bit_loop (key_down_edge hw code) 0 ?d (upd2 hw code s))"
    by (simp add: upd3_def Let_def)
  also have "\<dots> = (if bit ?d k then [True] else []) @ ?E (upd2 hw code s)"
    using k cb by (simp add: edges_loops(2) status_frame_cb [OF upd_frames(2)])
  finally show ?thesis unfolding key_update_parts longpress_status 2
    using k by (simp add: bit_and_iff bit_not_iff)
qed

section \<open>Pins of one handler\<close>

text \<open>The pins with a key, the key of a pin and whether it is pressed.\<close>

definition cfg_pins :: "gpio_cfg \<Rightarrow> nat set" where
  "cfg_pins cfg = key_pin ` {c \<in> set cfg. key_code c \<noteq> HAL_KEY_CODE_NONE}"

definition cfg_ok :: "gpio_cfg \<Rightarrow> bool" where
  "cfg_ok cfg \<longleftrightarrow> (\<forall>c \<in> set cfg. key_pin c < HAL_GPIO_PIN_NUM)"

definition pin_code :: "gpio_cfg \<Rightarrow> nat \<Rightarrow> u32" where
  "pin_code cfg p = (case hal_gpiokey_find_index cfg p of Some c \<Rightarrow> key_code c | None \<Rightarrow> HAL_KEY_CODE_NONE)"

definition pin_pressed :: "gpio_cfg \<Rightarrow> key_hw \<Rightarrow> nat \<Rightarrow> bool" where
  "pin_pressed cfg hw p =
     (case hal_gpiokey_find_index cfg p of Some c \<Rightarrow> hal_gpio_pin_get_val hw p = key_down c | None \<Rightarrow> False)"

lemma find_index_pin:
  assumes "p \<in> cfg_pins cfg"
  obtains c where "hal_gpiokey_find_index cfg p = Some c" "pin_code cfg p = key_code c"
    "pin_pressed cfg hw p \<longleftrightarrow> hal_gpio_pin_get_val hw p = key_down c"
proof -
  from assms obtain c' where "c' \<in> set cfg" "key_pin c' = p" by (auto simp: cfg_pins_def)
  then have "hal_gpiokey_find_index cfg p \<noteq> None" by (auto simp: hal_gpiokey_find_index_def find_None_iff)
  then obtain c where "hal_gpiokey_find_index cfg p = Some c" by blast
  then show ?thesis using that by (simp add: pin_code_def pin_pressed_def)
qed

lemma cfg_pins_bound: "cfg_ok cfg \<Longrightarrow> p \<in> cfg_pins cfg \<Longrightarrow> p < 32 * GPIO_MAP_WORD_CNT"
  by (auto simp: cfg_ok_def cfg_pins_def GPIO_MAP_WORD_CNT_def HAL_GPIO_PIN_NUM_def)

lemma dither_fold:
  assumes "set ps \<subseteq> cfg_pins cfg"
  shows "fold (gpio_dither_pin cfg) ps s = s\<lparr>gpio_irq := gpio_irq s \<union> set ps\<rparr>"
  using assms
proof (induction ps arbitrary: s)
  case Nil
  then show ?case by simp
next
  case (Cons p ps)
  then obtain c where "hal_gpiokey_find_index cfg p = Some c" by (auto elim: find_index_pin)
  then show ?case using Cons by (simp add: gpio_dither_pin_def hal_gpiokey_enable_irq_def insert_commute)
qed

text \<open>The released pins of a list move from the map of down pins to the enabled interrupts.\<close>

lemma down_fold:
  assumes "cfg_ok cfg" and "set ps \<subseteq> cfg_pins cfg" and "wf_map (pin_down (gpio_key s))"
    and "fold (gpio_down_pin cfg hw) ps (code, s) = (code', s')"
  defines "R \<equiv> {p \<in> set ps. \<not> pin_pressed cfg hw p}"
  shows "s' = s\<lparr>gpio_key := (gpio_key s)\<lparr>pin_down := pin_down (gpio_key s')\<rparr>, gpio_irq := gpio_irq s \<union> R\<rparr>"
    and "wf_map (pin_down (gpio_key s'))" and "pins (pin_down (gpio_key s')) = pins (pin_down (gpio_key s)) - R"
    and "bit code' k \<longleftrightarrow> bit code k \<or> (\<exists>p \<in> set ps. pin_pressed cfg hw p \<and> bit (pin_code cfg p) k)"
proof -
  have "s' = s\<lparr>gpio_key := (gpio_key s)\<lparr>pin_down := pin_down (gpio_key s')\<rparr>, gpio_irq := gpio_irq s \<union> R\<rparr> \<and>
    wf_map (pin_down (gpio_key s')) \<and> pins (pin_down (gpio_key s')) = pins (pin_down (gpio_key s)) - R \<and>
    (\<forall>k. bit code' k \<longleftrightarrow> bit code k \<or> (\<exists>p \<in> set ps. pin_pressed cfg hw p \<and> bit (pin_code cfg p) k))"
    using assms(2-4) unfolding R_def
  proof (induction ps arbitrary: s code)
    case Nil
    then show ?case by simp
  next
    case (Cons p ps)
    from Cons.prems(1) have p: "p \<in> cfg_pins cfg" and ps: "set ps \<subseteq> cfg_pins cfg" by simp_all
    obtain c where c: "hal_gpiokey_find_index cfg p = Some c" "pin_code cfg p = key_code c"
        "pin_pressed cfg hw p \<longleftrightarrow> hal_gpio_pin_get_val hw p = key_down c"
      using p by (rule find_index_pin)
    note b = cfg_pins_bound [OF assms(1) p]
    show ?case
    proof (cases "pin_pressed cfg hw p")
      case True
      then have "gpio_down_pin cfg hw p (code, s) = (code OR key_code c, s)" using c by (simp add: gpio_down_pin_def)
      then have f: "fold (gpio_down_pin cfg hw) ps (code OR key_code c, s) = (code', s')" using Cons.prems(3) by simp
      have R: "{q \<in> set (p # ps). \<not> pin_pressed cfg hw q} = {q \<in> set ps. \<not> pin_pressed cfg hw q}" using True by auto
      show ?thesis using Cons.IH [OF ps Cons.prems(2) f] True c(2) unfolding R by (auto simp: bit_or_iff)
    next
      case False
      let ?s = "s\<lparr>gpio_key := (gpio_key s)\<lparr>pin_down := gpio_map_clear_pin (pin_down (gpio_key s)) p\<rparr>,
        gpio_irq := insert p (gpio_irq s)\<rparr>"
      from False have "gpio_down_pin cfg hw p (code, s) = (code, ?s)"
        using c by (simp add: gpio_down_pin_def hal_gpiokey_enable_irq_def Let_def)
      then have f: "fold (gpio_down_pin cfg hw) ps (code, ?s) = (code', s')" using Cons.prems(3) by simp
      have w: "wf_map (pin_down (gpio_key ?s))" using Cons.prems(2) by simp
      have R: "{q \<in> set (p # ps). \<not> pin_pressed cfg hw q} = insert p {q \<in> set ps. \<not> pin_pressed cfg hw q}"
        using False by auto
      show ?thesis using Cons.IH [OF ps w f] False clear_pin_pins [OF Cons.prems(2) b] unfolding R by auto
    qed
  qed
  then show "s' = s\<lparr>gpio_key := (gpio_key s)\<lparr>pin_down := pin_down (gpio_key s')\<rparr>, gpio_irq := gpio_irq s \<union> R\<rparr>"
    "wf_map (pin_down (gpio_key s'))" "pins (pin_down (gpio_key s')) = pins (pin_down (gpio_key s)) - R"
    "bit code' k \<longleftrightarrow> bit code k \<or> (\<exists>p \<in> set ps. pin_pressed cfg hw p \<and> bit (pin_code cfg p) k)" by blast+
qed

text \<open>The pressed pins of a list go down once the interval has passed, the others dither.\<close>

lemma debounce_fold:
  assumes "cfg_ok cfg" and "set ps \<subseteq> cfg_pins cfg"
    and "wf_map (pin_down (gpio_key s))" and "wf_map da" and "wf_map ia"
    and "fold (gpio_debounce_pin cfg hw) ps (da, ia, code, s) = (da', ia', code', s')"
  defines "late \<equiv> KEY_DEBOUNCE_INTERVAL hw \<le> hw_time hw - time_debounce (gpio_key s)"
  shows "s' = s\<lparr>gpio_key := (gpio_key s)\<lparr>pin_down := pin_down (gpio_key s')\<rparr>\<rparr> \<and>
    wf_map (pin_down (gpio_key s')) \<and> wf_map da' \<and> wf_map ia' \<and>
    pins (pin_down (gpio_key s')) = pins (pin_down (gpio_key s)) \<union> {p \<in> set ps. pin_pressed cfg hw p \<and> late} \<and>
    pins da' = pins da \<union> {p \<in> set ps. pin_pressed cfg hw p \<and> late} \<and>
    pins ia' = pins ia \<union> {p \<in> set ps. \<not> pin_pressed cfg hw p} \<and>
    (\<forall>k. bit code' k \<longleftrightarrow> bit code k \<or> (\<exists>p \<in> set ps. pin_pressed cfg hw p \<and> late \<and> bit (pin_code cfg p) k))"
  using assms(2-6) unfolding late_def
proof (induction ps arbitrary: s da ia code)
  case Nil
  then show ?case by simp
next
  case (Cons p ps)
  from Cons.prems(1) have p: "p \<in> cfg_pins cfg" and ps: "set ps \<subseteq> cfg_pins cfg" by simp_all
  obtain c where c: "hal_gpiokey_find_index cfg p = Some c" "pin_code cfg p = key_code c"
      "pin_pressed cfg hw p \<longleftrightarrow> hal_gpio_pin_get_val hw p = key_down c"
    using p by (rule find_index_pin)
  note b = cfg_pins_bound [OF assms(1) p]
  let ?late = "KEY_DEBOUNCE_INTERVAL hw \<le> hw_time hw - time_debounce (gpio_key s)"
  consider "\<not> pin_pressed cfg hw p" | "pin_pressed cfg hw p" "\<not> ?late" | "pin_pressed cfg hw p" "?late" by blast
  then show ?case
  proof cases
    case 1
    then have "gpio_debounce_pin cfg hw p (da, ia, code, s) = (da, gpio_map_set_pin ia p, code, s)"
      using c by (simp add: gpio_debounce_pin_def)
    then have f: "fold (gpio_debounce_pin cfg hw) ps (da, gpio_map_set_pin ia p, code, s) = (da', ia', code', s')"
      using Cons.prems(5) by simp
    have "{q \<in> set (p # ps). \<not> pin_pressed cfg hw q} = insert p {q \<in> set ps. \<not> pin_pressed cfg hw q}"
      "{q \<in> set (p # ps). pin_pressed cfg hw q \<and> ?late} = {q \<in> set ps. pin_pressed cfg hw q \<and> ?late}"
      using 1 by auto
    then show ?thesis using Cons.IH [OF ps Cons.prems(2,3) _ f] 1 set_pin_pins [OF Cons.prems(4) b] Cons.prems(4)
      by (simp del: set_simps) auto
  next
    case 2
    then have "gpio_debounce_pin cfg hw p (da, ia, code, s) = (da, ia, code, s)"
      using c by (simp add: gpio_debounce_pin_def Let_def)
    then have f: "fold (gpio_debounce_pin cfg hw) ps (da, ia, code, s) = (da', ia', code', s')"
      using Cons.prems(5) by simp
    show ?thesis using Cons.IH [OF ps Cons.prems(2,3,4) f] 2 by auto
  next
    case 3
    let ?s = "s\<lparr>gpio_key := (gpio_key s)\<lparr>pin_down := gpio_map_set_pin (pin_down (gpio_key s)) p\<rparr>\<rparr>"
    from 3 have "gpio_debounce_pin cfg hw p (da, ia, code, s) = (gpio_map_set_pin da p, ia, code OR key_code c, ?s)"
      using c by (simp add: gpio_debounce_pin_def Let_def)
    then have f: "fold (gpio_debounce_pin cfg hw) ps (gpio_map_set_pin da p, ia, code OR key_code c, ?s)
        = (da', ia', code', s')"
      using Cons.prems(5) by simp
    have w: "wf_map (pin_down (gpio_key ?s))" "wf_map (gpio_map_set_pin da p)" using Cons.prems(2,3) by simp_all
    have t: "time_debounce (gpio_key ?s) = time_debounce (gpio_key s)" by simp
    have "{q \<in> set (p # ps). \<not> pin_pressed cfg hw q} = {q \<in> set ps. \<not> pin_pressed cfg hw q}"
      "{q \<in> set (p # ps). pin_pressed cfg hw q \<and> ?late} = insert p {q \<in> set ps. pin_pressed cfg hw q \<and> ?late}"
      using 3 by auto
    then show ?thesis using Cons.IH [OF ps w Cons.prems(4) f, unfolded t] 3 c(2) set_pin_pins [OF Cons.prems(2) b]
        set_pin_pins [OF Cons.prems(3) b]
      by (simp add: bit_or_iff del: set_simps) auto
  qed
qed

end
