(* ===== verification/HalKeyRun.thy ===== *)
theory HalKeyRun
  imports HalKeySafety
begin

text \<open>
  Runs of the keys: after opening, any sequence of interrupts and timer expiries. The invariant of
  these runs, and the properties of what the callback sees.
\<close>

section \<open>Where a pin is\<close>

abbreviation pB :: "hal_key \<Rightarrow> nat set" where
  "pB s \<equiv> pins (pin_debounce (gpio_key s))"

abbreviation pD :: "hal_key \<Rightarrow> nat set" where
  "pD s \<equiv> pins (pin_dither (gpio_key s))"

abbreviation pW :: "hal_key \<Rightarrow> nat set" where
  "pW s \<equiv> pins (pin_down (gpio_key s))"

text \<open>Every pin is in at most one of: under debounce, dithering, down, interrupt enabled.\<close>

definition gpio_part :: "gpio_cfg \<Rightarrow> hal_key \<Rightarrow> bool" where
  "gpio_part cfg s \<longleftrightarrow>
     wf_map (pin_debounce (gpio_key s)) \<and> wf_map (pin_dither (gpio_key s)) \<and> wf_map (pin_down (gpio_key s)) \<and>
     pB s \<inter> pD s = {} \<and> pB s \<inter> pW s = {} \<and> pW s \<inter> pD s = {} \<and> gpio_irq s \<inter> (pB s \<union> pD s \<union> pW s) = {} \<and>
     gpio_irq s \<union> pB s \<union> pD s \<union> pW s \<subseteq> cfg_pins cfg"

definition gpio_all :: "hal_key \<Rightarrow> nat set" where
  "gpio_all s = gpio_irq s \<union> pB s \<union> pD s \<union> pW s"

definition gpio_frame :: "hal_key \<Rightarrow> hal_key \<Rightarrow> bool" where
  "gpio_frame s t \<longleftrightarrow> t = s\<lparr>gpio_key := gpio_key t, gpio_irq := gpio_irq t\<rparr>"

lemma gpio_frame_refl [simp]: "gpio_frame s s"
  by (simp add: gpio_frame_def)

lemma gpio_frame_trans: "gpio_frame s t \<Longrightarrow> gpio_frame t u \<Longrightarrow> gpio_frame s u"
  unfolding gpio_frame_def by (cases s; cases t; cases u) simp

lemma gpio_frame_upd: "gpio_frame s (s\<lparr>gpio_key := g, gpio_irq := i\<rparr>)" "gpio_frame s (s\<lparr>gpio_key := g\<rparr>)"
  by (simp_all add: gpio_frame_def)

lemma loop_pins: "set (filter (\<lambda>p. p \<in> pins m) [0..<32 * GPIO_MAP_WORD_CNT]) = pins m"
  using pins_bound by auto

lemma gpio_assert_id: "gpio_part cfg s \<Longrightarrow> gpio_assert s = s"
  by (simp add: gpio_assert_def gpio_part_def map_simps Let_def)

lemma dither_scan:
  fixes hw
  assumes "gpio_part cfg s"
  defines "s' \<equiv> gpio_dither_scan cfg hw s"
  shows "gpio_frame s s'" and "gpio_part cfg s'" and "gpio_all s' = gpio_all s" and "pB s' = pB s" and "pW s' = pW s"
    and "time_debounce (gpio_key s') = time_debounce (gpio_key s)"
proof -
  let ?d = "pin_dither (gpio_key s)"
  let ?t = "s\<lparr>gpio_key := (gpio_key s)\<lparr>pin_dither := gpio_map_clear_map ?d ?d\<rparr>, gpio_irq := gpio_irq s \<union> pD s\<rparr>"
  have w: "wf_map ?d" "pD s \<subseteq> cfg_pins cfg" using assms(1) by (simp_all add: gpio_part_def)
  have "pin_loop (gpio_dither_pin cfg) 0 ?d u = u\<lparr>gpio_irq := gpio_irq u \<union> pD s\<rparr>" for u
    using w by (simp only: pin_loop_fold dither_fold loop_pins)
  then have cases: "s' = s \<or> s' = ?t" by (simp add: s'_def gpio_dither_scan_def Let_def)
  have "gpio_part cfg ?t" "gpio_all ?t = gpio_all s"
    using assms(1) by (auto simp: gpio_part_def gpio_all_def map_simps)
  then show "gpio_frame s s'" "gpio_part cfg s'" "gpio_all s' = gpio_all s" "pB s' = pB s" "pW s' = pW s"
    "time_debounce (gpio_key s') = time_debounce (gpio_key s)"
    using cases assms(1) by (auto simp: gpio_frame_upd)
qed

lemma down_scan:
  assumes C: "cfg_ok cfg" and P: "gpio_part cfg s" and R: "gpio_down_scan cfg hw (code, s) = (code', s')"
  shows "gpio_frame s s'" and "gpio_part cfg s'" and "gpio_all s' = gpio_all s" and "pB s' = pB s"
    and "time_debounce (gpio_key s') = time_debounce (gpio_key s)"
    and "pW s' = {p \<in> pW s. pin_pressed cfg hw p}"
    and "bit code' k \<longleftrightarrow> bit code k \<or> (\<exists>p \<in> pW s. pin_pressed cfg hw p \<and> bit (pin_code cfg p) k)"
proof -
  have w: "wf_map (pin_down (gpio_key s))" and sub: "pW s \<subseteq> cfg_pins cfg" using P by (simp_all add: gpio_part_def)
  let ?ps = "filter (\<lambda>p. p \<in> pW s) [0..<32 * GPIO_MAP_WORD_CNT]"
  have "fold (gpio_down_pin cfg hw) ?ps (code, s) = (code', s')"
  proof (cases "pW s = {}")
    case True
    then show ?thesis using R by (simp add: gpio_down_scan_def map_simps)
  next
    case False
    then show ?thesis using R w by (simp add: gpio_down_scan_def map_simps pin_loop_fold)
  qed
  note f = down_fold [OF C _ w this, unfolded loop_pins, OF sub]
  from f(1) show "gpio_frame s s'" by (metis gpio_frame_upd(1))
  have g: "pin_debounce (gpio_key s') = pin_debounce (gpio_key s)" "pin_dither (gpio_key s') = pin_dither (gpio_key s)"
    "time_debounce (gpio_key s') = time_debounce (gpio_key s)"
    "gpio_irq s' = gpio_irq s \<union> {p \<in> pW s. \<not> pin_pressed cfg hw p}"
    by (subst f(1), simp)+
  then show "pB s' = pB s" "time_debounce (gpio_key s') = time_debounce (gpio_key s)" by simp_all
  show W: "pW s' = {p \<in> pW s. pin_pressed cfg hw p}" using f(3) by auto
  show "bit code' k \<longleftrightarrow> bit code k \<or> (\<exists>p \<in> pW s. pin_pressed cfg hw p \<and> bit (pin_code cfg p) k)" by (rule f(4))
  show "gpio_part cfg s'" "gpio_all s' = gpio_all s"
    using P f(2) unfolding gpio_part_def gpio_all_def g W by auto
qed

lemma debounce_scan:
  assumes C: "cfg_ok cfg" and P: "gpio_part cfg s" and R: "gpio_debounce_scan cfg hw (code, s) = (code', s')"
  defines "late \<equiv> KEY_DEBOUNCE_INTERVAL hw \<le> hw_time hw - time_debounce (gpio_key s)"
  shows "gpio_frame s s'" and "gpio_part cfg s'" and "gpio_all s' = gpio_all s"
    and "pW s' = pW s \<union> {p \<in> pB s. pin_pressed cfg hw p \<and> late}"
    and "bit code' k \<longleftrightarrow> bit code k \<or> (\<exists>p \<in> pB s. pin_pressed cfg hw p \<and> late \<and> bit (pin_code cfg p) k)"
proof -
  have w: "wf_map (pin_down (gpio_key s))" "wf_map (pin_debounce (gpio_key s))" and sub: "pB s \<subseteq> cfg_pins cfg"
    using P by (simp_all add: gpio_part_def)
  let ?ps = "filter (\<lambda>p. p \<in> pB s) [0..<32 * GPIO_MAP_WORD_CNT]"
  let ?Q = "{p \<in> pB s. pin_pressed cfg hw p \<and> late}" and ?N = "{p \<in> pB s. \<not> pin_pressed cfg hw p}"
  have all: "gpio_frame s s' \<and> gpio_part cfg s' \<and> gpio_all s' = gpio_all s \<and> pW s' = pW s \<union> ?Q \<and>
    (\<forall>k. bit code' k \<longleftrightarrow> bit code k \<or> (\<exists>p \<in> pB s. pin_pressed cfg hw p \<and> late \<and> bit (pin_code cfg p) k))"
  proof (cases "pB s = {}")
    case True
    then show ?thesis using R P by (simp add: gpio_debounce_scan_def map_simps)
  next
    case False
    obtain da ia c t where f: "fold (gpio_debounce_pin cfg hw) ?ps (gpio_map_clear, gpio_map_clear, code, s) = (da, ia, c, t)"
      by (metis prod_cases4)
    note d = debounce_fold [OF C _ w(1) _ _ f, unfolded loop_pins, OF sub, simplified, folded late_def]
    have loop: "pin_loop (gpio_debounce_pin cfg hw) 0 (pin_debounce (gpio_key s)) (gpio_map_clear, gpio_map_clear, code, s)
        = (da, ia, c, t)"
      using w(2) f by (simp only: pin_loop_fold)
    let ?g = "gpio_key t"
    let ?u = "t\<lparr>gpio_key := ?g\<lparr>pin_debounce := gpio_map_clear_map (gpio_map_clear_map (pin_debounce ?g) da) ia,
      pin_dither := gpio_map_set_map (pin_dither ?g) ia\<rparr>\<rparr>"
    have r: "code' = c" "s' = ?u"
      using R False by (simp_all add: gpio_debounce_scan_def map_simps loop Let_def)
    have g: "pin_debounce ?g = pin_debounce (gpio_key s)" "pin_dither ?g = pin_dither (gpio_key s)"
      "gpio_irq t = gpio_irq s"
      by (subst d [THEN conjunct1], simp)+
    have sets: "pins da = ?Q" "pins ia = ?N" "pW t = pW s \<union> ?Q" using d by (simp_all add: map_simps)
    have frame: "gpio_frame s ?u"
      using gpio_frame_trans [OF gpio_frame_upd(2) gpio_frame_upd(2)] d [THEN conjunct1] by metis
    have v: "pB ?u = pB s - ?Q - ?N" "pD ?u = pD s \<union> ?N" "pW ?u = pW s \<union> ?Q" "gpio_irq ?u = gpio_irq s"
      using sets g by (simp_all add: map_simps)
    have "gpio_part cfg ?u" "gpio_all ?u = gpio_all s"
      using P d unfolding gpio_part_def gpio_all_def v by auto
    then show ?thesis unfolding r using frame v(3) d by blast
  qed
  then show "gpio_frame s s'" "gpio_part cfg s'" "gpio_all s' = gpio_all s" "pW s' = pW s \<union> ?Q"
    "bit code' k \<longleftrightarrow> bit code k \<or> (\<exists>p \<in> pB s. pin_pressed cfg hw p \<and> late \<and> bit (pin_code cfg p) k)" by blast+
qed

text \<open>The whole scan: pins only change their place, and the code has exactly the keys that are down.\<close>

lemma gpio_scan:
  assumes C: "cfg_ok cfg" and P: "gpio_part cfg s" and R: "gpio_scan cfg hw (code, s) = (code', s')"
  defines "late \<equiv> KEY_DEBOUNCE_INTERVAL hw \<le> hw_time hw - time_debounce (gpio_key s)"
  shows "gpio_frame s s'" and "gpio_part cfg s'" and "gpio_all s' = gpio_all s"
    and "bit code' k \<longleftrightarrow> bit code k \<or> (\<exists>p \<in> pW s'. bit (pin_code cfg p) k)"
    and "pW s' \<subseteq> {p. pin_pressed cfg hw p \<and> (p \<in> pW s \<or> p \<in> pB s \<and> late)}"
proof -
  let ?a = "gpio_dither_scan cfg hw s"
  obtain c b where d: "gpio_down_scan cfg hw (code, ?a) = (c, b)" by fastforce
  have e: "gpio_debounce_scan cfg hw (c, b) = (code', s')"
    using R d gpio_assert_id [OF P] by (simp add: gpio_scan_def)
  note 1 = dither_scan [OF P, of hw]
  note 2 = down_scan [OF C 1(2) d]
  note 3 = debounce_scan [OF C 2(2) e]
  show "gpio_frame s s'" using 1(1) 2(1) 3(1) by (blast intro: gpio_frame_trans)
  show "gpio_part cfg s'" by (rule 3(2))
  show "gpio_all s' = gpio_all s" using 1(3) 2(3) 3(3) by simp
  show "bit code' k \<longleftrightarrow> bit code k \<or> (\<exists>p \<in> pW s'. bit (pin_code cfg p) k)"
    unfolding 3(5) 3(4) 2(7) 2(6) by auto
  show "pW s' \<subseteq> {p. pin_pressed cfg hw p \<and> (p \<in> pW s \<or> p \<in> pB s \<and> late)}"
    unfolding 3(4) 2(4-6) 1(4-6) late_def by auto
qed

section \<open>The power key of one handler\<close>

text \<open>The power key counts as down when it is pressed and neither under debounce nor dithering.\<close>

definition pwr_down :: "HAL_KEY_PWRKEY_T \<Rightarrow> bool" where
  "pwr_down p \<longleftrightarrow> pwr_pressed p \<and> \<not> pwr_debounce p \<and> \<not> pwr_dither p"

lemma bit_PWR: "bit HAL_KEY_CODE_PWR k \<longleftrightarrow> k = 0"
  by (auto simp: HAL_KEY_CODE_PWR_def)

lemma pwr_scan:
  assumes "pwr_scan hw s = (code, s')" and "pwr_irq s = (\<not> pwr_busy (pwr_key s))"
  shows "s' = s\<lparr>pwr_key := pwr_key s', pwr_irq := pwr_irq s'\<rparr>"
    and "pwr_irq s' = (\<not> pwr_busy (pwr_key s'))"
    and "bit code k \<longleftrightarrow> k = 0 \<and> pwr_down (pwr_key s')"
    and "pwr_down (pwr_key s') \<Longrightarrow> hal_pwrkey_pressed hw \<and> (pwr_down (pwr_key s) \<or>
      pwr_debounce (pwr_key s) \<and> KEY_DEBOUNCE_INTERVAL hw \<le> hw_time hw - pwr_time (pwr_key s))"
  using assms
  by (auto simp: pwr_scan_def pwr_busy_def pwr_down_def hal_pwrkey_enable_int_def bit_PWR Let_def
      split: if_splits)

section \<open>The state after a handler\<close>

lemma permpress_fields:
  "key_status (key_permpress hw s) = key_status s" "key_sent (key_permpress hw s) = key_sent s"
  "pwr_key (key_permpress hw s) = pwr_key s" "pwr_irq (key_permpress hw s) = pwr_irq s"
  "gpio_key (key_permpress hw s) = gpio_key s" "gpio_irq (key_permpress hw s) = gpio_irq s"
  "key_assert (key_permpress hw s) = key_assert s" "debounce_timer (key_permpress hw s) = debounce_timer s"
  "key_detected_callback (key_permpress hw s) = key_detected_callback s"
  "timer_active (key_permpress hw s) = timer_active s"
  by (simp_all add: key_permpress_def)

lemma status_frame_fields:
  assumes "status_frame s t"
  shows "pwr_key t = pwr_key s" "pwr_irq t = pwr_irq s" "gpio_key t = gpio_key s" "gpio_irq t = gpio_irq s"
    "key_assert t = key_assert s" "debounce_timer t = debounce_timer s" "timer_active t = timer_active s"
    "key_detected_callback t = key_detected_callback s"
  using assms unfolding status_frame_def by (cases s; cases t; simp)+

lemma gpio_frame_fields:
  assumes "gpio_frame s t"
  shows "pwr_key t = pwr_key s" "pwr_irq t = pwr_irq s" "key_status t = key_status s" "key_sent t = key_sent s"
    "key_assert t = key_assert s" "debounce_timer t = debounce_timer s" "timer_active t = timer_active s"
    "key_detected_callback t = key_detected_callback s"
  using assms unfolding gpio_frame_def by (cases s; cases t; simp)+

lemma gpio_busy_pins: "gpio_busy (gpio_key s) \<longleftrightarrow> pB s \<union> pD s \<union> pW s \<noteq> {}"
  by (auto simp: gpio_busy_def map_simps)

lemma gpio_cong:
  "gpio_key t = gpio_key s \<Longrightarrow> gpio_irq t = gpio_irq s \<Longrightarrow> gpio_part cfg t = gpio_part cfg s"
  "gpio_key t = gpio_key s \<Longrightarrow> gpio_irq t = gpio_irq s \<Longrightarrow> gpio_all t = gpio_all s"
  by (simp_all add: gpio_part_def gpio_all_def)

text \<open>One call of the handler: the code of the keys that are down, and where everything ends up.\<close>

lemma handler_fields:
  fixes hw
  assumes C: "cfg_ok cfg" and P: "gpio_part cfg s" and I: "pwr_irq s = (\<not> pwr_busy (pwr_key s))"
    and K: "click_ok (key_status s)" "run_event (event (key_status s))" and cb: "key_detected_callback s"
  defines "t \<equiv> hal_key_debounce_handler cfg hw s"
  shows "gpio_part cfg t" and "gpio_all t = gpio_all s" and "pwr_irq t = (\<not> pwr_busy (pwr_key t))"
    and "key_assert t = key_assert s \<and> debounce_timer t = debounce_timer s \<and> key_detected_callback t"
    and "timer_active t \<longleftrightarrow> pwr_busy (pwr_key t) \<or> pB t \<union> pD t \<union> pW t \<noteq> {} \<or> event (key_status t) \<noteq> HAL_KEY_EVENT_NONE"
    and "click_ok (key_status t)" and "run_event (event (key_status t))"
    and "bit (code_down (key_status t)) k \<longleftrightarrow>
      k = 0 \<and> pwr_down (pwr_key t) \<or> (\<exists>p \<in> pW t. bit (pin_code cfg p) k)"
    and "k < 32 \<Longrightarrow> edges k (key_sent t) =
      (if bit (code_down (key_status t)) k \<and> \<not> bit (code_down (key_status s)) k then [True] else []) @
      (if \<not> bit (code_down (key_status t)) k \<and> bit (code_down (key_status s)) k then [False] else []) @
      edges k (key_sent s)"
    and "pwr_down (pwr_key t) \<Longrightarrow> hal_pwrkey_pressed hw \<and> (pwr_down (pwr_key s) \<or>
      pwr_debounce (pwr_key s) \<and> KEY_DEBOUNCE_INTERVAL hw \<le> hw_time hw - pwr_time (pwr_key s))"
    and "p \<in> pW t \<Longrightarrow> pin_pressed cfg hw p \<and> (p \<in> pW s \<or>
      p \<in> pB s \<and> KEY_DEBOUNCE_INTERVAL hw \<le> hw_time hw - time_debounce (gpio_key s))"
    and "\<exists>u. key_status u = key_status s \<and> key_sent u = key_sent s \<and> key_detected_callback u \<and>
      key_status t = key_status (key_update hw (code_down (key_status t)) u) \<and>
      key_sent t = key_sent (key_update hw (code_down (key_status t)) u)"
proof -
  let ?s = "s\<lparr>timer_active := False\<rparr>"
  obtain c1 s1 where 1: "pwr_scan hw ?s = (c1, s1)" by fastforce
  obtain code s2 where 2: "gpio_scan cfg hw (c1, s1) = (code, s2)" by fastforce
  let ?s3 = "key_update hw code s2"
  have I': "pwr_irq ?s = (\<not> pwr_busy (pwr_key ?s))" using I by simp
  note p = pwr_scan [OF 1 I']
  have p1: "gpio_key s1 = gpio_key s" "gpio_irq s1 = gpio_irq s" "key_status s1 = key_status s" "key_sent s1 = key_sent s"
    "key_assert s1 = key_assert s" "debounce_timer s1 = debounce_timer s" "\<not> timer_active s1"
    "key_detected_callback s1 = key_detected_callback s"
    by (subst p(1), simp)+
  have P1: "gpio_part cfg s1" using P by (simp add: gpio_cong [OF p1(1,2)])
  note g = gpio_scan [OF C P1 2]
  note gf = gpio_frame_fields [OF g(1)]
  note sf = status_frame_fields [OF key_update_frame [of s2 hw code]]
  have K2: "click_ok (key_status s2)" "run_event (event (key_status s2))" using K by (simp_all add: gf p1)
  note u = key_update_status [OF K2, of hw code]
  have t: "t = (if pwr_busy (pwr_key s1) \<or> gpio_busy (gpio_key s2) \<or> event (key_status ?s3) \<noteq> HAL_KEY_EVENT_NONE
      then hal_key_debounce_timer_restart (key_permpress hw ?s3)
      else (key_permpress hw ?s3)\<lparr>debounce_started := False\<rparr>)"
    by (simp add: t_def hal_key_debounce_handler_def 1 2 Let_def)
  have tf: "key_status t = key_status ?s3" "key_sent t = key_sent ?s3" "pwr_key t = pwr_key s1" "pwr_irq t = pwr_irq s1"
    "gpio_key t = gpio_key s2" "gpio_irq t = gpio_irq s2" "key_assert t = key_assert s"
    "debounce_timer t = debounce_timer s" "key_detected_callback t = key_detected_callback s"
    by (simp_all add: t hal_key_debounce_timer_restart_def permpress_fields sf gf p1)
  have code: "code_down (key_status t) = code" using u(3) tf(1) by simp
  show "gpio_part cfg t" using g(2) gpio_cong(1) [OF tf(5,6)] by simp
  show "gpio_all t = gpio_all s" using g(3) gpio_cong(2) [OF tf(5,6)] gpio_cong(2) [OF p1(1,2)] by simp
  show "pwr_irq t = (\<not> pwr_busy (pwr_key t))" using p(2) tf by simp
  show "key_assert t = key_assert s \<and> debounce_timer t = debounce_timer s \<and> key_detected_callback t"
    using tf cb by simp
  show "timer_active t \<longleftrightarrow> pwr_busy (pwr_key t) \<or> pB t \<union> pD t \<union> pW t \<noteq> {} \<or>
      event (key_status t) \<noteq> HAL_KEY_EVENT_NONE"
    unfolding gpio_busy_pins [symmetric] tf
    by (simp add: t hal_key_debounce_timer_restart_def permpress_fields sf gf p1)
  show "click_ok (key_status t)" "run_event (event (key_status t))" using u tf by simp_all
  show "bit (code_down (key_status t)) k \<longleftrightarrow>
      k = 0 \<and> pwr_down (pwr_key t) \<or> (\<exists>p \<in> pW t. bit (pin_code cfg p) k)"
    unfolding code g(4) p(3) unfolding tf ..
  show "edges k (key_sent t) =
      (if bit (code_down (key_status t)) k \<and> \<not> bit (code_down (key_status s)) k then [True] else []) @
      (if \<not> bit (code_down (key_status t)) k \<and> bit (code_down (key_status s)) k then [False] else []) @
      edges k (key_sent s)" if "k < 32"
    unfolding code using key_update_edges [OF K2(1) _ that, of hw code] cb by (simp add: tf gf p1)
  show "hal_pwrkey_pressed hw \<and> (pwr_down (pwr_key s) \<or>
      pwr_debounce (pwr_key s) \<and> KEY_DEBOUNCE_INTERVAL hw \<le> hw_time hw - pwr_time (pwr_key s))"
    if "pwr_down (pwr_key t)" using p(4) that by (simp add: tf)
  show "pin_pressed cfg hw p \<and> (p \<in> pW s \<or>
      p \<in> pB s \<and> KEY_DEBOUNCE_INTERVAL hw \<le> hw_time hw - time_debounce (gpio_key s))" if "p \<in> pW t"
    using g(5) that unfolding p1 tf by blast
  show "\<exists>u. key_status u = key_status s \<and> key_sent u = key_sent s \<and> key_detected_callback u \<and>
      key_status t = key_status (key_update hw (code_down (key_status t)) u) \<and>
      key_sent t = key_sent (key_update hw (code_down (key_status t)) u)"
    unfolding code by (rule exI [of _ s2]) (use cb in \<open>simp add: gf p1 tf\<close>)
qed

section \<open>The invariant\<close>

definition boot_event :: "HAL_KEY_EVENT_T \<Rightarrow> bool" where
  "boot_event e \<longleftrightarrow> e \<in> {HAL_KEY_EVENT_NONE, HAL_KEY_EVENT_INITDOWN, HAL_KEY_EVENT_INITLONGPRESS,
     HAL_KEY_EVENT_INITLONGLONGPRESS}"

text \<open>
  After boot every configured key is watched: its interrupt is enabled, or it is being scanned and
  the timer runs.
\<close>

definition debounce_inv :: "gpio_cfg \<Rightarrow> hal_key \<Rightarrow> bool" where
  "debounce_inv cfg s \<longleftrightarrow>
     gpio_all s = cfg_pins cfg \<and> pwr_irq s = (\<not> pwr_busy (pwr_key s)) \<and>
     (pwr_busy (pwr_key s) \<or> pB s \<union> pD s \<union> pW s \<noteq> {} \<or> event (key_status s) \<noteq> HAL_KEY_EVENT_NONE \<longrightarrow> timer_active s) \<and>
     run_event (event (key_status s)) \<and> click_ok (key_status s) \<and>
     (pwr_down (pwr_key s) \<longrightarrow> bit (code_down (key_status s)) 0) \<and>
     (\<forall>p \<in> pW s. \<forall>k. bit (pin_code cfg p) k \<longrightarrow> bit (code_down (key_status s)) k)"

definition boot_inv :: "hal_key \<Rightarrow> bool" where
  "boot_inv s \<longleftrightarrow>
     gpio_all s = {} \<and> \<not> pwr_irq s \<and> timer_active s \<and> pwr_busy (pwr_key s) \<and>
     code_down (key_status s) = 0 \<and> boot_event (event (key_status s))"

definition key_inv :: "gpio_cfg \<Rightarrow> hal_key \<Rightarrow> bool" where
  "key_inv cfg s \<longleftrightarrow>
     \<not> key_assert s \<and> gpio_part cfg s \<and> key_detected_callback s \<and>
     (case debounce_timer s of
        None \<Rightarrow> False
      | Some Debounce_Handler \<Rightarrow> debounce_inv cfg s
      | Some Boot_Handler \<Rightarrow> boot_inv s)"

fun alternating :: "bool list \<Rightarrow> bool" where
  "alternating [] = True"
| "alternating [d] = d"
| "alternating (d # e # ds) = (d \<noteq> e \<and> alternating (e # ds))"

definition log_ok :: "hal_key \<Rightarrow> bool" where
  "log_ok s \<longleftrightarrow> (\<forall>k < 32. alternating (edges k (key_sent s)) \<and>
     (bit (code_down (key_status s)) k \<longleftrightarrow> edges k (key_sent s) \<noteq> [] \<and> hd (edges k (key_sent s))))"

lemma enable_allint:
  "hal_gpiokey_enable_allint cfg s = s\<lparr>gpio_irq := gpio_irq s \<union> cfg_pins cfg\<rparr>"
proof (induction cfg arbitrary: s)
  case Nil
  then show ?case by (simp add: hal_gpiokey_enable_allint_def cfg_pins_def)
next
  case (Cons c cfg)
  have "cfg_pins (c # cfg) = (if key_code c = HAL_KEY_CODE_NONE then {} else {key_pin c}) \<union> cfg_pins cfg"
    by (auto simp: cfg_pins_def)
  then show ?case
    using Cons.IH by (simp add: hal_gpiokey_enable_allint_def hal_gpiokey_enable_irq_def)
qed

lemma alternating_next:
  assumes "alternating es" and "b \<longleftrightarrow> es \<noteq> [] \<and> hd es"
    and "es' = (if b' \<and> \<not> b then [True] else []) @ (if \<not> b' \<and> b then [False] else []) @ es"
  shows "alternating es'" and "b' \<longleftrightarrow> es' \<noteq> [] \<and> hd es'"
  using assms by (cases es; auto)+

lemma pwr_irq_step:
  fixes hw
  assumes "key_inv cfg s" and "pwr_irq s"
  defines "t \<equiv> hal_pwrkey_handle_irq_state True hw s"
  shows "key_inv cfg t" and "key_status t = key_status s" and "key_sent t = key_sent s"
proof -
  have d: "debounce_timer s = Some Debounce_Handler"
    using assms(1,2) by (auto simp: key_inv_def boot_inv_def split: option.splits key_handler.splits)
  have f: "gpio_key t = gpio_key s" "gpio_irq t = gpio_irq s" "key_assert t = key_assert s"
    "debounce_timer t = debounce_timer s" "key_detected_callback t = key_detected_callback s"
    "timer_active t" "\<not> pwr_irq t" "pwr_busy (pwr_key t)" "\<not> pwr_down (pwr_key t)"
    "key_status t = key_status s" "key_sent t = key_sent s"
    using assms(1,2) d
    by (auto simp: t_def hal_pwrkey_handle_irq_state_def hal_pwrkey_disable_int_def Let_def pwr_busy_def pwr_down_def
        hal_key_debounce_timer_restart_def key_inv_def debounce_inv_def)
  then show "key_status t = key_status s" "key_sent t = key_sent s" by simp_all
  show "key_inv cfg t"
    using assms(1) d f gpio_cong [OF f(1,2)] by (simp add: key_inv_def debounce_inv_def)
qed

lemma gpio_irq_step:
  fixes hw
  assumes C: "cfg_ok cfg" and "key_inv cfg s" and "pin \<in> gpio_irq s"
  defines "t \<equiv> hal_gpiokey_irqhandler cfg hw pin s"
  shows "key_inv cfg t" and "key_status t = key_status s" and "key_sent t = key_sent s"
proof -
  have d: "debounce_timer s = Some Debounce_Handler" and P: "gpio_part cfg s"
    using assms(2,3) by (auto simp: key_inv_def boot_inv_def gpio_all_def split: option.splits key_handler.splits)
  have pin: "pin \<in> cfg_pins cfg" using assms(3) P by (auto simp: gpio_part_def)
  obtain c where c: "hal_gpiokey_find_index cfg pin = Some c" using pin by (auto elim: find_index_pin)
  note b = cfg_pins_bound [OF C pin]
  have f: "pwr_key t = pwr_key s" "pwr_irq t = pwr_irq s" "key_assert t = key_assert s"
    "debounce_timer t = debounce_timer s" "key_detected_callback t = key_detected_callback s"
    "timer_active t" "key_status t = key_status s" "key_sent t = key_sent s" "gpio_irq t = gpio_irq s - {pin}"
    by (auto simp: t_def hal_gpiokey_irqhandler_def hal_gpiokey_disable_irq_def c Let_def
        hal_key_debounce_timer_restart_def)
  have w: "wf_map (pin_debounce (gpio_key s))" "wf_map (pin_dither (gpio_key s))" using P by (simp_all add: gpio_part_def)
  have g: "wf_map (pin_debounce (gpio_key t))" "wf_map (pin_dither (gpio_key t))"
    "pin_down (gpio_key t) = pin_down (gpio_key s)"
    "pB t = insert pin (pB s) \<and> pD t = pD s \<or> pB t = pB s \<and> pD t = insert pin (pD s)"
    using w b by (auto simp: t_def hal_gpiokey_irqhandler_def hal_gpiokey_disable_irq_def c Let_def
        hal_key_debounce_timer_restart_def map_simps)
  have "gpio_part cfg t" "gpio_all t = gpio_all s"
    using P assms(3) g unfolding gpio_part_def gpio_all_def f(9) g(3) by auto
  then show "key_inv cfg t" using assms(2) d by (simp add: key_inv_def debounce_inv_def f g(3))
  show "key_status t = key_status s" "key_sent t = key_sent s" by (fact f)+
qed

lemma debounce_step:
  assumes C: "cfg_ok cfg" and I: "key_inv cfg s" and d: "debounce_timer s = Some Debounce_Handler" and L: "log_ok s"
  shows "key_inv cfg (hal_key_debounce_handler cfg hw s)" and "log_ok (hal_key_debounce_handler cfg hw s)"
proof -
  let ?t = "hal_key_debounce_handler cfg hw s"
  have P: "gpio_part cfg s" and q: "pwr_irq s = (\<not> pwr_busy (pwr_key s))" and K: "click_ok (key_status s)"
    "run_event (event (key_status s))" and cb: "key_detected_callback s"
    using I d by (simp_all add: key_inv_def debounce_inv_def)
  note f = handler_fields [OF C P q K cb, where hw = hw]
  show "key_inv cfg ?t"
    using I d f(1-7) unfolding key_inv_def debounce_inv_def by (simp add: f(8)) blast
  show "log_ok ?t"
    unfolding log_ok_def
  proof (intro allI impI)
    fix k :: nat
    assume k: "k < 32"
    have "alternating (edges k (key_sent s))"
      "bit (code_down (key_status s)) k \<longleftrightarrow> edges k (key_sent s) \<noteq> [] \<and> hd (edges k (key_sent s))"
      using L k by (simp_all add: log_ok_def)
    from alternating_next [OF this f(9) [OF k]]
    show "alternating (edges k (key_sent ?t)) \<and> 
        (bit (code_down (key_status ?t)) k \<longleftrightarrow> edges k (key_sent ?t) \<noteq> [] \<and> hd (edges k (key_sent ?t)))"
      by blast
  qed
qed

section \<open>Boot\<close>

lemma boot_pwr_fields:
  "gpio_key (boot_pwr hw s) = gpio_key s" "gpio_irq (boot_pwr hw s) = gpio_irq s" "pwr_irq (boot_pwr hw s) = pwr_irq s"
  "key_assert (boot_pwr hw s) = key_assert s" "debounce_timer (boot_pwr hw s) = debounce_timer s"
  "key_detected_callback (boot_pwr hw s) = key_detected_callback s" "key_sent (boot_pwr hw s) = key_sent s"
  "timer_active (boot_pwr hw s) = timer_active s"
  "code_down (key_status (boot_pwr hw s)) = code_down (key_status s)"
  "event (key_status (boot_pwr hw s)) = event (key_status s)"
  by (simp_all add: boot_pwr_def Let_def upd_status_def)

lemma boot_events_frame: "status_frame s (boot_events hw s)"
  by (simp add: boot_events_def Let_def)

lemma boot_events_status:
  "code_down (key_status (boot_events hw s)) = code_down (key_status s)"
  "boot_event (event (key_status s)) \<Longrightarrow> boot_event (event (key_status (boot_events hw s)))"
  "edges k (key_sent (boot_events hw s)) = edges k (key_sent s)"
  by (auto simp: boot_events_def Let_def boot_event_def edges_send)

lemma boot_finish_fields:
  "gpio_key (boot_finish cfg s) = gpio_key s" "gpio_irq (boot_finish cfg s) = gpio_irq s \<union> cfg_pins cfg"
  "pwr_irq (boot_finish cfg s)" "pwr_key (boot_finish cfg s) = zero_pwrkey" "key_assert (boot_finish cfg s) = key_assert s"
  "debounce_timer (boot_finish cfg s) = Some Debounce_Handler"
  "key_detected_callback (boot_finish cfg s) = key_detected_callback s" "timer_active (boot_finish cfg s) = timer_active s"
  "key_status (boot_finish cfg s) = zero_key_status" "edges k (key_sent (boot_finish cfg s)) = edges k (key_sent s)"
  by (simp_all add: boot_finish_def hal_key_enable_allint_def enable_allint hal_pwrkey_enable_int_def hal_pwrkey_reset_def
      Let_def edges_send) (simp_all add: send_key_event_def)

lemma gpio_empty:
  assumes "gpio_all s = {}"
  shows "gpio_irq s = {}" "pB s = {}" "pD s = {}" "pW s = {}"
  using assms by (simp_all add: gpio_all_def)

lemma boot_step:
  assumes I: "key_inv cfg s" and d: "debounce_timer s = Some Boot_Handler" and L: "log_ok s"
  shows "key_inv cfg (hal_key_boot_handler cfg hw s)" and "log_ok (hal_key_boot_handler cfg hw s)"
proof -
  let ?a = "boot_pwr hw (s\<lparr>timer_active := False\<rparr>)"
  have B: "boot_inv s" and P: "gpio_part cfg s" and A: "\<not> key_assert s" "key_detected_callback s"
    using I d by (simp_all add: key_inv_def)
  note z = gpio_empty [OF B [unfolded boot_inv_def, THEN conjunct1]]
  have "key_inv cfg (hal_key_boot_handler cfg hw s) \<and> log_ok (hal_key_boot_handler cfg hw s)"
  proof (cases "pwr_busy (pwr_key ?a)")
    case True
    let ?b = "if pwr_pressed (pwr_key ?a) then boot_events hw ?a else ?a"
    have t: "hal_key_boot_handler cfg hw s = ?b\<lparr>timer_active := True\<rparr>"
      using True status_frame_fields(7) [OF boot_events_frame [of ?a hw]]
      by (simp add: hal_key_boot_handler_def Let_def hal_key_debounce_timer_restart_def boot_pwr_fields)
    have f: "status_frame ?a ?b" by (simp add: boot_events_frame)
    have e: "code_down (key_status ?b) = 0" "boot_event (event (key_status ?b))"
      "edges k (key_sent ?b) = edges k (key_sent s)" for k
      using B by (simp_all add: boot_inv_def boot_events_status boot_pwr_fields)
    have g: "gpio_part cfg (?b\<lparr>timer_active := True\<rparr>) = gpio_part cfg s" "gpio_all (?b\<lparr>timer_active := True\<rparr>) = gpio_all s"
      by (rule gpio_cong; simp add: status_frame_fields [OF f] boot_pwr_fields del: if_split)+
    have "key_inv cfg (?b\<lparr>timer_active := True\<rparr>)"
      using P A d B True e g unfolding key_inv_def boot_inv_def
      by (simp add: status_frame_fields [OF f] boot_pwr_fields del: if_split)
    moreover have "log_ok (?b\<lparr>timer_active := True\<rparr>)"
      using L B e by (simp add: log_ok_def boot_inv_def del: if_split)
    ultimately show ?thesis unfolding t by blast
  next
    case False
    then have t: "hal_key_boot_handler cfg hw s = boot_finish cfg ?a" by (simp add: hal_key_boot_handler_def Let_def)
    have g: "gpio_part cfg (boot_finish cfg ?a)" "gpio_all (boot_finish cfg ?a) = cfg_pins cfg"
      using P z by (auto simp: gpio_part_def gpio_all_def boot_finish_fields boot_pwr_fields)
    have "key_inv cfg (boot_finish cfg ?a)"
      using g A z unfolding key_inv_def debounce_inv_def
      by (simp add: boot_finish_fields boot_pwr_fields zero_pwrkey_def pwr_busy_def pwr_down_def zero_key_status_def
          run_event_def click_ok_def MAX_KEY_CLICK_COUNT_def)
    moreover have "log_ok (boot_finish cfg ?a)"
      using L B by (simp add: log_ok_def boot_inv_def boot_finish_fields boot_pwr_fields zero_key_status_def)
    ultimately show ?thesis unfolding t by blast
  qed
  then show "key_inv cfg (hal_key_boot_handler cfg hw s)" "log_ok (hal_key_boot_handler cfg hw s)" by blast+
qed

section \<open>Runs\<close>

text \<open>
  The states after a successful opening with a callback, in any number of steps. A run has one opening from the initial
  statics: closing and opening again are not steps of it.
\<close>

definition key_run :: "gpio_cfg \<Rightarrow> hal_key \<Rightarrow> bool" where
  "key_run cfg s \<longleftrightarrow> (\<exists>check startup hw s0. hal_key_open cfg check startup hw True hal_key_init = (0, s0) \<and>
     (key_step cfg)\<^sup>*\<^sup>* s0 s)"

lemma open_inv:
  assumes "hal_key_open cfg check startup hw True hal_key_init = (0, s)"
  shows "key_inv cfg s" and "log_ok s"
proof -
  have "pins (pin_debounce zero_gpiokey) = {}" "pins (pin_dither zero_gpiokey) = {}" "pins (pin_down zero_gpiokey) = {}"
    by (simp_all add: zero_gpiokey_def map_simps)
  with assms show "key_inv cfg s" "log_ok s"
    by (auto simp: hal_key_open_def hal_key_init_def hal_gpiokey_open_def hal_pwrkey_open_def hal_gpiokey_reset_def
        hal_pwrkey_reset_def hal_key_enable_allint_def enable_allint hal_pwrkey_enable_int_def Let_def
        hal_pwrkey_handle_irq_state_def hal_pwrkey_disable_int_def hal_key_debounce_timer_restart_def zero_pwrkey_def
        zero_key_status_def key_inv_def debounce_inv_def boot_inv_def gpio_part_def gpio_all_def pwr_busy_def pwr_down_def
        run_event_def boot_event_def click_ok_def MAX_KEY_CLICK_COUNT_def log_ok_def edges_def zero_gpiokey_def
        split: if_splits)
qed

lemma key_step_inv:
  assumes "key_step cfg s t" and C: "cfg_ok cfg" and I: "key_inv cfg s" and L: "log_ok s"
  shows "key_inv cfg t \<and> log_ok t"
  using assms(1)
proof cases
  case (pwr hw)
  then show ?thesis using pwr_irq_step [OF I pwr(2), of hw] L by (simp add: log_ok_def)
next
  case (gpio pin hw)
  then show ?thesis using gpio_irq_step [OF C I gpio(2), of hw] L by (simp add: log_ok_def)
next
  case (debounce hw)
  then show ?thesis using debounce_step [OF C I debounce(3) L] by blast
next
  case (boot hw)
  then show ?thesis using boot_step [OF I boot(3) L] by blast
qed

lemma key_run_inv:
  assumes "cfg_ok cfg" and "key_run cfg s"
  shows "key_inv cfg s" and "log_ok s"
proof -
  obtain check startup hw s0 where o: "hal_key_open cfg check startup hw True hal_key_init = (0, s0)"
    and r: "(key_step cfg)\<^sup>*\<^sup>* s0 s" using assms(2) by (auto simp: key_run_def)
  from r have "key_inv cfg s \<and> log_ok s"
    by (induction rule: rtranclp_induct) (use open_inv [OF o] key_step_inv [OF _ assms(1)] in blast)+
  then show "key_inv cfg s" "log_ok s" by blast+
qed

end
