(* ===== verification/HalKeyClick.thy ===== *)
theory HalKeyClick
  imports HalKeySafety
begin

text \<open>
  What \<open>hal_key_debounce_handler\<close> promises for one key, as an automaton over the debounced samples of that
  key: idle, held, waiting for a further click, long press. The update of the status refines it: the
  same events, in the same order.
\<close>

section \<open>The automaton of one key\<close>

text \<open>
  The states of a key, with the clicks that are counted but not yet reported, the time of the last
  press (or of the last release while waiting), and the counter of the repeat event.
\<close>

datatype press =
    Idle nat
  | Held nat u32
  | Waiting nat u32
  | Long nat u32 u8
  | Long_Long nat u32 u8

fun click_event :: "nat \<Rightarrow> HAL_KEY_EVENT_T" where
  "click_event n =
     (if n \<le> 1 then HAL_KEY_EVENT_CLICK else if n = 2 then HAL_KEY_EVENT_DOUBLECLICK
      else if n = 3 then HAL_KEY_EVENT_TRIPLECLICK else if n = 4 then HAL_KEY_EVENT_ULTRACLICK
      else HAL_KEY_EVENT_RAMPAGECLICK)"

text \<open>The repeat counter after one more sample, and whether the event is due.\<close>

definition repeat_due :: "key_hw \<Rightarrow> u8 \<Rightarrow> bool" where
  "repeat_due hw r \<longleftrightarrow> ucast (r + 1) = KEY_LONGPRESS_REPEAT_THRESHOLD hw div KEY_CHECKER_INTERVAL hw"

fun press_step :: "key_hw \<Rightarrow> bool \<Rightarrow> press \<Rightarrow> HAL_KEY_EVENT_T list \<times> press" where
  "press_step hw True (Idle m) = ([HAL_KEY_EVENT_DOWN, HAL_KEY_EVENT_FIRST_DOWN], Held m (hw_time hw))"
| "press_step hw False (Idle m) = ([], Idle m)"
| "press_step hw True (Held m t) =
     (if KEY_LONGPRESS_THRESHOLD hw \<le> hw_time hw - t then ([HAL_KEY_EVENT_LONGPRESS], Long m t 0)
      else ([], Held m t))"
| "press_step hw False (Held m t) =
     (if m < 4 then ([HAL_KEY_EVENT_UP], Waiting (m + 1) (hw_time hw))
      else ([HAL_KEY_EVENT_UP, click_event (m + 1)], Idle 0))"
| "press_step hw True (Waiting m t) =
     (if KEY_DOUBLECLICK_THRESHOLD hw \<le> hw_time hw - t
      then ([click_event m, HAL_KEY_EVENT_DOWN, HAL_KEY_EVENT_FIRST_DOWN], Held 0 (hw_time hw))
      else ([HAL_KEY_EVENT_DOWN, HAL_KEY_EVENT_CONTINUED_DOWN], Held m (hw_time hw)))"
| "press_step hw False (Waiting m t) =
     (if KEY_DOUBLECLICK_THRESHOLD hw \<le> hw_time hw - t then ([click_event m], Idle 0) else ([], Waiting m t))"
| "press_step hw True (Long m t r) =
     (let r' = (if repeat_due hw r then 0 else r + 1); es = (if repeat_due hw r then [HAL_KEY_EVENT_REPEAT] else [])
      in if KEY_LONGLONGPRESS_THRESHOLD hw \<le> hw_time hw - t
         then (es @ [HAL_KEY_EVENT_LONGLONGPRESS], Long_Long m t r') else (es, Long m t r'))"
| "press_step hw True (Long_Long m t r) =
     (if repeat_due hw r then ([HAL_KEY_EVENT_REPEAT], Long_Long m t 0) else ([], Long_Long m t (r + 1)))"
| "press_step hw False (Long m t r) = ([HAL_KEY_EVENT_UP, HAL_KEY_EVENT_UP_AFTER_LONGPRESS], Idle m)"
| "press_step hw False (Long_Long m t r) = ([HAL_KEY_EVENT_UP, HAL_KEY_EVENT_UP_AFTER_LONGPRESS], Idle m)"

text \<open>The events of a sequence of samples, in order.\<close>

fun press_run :: "(key_hw \<times> bool) list \<Rightarrow> press \<Rightarrow> HAL_KEY_EVENT_T list \<times> press" where
  "press_run [] p = ([], p)"
| "press_run ((hw, b) # xs) p =
     (let (es, p') = press_step hw b p; (es', p'') = press_run xs p' in (es @ es', p''))"

lemma press_run_append:
  "press_run (xs @ ys) p = (fst (press_run xs p) @ fst (press_run ys (snd (press_run xs p))),
     snd (press_run ys (snd (press_run xs p))))"
  by (induction xs arbitrary: p) (auto simp: case_prod_beta)

section \<open>Refinement\<close>

definition pending :: "u32 \<Rightarrow> nat \<Rightarrow> HAL_KEY_STATUS_T \<Rightarrow> bool" where
  "pending c m k \<longleftrightarrow> m \<le> 4 \<and> (if m = 0 then code_click k = 0 \<and> cnt_click k = 0
     else code_click k = c \<and> cnt_click k = of_nat (m - 1))"

fun press_abs :: "u32 \<Rightarrow> HAL_KEY_STATUS_T \<Rightarrow> press \<Rightarrow> bool" where
  "press_abs c k (Idle m) \<longleftrightarrow> event k = HAL_KEY_EVENT_NONE \<and> code_down k = 0 \<and> pending c m k"
| "press_abs c k (Held m t) \<longleftrightarrow>
     event k = HAL_KEY_EVENT_DOWN \<and> code_down k = c \<and> code_ready k = c \<and> time_updown k = t \<and> pending c m k"
| "press_abs c k (Waiting m t) \<longleftrightarrow>
     event k = HAL_KEY_EVENT_UP \<and> code_down k = 0 \<and> code_ready k = c \<and> time_click k = t \<and> 0 < m \<and> pending c m k"
| "press_abs c k (Long m t r) \<longleftrightarrow> event k = HAL_KEY_EVENT_LONGPRESS \<and> code_down k = c \<and> code_ready k = c \<and>
     time_updown k = t \<and> cnt_repeat k = r \<and> pending c m k"
| "press_abs c k (Long_Long m t r) \<longleftrightarrow> event k = HAL_KEY_EVENT_LONGLONGPRESS \<and> code_down k = c \<and> code_ready k = c \<and>
     time_updown k = t \<and> cnt_repeat k = r \<and> pending c m k"

definition thresholds_ok :: "key_hw \<Rightarrow> bool" where
  "thresholds_ok hw \<longleftrightarrow> 0 < KEY_DOUBLECLICK_THRESHOLD hw \<and> 0 < KEY_LONGPRESS_THRESHOLD hw"

lemma single_bit_loop:
  assumes "i < 32"
  shows "bit_loop f 0 (BIT i) s = f i s"
proof -
  have "[0..<32] = [0..<i] @ i # [Suc i..<32]"
    using assms upt_add_eq_append [of 0 i "32 - i"] upt_conv_Cons [of i 32] by (simp del: upt_Suc upt_rec_numeral)
  moreover have "filter (\<lambda>n. n = i) [0..<i] = []" "filter (\<lambda>n. n = i) [Suc i..<32] = []"
    by (simp_all add: filter_empty_conv del: upt_Suc upt_rec_numeral)
  ultimately show ?thesis using assms by (simp add: bit_loop_fold del: upt_Suc upt_rec_numeral)
qed

lemma empty_bit_loop: "bit_loop f 0 0 s = s"
  by (simp add: bit_loop_fold del: upt_Suc upt_rec_numeral)

lemma bit_code: "i < 32 \<Longrightarrow> BIT i \<noteq> 0" "NOT 0 AND x = (x :: u32)" "x AND NOT x = (0 :: u32)" "NOT x AND x = (0 :: u32)"
  by (auto simp: bit_eq_iff bit_simps)

lemma pending_event:
  "pending c m k \<Longrightarrow> 0 < m \<Longrightarrow> 8 + cnt_click k = event_num (click_event m)"
  by (auto simp: pending_def le_Suc_eq numeral_eq_Suc)

lemma pending_simps:
  "pending c m (k\<lparr>event := e\<rparr>) = pending c m k" "pending c m (k\<lparr>code_down := x\<rparr>) = pending c m k"
  "pending c m (k\<lparr>code_ready := x\<rparr>) = pending c m k" "pending c m (k\<lparr>time_updown := x\<rparr>) = pending c m k"
  "pending c m (k\<lparr>time_click := x\<rparr>) = pending c m k" "pending c m (k\<lparr>cnt_repeat := r\<rparr>) = pending c m k"
  "pending c 0 k \<longleftrightarrow> code_click k = 0 \<and> cnt_click k = 0"
  "pending c (Suc 0) k \<longleftrightarrow> code_click k = c \<and> cnt_click k = 0"
  by (simp_all add: pending_def)

lemma pending_Suc:
  "pending c m k \<Longrightarrow> 0 < m \<Longrightarrow> m < 4 \<Longrightarrow> pending c (Suc m) (k\<lparr>cnt_click := cnt_click k + 1\<rparr>)"
  "pending c m k \<Longrightarrow> 0 < m \<Longrightarrow> 9 + cnt_click k = event_num (click_event (Suc m))"
  by (auto simp: pending_def le_Suc_eq numeral_eq_Suc)

lemmas press_defs = key_update_parts upd1_def upd2_def upd3_def single_bit_loop empty_bit_loop key_up_edge_def
  key_down_edge_def key_up_def key_click_def key_longpress_def send_key_event_def upd_status_def in_longpress_def
  HAL_KEY_CODE_NONE_def MAX_KEY_CLICK_COUNT_def bit_code Let_def

definition refines :: "key_hw \<Rightarrow> nat \<Rightarrow> bool \<Rightarrow> press \<Rightarrow> hal_key \<Rightarrow> bool" where
  "refines hw i b p s \<longleftrightarrow>
     (let s' = key_update hw (if b then BIT i else 0) s; (es, p') = press_step hw b p
      in press_abs (BIT i) (key_status s') p' \<and> key_detected_callback s' \<and>
         key_sent s' = rev (map (\<lambda>e. (BIT i, event_num e)) es) @ key_sent s)"

lemma refines_idle:
  assumes "i < 32" "thresholds_ok hw" "key_detected_callback s" "press_abs (BIT i) (key_status s) (Idle m)"
  shows "refines hw i b (Idle m) s"
  using assms by (cases b) (auto simp: refines_def press_defs thresholds_ok_def pending_simps)


lemma refines_held:
  assumes "i < 32" "thresholds_ok hw" "key_detected_callback s" "press_abs (BIT i) (key_status s) (Held m t)"
  shows "refines hw i True (Held m t) s"
  using assms by (auto simp: refines_def press_defs thresholds_ok_def pending_simps)

lemma pending_count:
  assumes "pending c m k"
  shows "\<not> 4 \<le> cnt_click k" "0 < m \<Longrightarrow> 4 \<le> cnt_click k + 1 \<longleftrightarrow> m = 4"
proof -
  have "m = 0 \<or> m = 1 \<or> m = 2 \<or> m = 3 \<or> m = 4" using assms by (auto simp: pending_def)
  then show "\<not> 4 \<le> cnt_click k" "0 < m \<Longrightarrow> 4 \<le> cnt_click k + 1 \<longleftrightarrow> m = 4"
    using assms by (auto simp: pending_def word_le_nat_alt)
qed

lemma refines_waiting:
  assumes "i < 32" "thresholds_ok hw" "key_detected_callback s" "press_abs (BIT i) (key_status s) (Waiting m t)"
  shows "refines hw i b (Waiting m t) s"
proof -
  have P: "pending (BIT i) m (key_status s)" "0 < m" using assms by auto
  have c: "code_click (key_status s) = BIT i" using P by (simp add: pending_def)
  have e: "event (key_status s) = HAL_KEY_EVENT_UP" "code_down (key_status s) = 0" "code_ready (key_status s) = BIT i"
    "time_click (key_status s) = t" using assms(4) by simp_all
  have "KEY_LONGPRESS_THRESHOLD hw \<noteq> 0" using assms(2) by (auto simp: thresholds_ok_def)
  note f = assms(1,3) c e this pending_event [OF P] pending_count(1) [OF P(1)]
  show ?thesis
  proof (cases "KEY_DOUBLECLICK_THRESHOLD hw \<le> hw_time hw - t")
    case True
    then show ?thesis
      by (cases b) (simp_all add: f refines_def press_defs pending_simps del: click_event.simps cong: let_weak_cong)
  next
    case False
    then show ?thesis
      using P by (cases b) (simp_all add: f refines_def press_defs pending_simps del: click_event.simps cong: let_weak_cong)
  qed
qed

lemma refines_long:
  assumes "i < 32" "thresholds_ok hw" "key_detected_callback s" "press_abs (BIT i) (key_status s) (Long m t r)"
  shows "refines hw i b (Long m t r) s"
  using assms
  by (cases b) (auto simp: refines_def press_defs thresholds_ok_def pending_simps repeat_due_def)

lemma refines_long_long:
  assumes "i < 32" "thresholds_ok hw" "key_detected_callback s" "press_abs (BIT i) (key_status s) (Long_Long m t r)"
  shows "refines hw i b (Long_Long m t r) s"
  using assms
  by (cases b) (auto simp: refines_def press_defs thresholds_ok_def pending_simps repeat_due_def)


lemma refines_release:
  assumes "i < 32" "thresholds_ok hw" "key_detected_callback s" "press_abs (BIT i) (key_status s) (Held m t)"
  shows "refines hw i False (Held m t) s"
proof -
  have P: "pending (BIT i) m (key_status s)" using assms by simp
  have e: "event (key_status s) = HAL_KEY_EVENT_DOWN" "code_down (key_status s) = BIT i" "code_ready (key_status s) = BIT i"
    using assms(4) by simp_all
  have "KEY_DOUBLECLICK_THRESHOLD hw \<noteq> 0" using assms(2) by (auto simp: thresholds_ok_def)
  note f = assms(1,3) e this
  show ?thesis
  proof (cases "m = 0")
    case True
    then show ?thesis
      using P by (simp add: f refines_def press_defs pending_simps del: click_event.simps cong: let_weak_cong)
  next
    case False
    then have c: "code_click (key_status s) = BIT i" using P by (simp add: pending_def)
    show ?thesis
      using P pending_count(2) [OF P] pending_Suc [OF P] False
      by (simp add: f c refines_def press_defs pending_simps del: click_event.simps cong: let_weak_cong)
         (auto simp: pending_def)
  qed
qed


lemma refines_step:
  assumes "i < 32" "thresholds_ok hw" "key_detected_callback s" "press_abs (BIT i) (key_status s) p"
  shows "refines hw i b p s"
proof (cases p)
  case (Held m t)
  note r = refines_held [OF assms(1-3)] refines_release [OF assms(1-3)]
  show ?thesis using r [of m t] assms(4) unfolding Held by (cases b) (simp_all only:)
next
  case (Idle m)
  then show ?thesis using refines_idle assms by metis
next
  case (Waiting m t)
  then show ?thesis using refines_waiting assms by metis
next
  case (Long m t r)
  then show ?thesis using refines_long assms by metis
next
  case (Long_Long m t r)
  then show ?thesis using refines_long_long assms by metis
qed

text \<open>The updates of a sequence of samples of one key.\<close>

definition key_samples :: "nat \<Rightarrow> (key_hw \<times> bool) list \<Rightarrow> hal_key \<Rightarrow> hal_key" where
  "key_samples i xs s = fold (\<lambda>(hw, b). key_update hw (if b then BIT i else 0)) xs s"

lemma refines_run:
  assumes "i < 32" "list_all (\<lambda>(hw, b). thresholds_ok hw) xs" "key_detected_callback s"
    "press_abs (BIT i) (key_status s) p"
  shows "press_abs (BIT i) (key_status (key_samples i xs s)) (snd (press_run xs p)) \<and>
    key_sent (key_samples i xs s) = rev (map (\<lambda>e. (BIT i, event_num e)) (fst (press_run xs p))) @ key_sent s"
  using assms(2-4)
proof (induction xs arbitrary: s p)
  case Nil
  then show ?case by (simp add: key_samples_def)
next
  case (Cons x xs)
  obtain hw b where x: "x = (hw, b)" by fastforce
  obtain es p' where st: "press_step hw b p = (es, p')" by fastforce
  let ?s = "key_update hw (if b then BIT i else 0) s"
  have r: "press_abs (BIT i) (key_status ?s) p'" "key_detected_callback ?s"
    "key_sent ?s = rev (map (\<lambda>e. (BIT i, event_num e)) es) @ key_sent s"
    using refines_step [OF assms(1) _ Cons.prems(2,3), of hw b] Cons.prems(1)
    by (simp_all add: refines_def st x Let_def del: send_simps)
  have "key_samples i (x # xs) s = key_samples i xs ?s" by (simp add: key_samples_def x)
  then show ?case using Cons.IH [OF _ r(2,1)] Cons.prems(1) r(3)
    by (simp add: x st case_prod_beta del: if_split)
qed


section \<open>Quick presses\<close>

text \<open>
  A burst: each sample comes before the long press while the key is held, and before the limit of a
  further click while it is not. The result counts the releases and gives the last edge.
\<close>

fun burst :: "nat \<Rightarrow> u32 \<Rightarrow> bool \<Rightarrow> (key_hw \<times> bool) list \<Rightarrow> (nat \<times> u32 \<times> bool) option" where
  "burst n t d [] = Some (n, t, d)"
| "burst n t True ((hw, True) # xs) =
     (if KEY_LONGPRESS_THRESHOLD hw \<le> hw_time hw - t then None else burst n t True xs)"
| "burst n t True ((hw, False) # xs) = burst (n + 1) (hw_time hw) False xs"
| "burst n t False ((hw, b) # xs) =
     (if KEY_DOUBLECLICK_THRESHOLD hw \<le> hw_time hw - t then None
      else burst n (if b then hw_time hw else t) b xs)"

definition is_click :: "u32 \<times> u8 \<Rightarrow> bool" where
  "is_click x \<longleftrightarrow> event_num HAL_KEY_EVENT_CLICK \<le> snd x \<and> snd x \<le> event_num HAL_KEY_EVENT_RAMPAGECLICK"

lemma burst_mono: "burst n t d xs = Some (n', t', d') \<Longrightarrow> n \<le> n'"
  by (induction n t d xs rule: burst.induct) (auto split: if_splits)

lemma burst_run:
  assumes "burst n t d xs = Some (n', t', False)" "n' \<le> 4"
  shows "snd (press_run xs (if d then Held n t else Waiting n t)) = Waiting n' t'"
    and "filter is_click (map (\<lambda>e. (c, event_num e)) (fst (press_run xs (if d then Held n t else Waiting n t)))) = []"
  using assms
  by (induction n t d xs rule: burst.induct)
    (auto simp: case_prod_beta is_click_def word_le_nat_alt split: if_splits dest: burst_mono)

text \<open>The count a burst starts with is added to the clicks of the burst.\<close>

lemma burst_shift:
  "burst (m + n) t d xs = map_option (\<lambda>(n', t', d'). (m + n', t', d')) (burst n t d xs)"
  by (induction n t d xs rule: burst.induct) (simp_all add: add.assoc)

lemma click_is_click: "n \<le> 4 \<Longrightarrow> is_click (c, event_num (click_event n))"
  by (auto simp: is_click_def word_le_nat_alt)

lemma non_clicks: "\<not> is_click (c, 1)" "\<not> is_click (c, 2)" "\<not> is_click (c, 3)" "\<not> is_click (c, 4)" "\<not> is_click (c, 5)"
  "\<not> is_click (c, 6)" "\<not> is_click (c, 7)" "\<not> is_click (c, 13)"
  by (simp_all add: is_click_def word_le_nat_alt)

section \<open>A long press\<close>

text \<open>While the key is held the count stays, and no click is reported.\<close>

lemma long_run:
  "list_all snd xs \<Longrightarrow> p \<in> {Long m t r, Long_Long m t r} \<Longrightarrow>
     (\<exists>r. snd (press_run xs p) \<in> {Long m t r, Long_Long m t r}) \<and>
     filter is_click (map (\<lambda>e. (c, event_num e)) (fst (press_run xs p))) = []"
proof (induction xs arbitrary: p r)
  case (Cons x xs)
  obtain hw where x: "x = (hw, True)" using Cons.prems(1) by (cases x) simp
  obtain r' where s: "snd (press_step hw True p) \<in> {Long m t r', Long_Long m t r'}"
    using Cons.prems(2) by (cases "repeat_due hw r"; cases "KEY_LONGLONGPRESS_THRESHOLD hw \<le> hw_time hw - t"; auto)
  have e: "filter is_click (map (\<lambda>e. (c, event_num e)) (fst (press_step hw True p))) = []"
    using Cons.prems(2) by (auto simp: Let_def non_clicks)
  show ?case using Cons.IH [OF _ s] Cons.prems(1) e by (simp add: x case_prod_beta)
qed auto

lemma held_long_run:
  "list_all snd xs \<Longrightarrow> \<exists>(hw, b)\<in>set xs. KEY_LONGPRESS_THRESHOLD hw \<le> hw_time hw - t \<Longrightarrow>
     (\<exists>r. snd (press_run xs (Held m t)) \<in> {Long m t r, Long_Long m t r}) \<and>
     filter is_click (map (\<lambda>e. (c, event_num e)) (fst (press_run xs (Held m t)))) = []"
proof (induction xs)
  case (Cons x xs)
  obtain hw where x: "x = (hw, True)" using Cons.prems(1) by (cases x) simp
  show ?case
  proof (cases "KEY_LONGPRESS_THRESHOLD hw \<le> hw_time hw - t")
    case True
    then show ?thesis
      using long_run [of xs "Long m t 0" m t 0 c] Cons.prems(1) by (simp add: x case_prod_beta non_clicks)
  next
    case False
    then show ?thesis using Cons.IH Cons.prems by (simp add: x case_prod_beta)
  qed
qed simp

lemma idle_run: "list_all (\<lambda>(hw, b). \<not> b) xs \<Longrightarrow> press_run xs (Idle m) = ([], Idle m)"
  by (induction xs) auto

end
