(* ===== verification/HalKeyProps.thy ===== *)
theory HalKeyProps
  imports HalKeyRun HalKeyClick
begin

text \<open>
  The properties of the keys, with a run of the power key as witness: nothing is lost and no
  assertion fails, the callback sees alternating down and up calls, a press is reported only after
  the debounce interval, the order of the boot events, and two sequences that show surprising events.
\<close>

section \<open>A run of the power key\<close>

text \<open>
  Samples of time in milliseconds and state of the power key: an enabled interrupt sees a press,
  otherwise a running timer expires.
\<close>

definition sample_hw :: "nat \<Rightarrow> bool \<Rightarrow> key_hw" where
  "sample_hw ms pressed = \<lparr>hw_time = of_nat (16 * ms), hw_timer = sys_timer_init, hal_pwrkey_pressed = pressed,
     hal_gpio_pin_get_val = (\<lambda>_. 1)\<rparr>"

definition play_sample :: "gpio_cfg \<Rightarrow> nat \<times> bool \<Rightarrow> hal_key \<Rightarrow> hal_key" where
  "play_sample cfg x s =
     (let hw = sample_hw (fst x) (snd x) in
      if pwr_irq s \<and> snd x then hal_pwrkey_handle_irq_state True hw s
      else if timer_active s \<and> debounce_timer s = Some Debounce_Handler then hal_key_debounce_handler cfg hw s
      else if timer_active s \<and> debounce_timer s = Some Boot_Handler then hal_key_boot_handler cfg hw s
      else s)"

definition play :: "gpio_cfg \<Rightarrow> (nat \<times> bool) list \<Rightarrow> hal_key \<Rightarrow> hal_key" where
  "play cfg xs s = fold (play_sample cfg) xs s"

lemma play_steps: "(key_step cfg)\<^sup>*\<^sup>* s (play cfg xs s)"
proof (induction xs arbitrary: s)
  case Nil
  then show ?case by (simp add: play_def)
next
  case (Cons x xs)
  have "key_step cfg s (play_sample cfg x s) \<or> play_sample cfg x s = s"
    by (auto simp: play_sample_def Let_def intro: key_step.intros)
  then show ?case using Cons.IH [of "play_sample cfg x s"] by (auto simp: play_def intro: converse_rtranclp_into_rtranclp)
qed

definition demo_open :: "bool \<Rightarrow> hal_key" where
  "demo_open check = snd (hal_key_open [] check (replicate 10 True) (sample_hw 250 True) True hal_key_init)"

lemma demo_opened:
  "hal_key_open [] check (replicate 10 True) (sample_hw 250 True) True hal_key_init = (0, demo_open check)"
  by (simp add: demo_open_def hal_key_open_def Let_def list_all_iff)

lemma demo_run: "key_run [] (play [] xs (demo_open check))"
  unfolding key_run_def using play_steps demo_opened by blast

definition stale_samples :: "(nat \<times> bool) list" where
  "stale_samples =
     [(1000, True), (1040, True), (1080, True), (1120, False),
      (1200, True), (1240, True), (1280, True), (2800, True), (2840, False),
      (10000, True), (10040, True), (10080, True), (10120, False), (10520, False)]"

text \<open>Evaluating the handler for the power key alone.\<close>

lemma ticks_16: "MS_TO_TICKS (sample_hw t b) ms = ms * 16" if "ms \<le> 134217"
proof -
  have "unat ms \<le> 134217" using that by (simp add: word_le_nat_alt)
  then have "unat (MS_TO_TICKS (sample_hw t b) ms) = unat (ms * 16)"
    unfolding MS_TO_TICKS_def
    by (subst ms_to_ticks_exact) (simp_all add: sample_hw_def sys_timer_init_def timer_consts unat_word_ariths)
  then show ?thesis by (simp add: word_unat_eq_iff)
qed

lemma sample_thresholds:
  "KEY_DEBOUNCE_INTERVAL (sample_hw t b) = 1280" "KEY_DITHER_INTERVAL (sample_hw t b) = 640"
  "KEY_DOUBLECLICK_THRESHOLD (sample_hw t b) = 6400" "KEY_LONGPRESS_THRESHOLD (sample_hw t b) = 24000"
  "KEY_LONGLONGPRESS_THRESHOLD (sample_hw t b) = 80000" "KEY_PERMPRESS_THRESHOLD (sample_hw t b) = 480000"
  "KEY_LONGPRESS_REPEAT_THRESHOLD (sample_hw t b) div KEY_CHECKER_INTERVAL (sample_hw t b) = 12"
  by (simp_all add: KEY_DEBOUNCE_INTERVAL_def KEY_DITHER_INTERVAL_def KEY_CHECKER_INTERVAL_def
      KEY_DOUBLECLICK_THRESHOLD_def KEY_LONGPRESS_THRESHOLD_def KEY_LONGLONGPRESS_THRESHOLD_def
      KEY_PERMPRESS_THRESHOLD_def KEY_LONGPRESS_REPEAT_THRESHOLD_def ticks_16)

lemma sample_fields:
  "hw_time (sample_hw ms b) = of_nat (16 * ms)" "hal_pwrkey_pressed (sample_hw ms b) = b"
  by (simp_all add: sample_hw_def)

lemma one_bit_loop: "bit_loop f 0 0 s = s" "bit_loop f 0 1 s = f 0 s"
proof -
  have "filter (bit (1 :: u32)) [0..<32] = [0]" by (simp add: bit_1_iff upt_rec)
  then show "bit_loop f 0 0 s = s" "bit_loop f 0 1 s = f 0 s" by (simp_all add: bit_loop_fold del: upt_rec_numeral)
qed

lemma gpio_scan_empty: "gpio_key s = zero_gpiokey \<Longrightarrow> gpio_scan cfg hw (c, s) = (c, s)"
  by (simp add: gpio_scan_def gpio_assert_def gpio_dither_scan_def gpio_down_scan_def gpio_debounce_scan_def
      zero_gpiokey_def map_simps Let_def)

lemma gpio_idle: "gpio_busy zero_gpiokey = False"
  by (simp add: gpio_busy_def zero_gpiokey_def map_simps)

lemma key_code_consts: "HAL_KEY_CODE_PWR = 1" "HAL_KEY_CODE_NONE = 0" "BIT 0 = 1" "\<not> (4 :: u8) \<le> 1"
  by (simp_all add: HAL_KEY_CODE_PWR_def HAL_KEY_CODE_NONE_def BIT_def word_le_nat_alt)

lemmas play_defs = play_sample_def sample_fields sample_thresholds hal_pwrkey_handle_irq_state_def
  hal_pwrkey_disable_int_def hal_pwrkey_enable_int_def hal_key_debounce_timer_restart_def
  pwr_scan_def pwr_busy_def gpio_scan_empty gpio_idle key_update_parts upd1_def upd2_def upd3_def one_bit_loop key_up_edge_def key_down_edge_def
  key_up_def key_click_def key_longpress_def key_permpress_def send_key_event_def upd_status_def in_longpress_def
  key_code_consts MAX_KEY_CLICK_COUNT_def Let_def

lemma demo_start: "demo_open False = \<lparr>key_detected_callback = True, debounce_timer = Some Debounce_Handler,
  timer_active = False, key_status = zero_key_status, debounce_started = False, time_first_debounce = 0,
  pwr_key = zero_pwrkey, gpio_key = zero_gpiokey, pwr_irq = True, gpio_irq = {}, key_sent = [], key_assert = False\<rparr>"
  by (simp add: demo_open_def hal_key_open_def hal_key_init_def hal_gpiokey_open_def hal_pwrkey_open_def
      hal_gpiokey_reset_def hal_pwrkey_reset_def hal_key_enable_allint_def enable_allint cfg_pins_def
      hal_pwrkey_enable_int_def Let_def)



text \<open>The handler when there are no GPIO keys to scan.\<close>

definition handler_end :: "key_hw \<Rightarrow> bool \<Rightarrow> hal_key \<Rightarrow> hal_key" where
  "handler_end hw busy s =
     (if busy \<or> event (key_status s) \<noteq> HAL_KEY_EVENT_NONE then hal_key_debounce_timer_restart (key_permpress hw s)
      else (key_permpress hw s)\<lparr>debounce_started := False\<rparr>)"

definition handler_rest :: "key_hw \<Rightarrow> u32 \<times> hal_key \<Rightarrow> hal_key" where
  "handler_rest hw x = handler_end hw (pwr_busy (pwr_key (snd x))) (key_update hw (fst x) (snd x))"

lemma pwr_scan_gpio: "gpio_key (snd (pwr_scan hw s)) = gpio_key s"
  by (simp add: pwr_scan_def hal_pwrkey_enable_int_def Let_def)

lemma pwr_handler:
  assumes "gpio_key s = zero_gpiokey"
  shows "hal_key_debounce_handler cfg hw s = handler_rest hw (pwr_scan hw (s\<lparr>timer_active := False\<rparr>))"
proof -
  obtain code s1 where 1: "pwr_scan hw (s\<lparr>timer_active := False\<rparr>) = (code, s1)" by fastforce
  then have g: "gpio_key s1 = zero_gpiokey" using assms pwr_scan_gpio [of hw "s\<lparr>timer_active := False\<rparr>"] by simp
  show ?thesis
    using status_frame_fields(3) [OF key_update_frame [of s1 hw code]]
    by (simp add: hal_key_debounce_handler_def handler_rest_def handler_end_def 1 gpio_scan_empty [OF g] g gpio_idle Let_def)
qed


lemmas run_defs = play_defs pwr_handler handler_rest_def handler_end_def

lemma play_simps: "play cfg [] s = s" "play cfg (x # xs) s = play cfg xs (play_sample cfg x s)"
  by (simp_all add: play_def)

text \<open>A click, a long press and a single click seven seconds later, through the whole handler: a double click.\<close>

lemma stale_run:
  "map snd (rev (key_sent (play [] stale_samples (demo_open False)))) = [1, 2, 4, 1, 3, 6, 4, 5, 1, 2, 4, 9]"
  unfolding stale_samples_def demo_start
  by (simp add: play_simps zero_key_status_def zero_pwrkey_def run_defs cong: let_weak_cong prod.case_cong_weak)


section \<open>What a handler sends\<close>

text \<open>After boot the callback sees only the events from down to repeat.\<close>

definition run_sent :: "hal_key \<Rightarrow> hal_key \<Rightarrow> bool" where
  "run_sent s t \<longleftrightarrow> (\<exists>es. key_sent t = es @ key_sent s \<and> list_all (\<lambda>(c, e). 1 \<le> e \<and> e \<le> 13) es)"

lemma run_sent_refl [simp]: "run_sent s s"
  by (simp add: run_sent_def)

lemma run_sent_trans: "run_sent s t \<Longrightarrow> run_sent t u \<Longrightarrow> run_sent s u"
  unfolding run_sent_def by (auto simp: list_all_iff)

lemma run_sent_cong: "run_sent (upd_status f s) t = run_sent s t"
  "run_sent s (upd_status f t) = run_sent s t"
  by (simp_all add: run_sent_def upd_status_def)

lemma run_sent_send: "1 \<le> e \<Longrightarrow> e \<le> 13 \<Longrightarrow> run_sent s t \<Longrightarrow> run_sent s (send_key_event c e t)"
  by (auto simp: run_sent_def send_key_event_def)

lemma event_bounds: "(1 :: u8) \<le> 1" "(1 :: u8) \<le> 13" "(2 :: u8) \<le> 13" "(3 :: u8) \<le> 13" "(4 :: u8) \<le> 13" "(5 :: u8) \<le> 13"
  "(1 :: u8) \<le> 2" "(1 :: u8) \<le> 3" "(1 :: u8) \<le> 4" "(1 :: u8) \<le> 5" "(1 :: u8) \<le> 6" "(1 :: u8) \<le> 7" "(1 :: u8) \<le> 13"
  "(6 :: u8) \<le> 13" "(7 :: u8) \<le> 13" "(13 :: u8) \<le> 13"
  by (simp_all add: word_le_nat_alt)

lemma click_bounds:
  assumes "(n :: u8) \<le> 4"
  shows "1 \<le> 8 + n" "8 + n \<le> 13"
proof -
  have "unat n \<le> 4" using assms by (simp add: word_le_nat_alt)
  then show "1 \<le> 8 + n" "8 + n \<le> 13" by (simp_all add: word_le_nat_alt unat_word_ariths)
qed

lemma run_sent_edges: "run_sent s (key_up_edge hw i s)" "run_sent s (key_down_edge hw code i s)"
  by (simp_all add: key_up_edge_def key_down_edge_def Let_def run_sent_cong run_sent_send event_bounds)

lemma run_sent_fold:
  assumes "\<And>i s. run_sent s (f i s)"
  shows "run_sent s (fold f is s)"
  by (induction "is" arbitrary: s) (auto intro: run_sent_trans assms)

lemma run_sent_longpress: "run_sent s (key_longpress hw code s)"
  by (simp add: key_longpress_def Let_def run_sent_cong run_sent_send event_bounds)

lemma run_sent_click:
  assumes "click_ok (key_status s)"
  shows "run_sent s (key_click hw up s)"
proof -
  have c: "cnt_click (key_status s) < 4" using assms by (simp add: click_ok_def MAX_KEY_CLICK_COUNT_def)
  then have "cnt_click (key_status s) \<le> 4" "cnt_click (key_status s) + 1 \<le> 4" 
    using word_small [OF c] by (auto simp: word_le_nat_alt)
  then show ?thesis
    using click_bounds
    by (simp add: key_click_def Let_def run_sent_cong run_sent_send)
qed


lemma run_sent_update:
  assumes "click_ok (key_status s)" and "run_event (event (key_status s))"
  shows "run_sent s (key_update hw code s)"
proof -
  have 1: "run_sent s (upd1 hw code s)"
    by (simp add: upd1_def Let_def bit_loop_fold run_sent_cong run_sent_fold run_sent_edges)
  have "run_sent (upd1 hw code s) (upd2 hw code s)"
    using run_sent_click [OF upd1_status(1) [OF assms]] by (simp add: upd2_def run_sent_cong)
  moreover have "run_sent (upd2 hw code s) (upd3 hw code s)"
    by (simp add: upd3_def Let_def bit_loop_fold run_sent_cong run_sent_fold run_sent_edges)
  ultimately show ?thesis
    unfolding key_update_parts using 1 run_sent_longpress by (blast intro: run_sent_trans)
qed

section \<open>The order of the boot events\<close>

text \<open>What the callback has seen, oldest first, for each state of the boot.\<close>

fun boot_sent :: "HAL_KEY_EVENT_T \<Rightarrow> HAL_KEY_EVENT_T list" where
  "boot_sent HAL_KEY_EVENT_INITDOWN = [HAL_KEY_EVENT_INITDOWN]"
| "boot_sent HAL_KEY_EVENT_INITLONGPRESS = [HAL_KEY_EVENT_INITDOWN, HAL_KEY_EVENT_INITLONGPRESS]"
| "boot_sent HAL_KEY_EVENT_INITLONGLONGPRESS =
     [HAL_KEY_EVENT_INITDOWN, HAL_KEY_EVENT_INITLONGPRESS, HAL_KEY_EVENT_INITLONGLONGPRESS]"
| "boot_sent e = []"

text \<open>The whole boot that ended in the given state: a short press is released, then the boot is finished.\<close>

definition boot_done :: "HAL_KEY_EVENT_T \<Rightarrow> HAL_KEY_EVENT_T list" where
  "boot_done e = boot_sent e @
     (if e = HAL_KEY_EVENT_NONE \<or> e = HAL_KEY_EVENT_INITDOWN then [HAL_KEY_EVENT_INITUP] else []) @
     [HAL_KEY_EVENT_INITFINISHED]"

definition pwr_log :: "HAL_KEY_EVENT_T list \<Rightarrow> (u32 \<times> u8) list" where
  "pwr_log es = rev (map (\<lambda>e. (HAL_KEY_CODE_PWR, event_num e)) es)"

text \<open>\<open>check\<close>: the keys were opened with the check of the power key.\<close>

definition boot_log :: "bool \<Rightarrow> hal_key \<Rightarrow> bool" where
  "boot_log check s \<longleftrightarrow>
     (if debounce_timer s = Some Boot_Handler
      then check \<and> boot_event (event (key_status s)) \<and> key_sent s = pwr_log (boot_sent (event (key_status s)))
      else \<exists>es old. key_sent s = es @ old \<and> list_all (\<lambda>(c, e). 1 \<le> e \<and> e \<le> 13) es \<and>
             (if check then \<exists>e. boot_event e \<and> old = pwr_log (boot_done e) else old = []))"

lemma boot_log_run:
  assumes "boot_log check s" "debounce_timer s = Some Debounce_Handler" "debounce_timer t = Some Debounce_Handler" "run_sent s t"
  shows "boot_log check t"
proof -
  obtain es old where old: "key_sent s = es @ old" "list_all (\<lambda>(c, e). 1 \<le> e \<and> e \<le> 13) es"
    "if check then \<exists>e. boot_event e \<and> old = pwr_log (boot_done e) else old = []"
    using assms(1,2) unfolding boot_log_def by auto
  moreover obtain es' where "key_sent t = es' @ key_sent s" "list_all (\<lambda>(c, e). 1 \<le> e \<and> e \<le> 13) es'"
    using assms(4) by (auto simp: run_sent_def)
  ultimately have "key_sent t = (es' @ es) @ old" "list_all (\<lambda>(c, e). 1 \<le> e \<and> e \<le> 13) (es' @ es)" by auto
  moreover have "debounce_timer t \<noteq> Some Boot_Handler" using assms(3) by simp
  ultimately show ?thesis using old(3) unfolding boot_log_def by (simp only: if_False) blast
qed


lemma boot_events_log:
  assumes "key_detected_callback s" and "boot_event (event (key_status s))"
    and "key_sent s = pwr_log (boot_sent (event (key_status s)))"
  shows "key_sent (boot_events hw s) = pwr_log (boot_sent (event (key_status (boot_events hw s))))"
  using assms by (auto simp: boot_events_def Let_def boot_event_def pwr_log_def send_key_event_def upd_status_def)

lemma boot_finish_log:
  assumes "key_detected_callback s" and "key_sent s = pwr_log (boot_sent (event (key_status s)))"
  shows "key_sent (boot_finish cfg s) = pwr_log (boot_done (event (key_status s)))"
  using assms
  by (simp add: boot_finish_def Let_def hal_key_enable_allint_def enable_allint hal_pwrkey_enable_int_def
      hal_pwrkey_reset_def send_key_event_def pwr_log_def boot_done_def)

lemma boot_step_log:
  assumes "boot_log check s" and d: "debounce_timer s = Some Boot_Handler" and "key_detected_callback s"
  shows "boot_log check (hal_key_boot_handler cfg hw s)"
proof -
  let ?a = "boot_pwr hw (s\<lparr>timer_active := False\<rparr>)"
  have e: "event (key_status ?a) = event (key_status s)" "key_detected_callback ?a" "debounce_timer ?a = Some Boot_Handler"
    using assms by (simp_all add: boot_pwr_fields)
  have L: "boot_event (event (key_status ?a))" "key_sent ?a = pwr_log (boot_sent (event (key_status ?a)))"
    and c: check using assms by (simp_all add: boot_log_def boot_pwr_fields)
  show ?thesis
  proof (cases "pwr_busy (pwr_key ?a)")
    case True
    let ?b = "if pwr_pressed (pwr_key ?a) then boot_events hw ?a else ?a"
    have "key_sent ?b = pwr_log (boot_sent (event (key_status ?b)))" "boot_event (event (key_status ?b))"
      "debounce_timer ?b = Some Boot_Handler"
      using boot_events_log [OF e(2) L, of hw] boot_events_status(2) [OF L(1), of hw] L e(3)
        status_frame_fields(6) [OF boot_events_frame [of ?a hw]] by simp_all
    then show ?thesis
      using True c by (simp add: hal_key_boot_handler_def Let_def hal_key_debounce_timer_restart_def boot_log_def
          del: if_split)
  next
    case False
    then have "key_sent (hal_key_boot_handler cfg hw s) = [] @ pwr_log (boot_done (event (key_status ?a)))"
      "debounce_timer (hal_key_boot_handler cfg hw s) = Some Debounce_Handler"
      using boot_finish_log [OF e(2) L(2)] by (simp_all add: hal_key_boot_handler_def Let_def boot_finish_fields)
    then show ?thesis
      using L(1) c unfolding boot_log_def by simp (rule exI [of _ "[]"], auto)
  qed
qed

lemma key_step_log:
  assumes "key_step cfg s t" and C: "cfg_ok cfg" and I: "key_inv cfg s" and L: "boot_log check s"
  shows "boot_log check t"
  using assms(1)
proof cases
  case (pwr hw)
  have d: "debounce_timer s = Some Debounce_Handler"
    using I pwr(2) by (auto simp: key_inv_def boot_inv_def split: option.splits key_handler.splits)
  show ?thesis
    using pwr_irq_step(3) [OF I pwr(2), of hw] d unfolding pwr(1)
    by (intro boot_log_run [OF L d])
      (auto simp: run_sent_def hal_pwrkey_handle_irq_state_def hal_pwrkey_disable_int_def hal_key_debounce_timer_restart_def Let_def)
next
  case (gpio pin hw)
  have d: "debounce_timer s = Some Debounce_Handler"
    using I gpio(2) by (auto simp: key_inv_def boot_inv_def gpio_all_def split: option.splits key_handler.splits)
  show ?thesis
    using gpio_irq_step(3) [OF C I gpio(2), of hw] d unfolding gpio(1)
    by (intro boot_log_run [OF L d])
      (auto simp: run_sent_def hal_gpiokey_irqhandler_def hal_gpiokey_disable_irq_def key_fail_def
        hal_key_debounce_timer_restart_def Let_def split: option.splits)
next
  case (debounce hw)
  then have P: "gpio_part cfg s" "pwr_irq s = (\<not> pwr_busy (pwr_key s))" "click_ok (key_status s)"
    "run_event (event (key_status s))" "key_detected_callback s"
    using I by (simp_all add: key_inv_def debounce_inv_def)
  note f = handler_fields(4,12) [OF C P, of hw]
  obtain u where u: "key_status u = key_status s" "key_sent u = key_sent s"
    "key_sent t = key_sent (key_update hw (code_down (key_status t)) u)"
    using f(2) unfolding debounce(1) by blast
  have "run_sent u (key_update hw (code_down (key_status t)) u)" using P u(1) by (intro run_sent_update) simp_all
  then have "run_sent s t" by (simp add: run_sent_def u)
  then show ?thesis using boot_log_run [OF L debounce(3)] f(1) debounce by simp
next
  case (boot hw)
  then show ?thesis using boot_step_log [OF L boot(3)] I by (simp add: key_inv_def)
qed

lemma key_run_log:
  assumes C: "cfg_ok cfg" and o: "hal_key_open cfg check startup hw True hal_key_init = (0, s0)"
    and r: "(key_step cfg)\<^sup>*\<^sup>* s0 s"
  shows "boot_log check s"
proof -
  have 0: "boot_log check s0"
    using o by (auto simp: hal_key_open_def hal_key_init_def hal_gpiokey_open_def hal_pwrkey_open_def hal_gpiokey_reset_def
        hal_pwrkey_reset_def hal_key_enable_allint_def enable_allint hal_pwrkey_enable_int_def Let_def
        hal_pwrkey_handle_irq_state_def hal_pwrkey_disable_int_def hal_key_debounce_timer_restart_def
        zero_key_status_def boot_log_def boot_event_def pwr_log_def split: if_splits)
  from r have "key_inv cfg s \<and> log_ok s \<and> boot_log check s"
    by (induction rule: rtranclp_induct)
      (use 0 open_inv [OF o] key_step_inv [OF _ C] key_step_log [OF _ C] in blast)+
  then show ?thesis by blast
qed


section \<open>Properties\<close>

text \<open>A board with one GPIO key, after the interrupt of its press.\<close>

definition demo_cfg :: gpio_cfg where
  "demo_cfg = [\<lparr>key_code = 2, key_pin = 3, key_down = 1\<rparr>]"

definition demo_press :: hal_key where
  "demo_press = hal_gpiokey_irqhandler demo_cfg (sample_hw 1000 False) 3
     (snd (hal_key_open demo_cfg False [] (sample_hw 250 False) True hal_key_init))"

lemma demo_cfg_ok: "cfg_ok demo_cfg" "cfg_ok []"
  by (simp_all add: cfg_ok_def demo_cfg_def HAL_GPIO_PIN_NUM_def)

lemma demo_cfg_pins: "cfg_pins demo_cfg = {3}"
  by (auto simp: cfg_pins_def demo_cfg_def HAL_KEY_CODE_NONE_def)

lemma demo_press_run: "key_run demo_cfg demo_press"
proof -
  let ?s = "snd (hal_key_open demo_cfg False [] (sample_hw 250 False) True hal_key_init)"
  have o: "hal_key_open demo_cfg False [] (sample_hw 250 False) True hal_key_init = (0, ?s)"
    by (simp add: hal_key_open_def Let_def)
  have "3 \<in> gpio_irq ?s"
    by (simp add: hal_key_open_def hal_key_enable_allint_def enable_allint demo_cfg_pins Let_def)
  from key_step.gpio [OF this] show ?thesis unfolding key_run_def demo_press_def using o by blast
qed

text \<open>
  C13: after any sequence of interrupts and timer expiries no assertion of \<open>hal_key.c\<close> fails and the three pin
  maps are disjoint; after boot every configured pin is in one of them or has its interrupt enabled,
  and the click counter stays below its limit; whenever the timer does not run, the power key's interrupt
  and those of all configured pins are enabled and no event is in progress.
\<close>

theorem key_run_safe:
  assumes "cfg_ok cfg" and "key_run cfg s"
  shows "\<not> key_assert s \<and>
    \<not> gpio_map_test_set_map (pin_debounce (gpio_key s)) (pin_dither (gpio_key s)) \<and>
    \<not> gpio_map_test_set_map (pin_debounce (gpio_key s)) (pin_down (gpio_key s)) \<and>
    \<not> gpio_map_test_set_map (pin_down (gpio_key s)) (pin_dither (gpio_key s)) \<and>
    (debounce_timer s = Some Debounce_Handler \<longrightarrow>
      gpio_irq s \<union> pins (pin_debounce (gpio_key s)) \<union> pins (pin_dither (gpio_key s)) \<union> pins (pin_down (gpio_key s))
        = cfg_pins cfg \<and> cnt_click (key_status s) < MAX_KEY_CLICK_COUNT) \<and>
    (\<not> timer_active s \<longrightarrow> pwr_irq s \<and> gpio_irq s = cfg_pins cfg \<and> event (key_status s) = HAL_KEY_EVENT_NONE)"
  using key_run_inv(1) [OF assms]
  by (auto simp: key_inv_def gpio_part_def map_simps debounce_inv_def boot_inv_def gpio_all_def click_ok_def
      split: option.splits key_handler.splits)

theorem key_run_safe_witness:
  "\<not> key_assert demo_press \<and> \<not> timer_active (play [] [(1000, True), (1040, False), (1120, False)] (demo_open False)) \<and>
   pwr_irq (play [] [(1000, True), (1040, False), (1120, False)] (demo_open False))"
proof -
  have "\<not> timer_active (play [] [(1000, True), (1040, False), (1120, False)] (demo_open False))"
    unfolding demo_start
    by (simp add: play_simps zero_key_status_def zero_pwrkey_def run_defs cong: let_weak_cong prod.case_cong_weak)
  then show ?thesis
    using key_run_safe [OF demo_cfg_ok(1) demo_press_run] key_run_safe [OF demo_cfg_ok(2) demo_run] by blast
qed

text \<open>
  C17: for every key the callback sees down and up calls in turn, starting with down, and the last of
  them agrees with the key's bit in \<open>key_status.code_down\<close>.
\<close>

theorem key_events_alternate:
  assumes "cfg_ok cfg" and "key_run cfg s" and "k < 32"
  shows "alternating (edges k (key_sent s)) \<and>
    (bit (code_down (key_status s)) k \<longleftrightarrow> edges k (key_sent s) \<noteq> [] \<and> hd (edges k (key_sent s)))"
  using key_run_inv(2) [OF assms(1,2)] assms(3) by (simp add: log_ok_def)

theorem key_events_alternate_witness:
  "alternating (edges 0 (key_sent (play [] stale_samples (demo_open False)))) \<and>
   edges 0 (key_sent (play [] stale_samples (demo_open False))) \<noteq> []"
proof -
  let ?l = "key_sent (play [] stale_samples (demo_open False))"
  have "edges 0 ?l \<noteq> []"
    unfolding stale_samples_def demo_start
    by (simp add: edges_def play_simps zero_key_status_def zero_pwrkey_def run_defs
        cong: let_weak_cong prod.case_cong_weak)
  then show ?thesis using key_events_alternate [OF demo_cfg_ok(2) demo_run, of 0] by simp
qed

text \<open>
  C16: a key that a call of the handler newly reports as down is pressed at that moment, and was under
  debounce for at least \<open>KEY_DEBOUNCE_INTERVAL\<close> since the newest press of its group.
\<close>

theorem key_press_debounced:
  assumes "cfg_ok cfg" and "key_run cfg s" and "debounce_timer s = Some Debounce_Handler"
    and "bit (code_down (key_status (hal_key_debounce_handler cfg hw s))) k"
    and "\<not> bit (code_down (key_status s)) k"
  shows "(k = 0 \<and> hal_pwrkey_pressed hw \<and> pwr_debounce (pwr_key s) \<and>
      KEY_DEBOUNCE_INTERVAL hw \<le> hw_time hw - pwr_time (pwr_key s)) \<or>
    (\<exists>p. p \<in> cfg_pins cfg \<and> bit (pin_code cfg p) k \<and> pin_pressed cfg hw p \<and> p \<in> pins (pin_debounce (gpio_key s)) \<and>
      KEY_DEBOUNCE_INTERVAL hw \<le> hw_time hw - time_debounce (gpio_key s))"
proof -
  have P: "gpio_part cfg s" "pwr_irq s = (\<not> pwr_busy (pwr_key s))" "click_ok (key_status s)"
    "run_event (event (key_status s))" "key_detected_callback s" and D: "debounce_inv cfg s"
    using key_run_inv(1) [OF assms(1,2)] assms(3) by (simp_all add: key_inv_def debounce_inv_def)
  let ?t = "hal_key_debounce_handler cfg hw s"
  note f = handler_fields(8,10,11) [OF assms(1) P, where hw = hw]
  from assms(4) consider "k = 0" "pwr_down (pwr_key ?t)" | p where "p \<in> pW ?t" "bit (pin_code cfg p) k"
    unfolding f(1) by blast
  then show ?thesis
  proof cases
    case 1
    then show ?thesis using f(2) D assms(5) by (auto simp: debounce_inv_def)
  next
    case 2
    then have "p \<in> pB s" "pin_pressed cfg hw p" "KEY_DEBOUNCE_INTERVAL hw \<le> hw_time hw - time_debounce (gpio_key s)"
      using f(3) D assms(5) by (auto simp: debounce_inv_def)
    then show ?thesis using 2(2) P(1) unfolding gpio_part_def by blast
  qed
qed


theorem key_press_debounced_witness:
  "KEY_DEBOUNCE_INTERVAL (sample_hw 1080 True) \<le> hw_time (sample_hw 1080 True) -
     pwr_time (pwr_key (play [] [(1000, True), (1040, True)] (demo_open False)))"
proof -
  let ?s = "play [] [(1000, True), (1040, True)] (demo_open False)"
  have "debounce_timer ?s = Some Debounce_Handler"
    "bit (code_down (key_status (hal_key_debounce_handler [] (sample_hw 1080 True) ?s))) 0"
    "\<not> bit (code_down (key_status ?s)) 0"
    unfolding demo_start
    by (simp_all add: play_simps zero_key_status_def zero_pwrkey_def run_defs cong: let_weak_cong prod.case_cong_weak)
  from key_press_debounced [OF demo_cfg_ok(2) demo_run this] show ?thesis by (auto simp: cfg_pins_def)
qed

lemma demo_boot: "demo_open True = \<lparr>key_detected_callback = True, debounce_timer = Some Boot_Handler,
  timer_active = True, key_status = zero_key_status, debounce_started = False, time_first_debounce = 0,
  pwr_key = \<lparr>pwr_debounce = True, pwr_dither = False, pwr_pressed = True, pwr_time = 4000\<rparr>, gpio_key = zero_gpiokey,
  pwr_irq = False, gpio_irq = {}, key_sent = [], key_assert = False\<rparr>"
  by (simp add: demo_open_def hal_key_open_def hal_key_init_def hal_gpiokey_open_def hal_pwrkey_open_def list_all_iff
      hal_gpiokey_reset_def hal_pwrkey_reset_def hal_pwrkey_handle_irq_state_def hal_pwrkey_disable_int_def
      hal_key_debounce_timer_restart_def zero_pwrkey_def sample_fields Let_def)

lemma init_thresholds:
  "KEY_INIT_DOWN_THRESHOLD (sample_hw t b) = 3200" "KEY_INIT_LONGPRESS_THRESHOLD (sample_hw t b) = 48000"
  "KEY_INIT_LONGLONGPRESS_THRESHOLD (sample_hw t b) = 160000"
  by (simp_all add: KEY_INIT_DOWN_THRESHOLD_def KEY_INIT_LONGPRESS_THRESHOLD_def KEY_INIT_LONGLONGPRESS_THRESHOLD_def
      ticks_16)

lemmas boot_defs = run_defs init_thresholds hal_key_boot_handler_def boot_pwr_def boot_events_def boot_finish_def
  hal_pwrkey_reset_def hal_key_enable_allint_def enable_allint

text \<open>
  C18: the events of a boot with the power key. After an open with the check of the power key the boot
  handler sends down, long press, very long press in this order and each at most once. When the boot
  is over the callback has seen them, an up event exactly if there was no long press, and always the
  finished event; then only events from down to repeat follow. After an open without the check there are
  only events from down to repeat.
\<close>

theorem boot_sequence:
  assumes "cfg_ok cfg" and "hal_key_open cfg check startup hw True hal_key_init = (0, s0)"
    and "(key_step cfg)\<^sup>*\<^sup>* s0 s"
  shows "if debounce_timer s = Some Boot_Handler
    then check \<and> boot_event (event (key_status s)) \<and> key_sent s = pwr_log (boot_sent (event (key_status s)))
    else \<exists>es old. key_sent s = es @ old \<and> list_all (\<lambda>(c, e). 1 \<le> e \<and> e \<le> 13) es \<and>
      (if check then \<exists>e. boot_event e \<and> old = pwr_log (boot_done e) else old = [])"
  using key_run_log [OF assms] by (simp only: boot_log_def)

theorem boot_sequence_witness:
  "key_sent (play [] [(290, True), (330, True)] (demo_open True)) = pwr_log [HAL_KEY_EVENT_INITDOWN] \<and>
   key_sent (play [] [(290, True), (330, True), (370, False)] (demo_open True)) =
     pwr_log [HAL_KEY_EVENT_INITDOWN, HAL_KEY_EVENT_INITUP, HAL_KEY_EVENT_INITFINISHED]"
proof -
  have "debounce_timer (play [] [(290, True), (330, True)] (demo_open True)) = Some Boot_Handler"
    "event (key_status (play [] [(290, True), (330, True)] (demo_open True))) = HAL_KEY_EVENT_INITDOWN"
    "key_sent (play [] [(290, True), (330, True), (370, False)] (demo_open True)) =
       pwr_log [HAL_KEY_EVENT_INITDOWN, HAL_KEY_EVENT_INITUP, HAL_KEY_EVENT_INITFINISHED]"
    unfolding demo_boot
    by (simp_all add: play_simps zero_key_status_def boot_defs pwr_log_def cong: let_weak_cong prod.case_cong_weak)
  then show ?thesis
    using boot_sequence [OF demo_cfg_ok(2) demo_opened play_steps, of "[(290, True), (330, True)]" True] by simp
qed


lemma handler_refines:
  fixes hw cfg s
  defines "t \<equiv> hal_key_debounce_handler cfg hw s"
  assumes "cfg_ok cfg" and "key_run cfg s" and "debounce_timer s = Some Debounce_Handler"
    and "i < 32" and "thresholds_ok hw" and "press_abs (BIT i) (key_status s) p"
    and "code_down (key_status t) = (if b then BIT i else 0)"
  shows "press_abs (BIT i) (key_status t) (snd (press_step hw b p)) \<and>
    key_sent t = rev (map (\<lambda>e. (BIT i, event_num e)) (fst (press_step hw b p))) @ key_sent s"
proof -
  have P: "gpio_part cfg s" "pwr_irq s = (\<not> pwr_busy (pwr_key s))" "click_ok (key_status s)"
    "run_event (event (key_status s))" "key_detected_callback s"
    using key_run_inv(1) [OF assms(2,3)] assms(4) by (simp_all add: key_inv_def debounce_inv_def)
  obtain u where u: "key_status u = key_status s" "key_sent u = key_sent s" "key_detected_callback u"
    "key_status t = key_status (key_update hw (if b then BIT i else 0) u)"
    "key_sent t = key_sent (key_update hw (if b then BIT i else 0) u)"
    using handler_fields(12) [OF assms(2) P, of hw] unfolding t_def [symmetric] assms(8) by blast
  have "refines hw i b p u" using refines_step [OF assms(5,6) u(3)] assms(7) u(1) by simp
  then show ?thesis unfolding u(4,5) u(2) [symmetric] by (simp add: refines_def case_prod_beta Let_def)
qed

text \<open>
  C14: while no other key is involved, a call of the debounce handler does for a key what one step of the
  automaton of \<open>HalKeyClick\<close> does for the debounced sample: the status stands for the automaton's next state,
  and the callback sees exactly its events.
\<close>

theorem key_refines_press:
  fixes hw cfg s
  defines "t \<equiv> hal_key_debounce_handler cfg hw s"
  assumes "cfg_ok cfg" and "key_run cfg s" and "debounce_timer s = Some Debounce_Handler"
    and "i < 32" and "thresholds_ok hw" and "press_abs (BIT i) (key_status s) p"
    and "code_down (key_status t) = (if b then BIT i else 0)"
  shows "press_abs (BIT i) (key_status t) (snd (press_step hw b p)) \<and>
    key_sent t = rev (map (\<lambda>e. (BIT i, event_num e)) (fst (press_step hw b p))) @ key_sent s"
  using handler_refines [OF assms(2-7)] assms(8) unfolding t_def by blast

lemma sample_ok: "thresholds_ok (sample_hw t b)"
  by (simp add: thresholds_ok_def sample_thresholds word_less_nat_alt)

text \<open>The power key held: pressed at 1000 ms, reported at 1080 ms, released at 1120 ms.\<close>

lemma demo_held:
  fixes s
  defines "s \<equiv> play [] [(1000, True), (1040, True), (1080, True)] (demo_open False)"
  shows "debounce_timer s = Some Debounce_Handler" and "press_abs (BIT 0) (key_status s) (Held 0 17280)"
    and "key_sent s = [(1, 2), (1, 1)]"
    and "code_down (key_status (hal_key_debounce_handler [] (sample_hw 1120 False) s)) = (if False then BIT 0 else 0)"
  unfolding s_def demo_start
  by (simp_all add: play_simps zero_key_status_def zero_pwrkey_def run_defs pending_simps
      cong: let_weak_cong prod.case_cong_weak)

theorem key_refines_press_witness:
  "key_sent (hal_key_debounce_handler [] (sample_hw 1120 False) (play [] [(1000, True), (1040, True), (1080, True)]
     (demo_open False))) = [(1, 4), (1, 2), (1, 1)]"
  using key_refines_press [OF demo_cfg_ok(2) demo_run demo_held(1) _ sample_ok demo_held(2,4)] demo_held(3)
  by (simp add: key_code_consts)

text \<open>
  C15: \<open>n\<close> quick presses of an idle key without a count left over from earlier clicks, up to four, are reported as exactly one click event, that of \<open>n\<close>
  clicks, once the limit for a further click has passed: no sample in between sends a click event.
\<close>

theorem quick_clicks:
  assumes "i < 32" and "key_detected_callback s" and "press_abs (BIT i) (key_status s) (Idle 0)"
    and "list_all (\<lambda>(hw, b). thresholds_ok hw) ((hw, True) # xs @ [(hw', False)])"
    and "burst 0 (hw_time hw) True xs = Some (n, t, False)" and "n \<le> 4"
    and "KEY_DOUBLECLICK_THRESHOLD hw' \<le> hw_time hw' - t"
  shows "filter is_click (key_sent (key_samples i ((hw, True) # xs @ [(hw', False)]) s)) =
    (BIT i, event_num (click_event n)) # filter is_click (key_sent s)"
proof -
  note b = burst_run(1) [OF assms(5,6), simplified] burst_run(2) [OF assms(5,6), where c = "BIT i", simplified]
  have "fst (press_run ((hw, True) # xs @ [(hw', False)]) (Idle 0)) =
      [HAL_KEY_EVENT_DOWN, HAL_KEY_EVENT_FIRST_DOWN] @ fst (press_run xs (Held 0 (hw_time hw))) @ [click_event n]"
    using assms(7) b(1) by (simp add: press_run_append case_prod_beta Let_def del: click_event.simps)
  moreover have "\<not> is_click (BIT i, 1)" "\<not> is_click (BIT i, 2)" "is_click (BIT i, event_num (click_event n))"
    using assms(6) by (auto simp: is_click_def word_le_nat_alt)
  ultimately show ?thesis
    using refines_run [OF assms(1,4,2,3)] b(2) by (simp add: rev_filter [symmetric] del: click_event.simps)
qed


theorem quick_clicks_witness:
  "filter is_click (key_sent (key_samples 0
     [(sample_hw 1000 True, True), (sample_hw 1040 True, True), (sample_hw 1080 False, False),
      (sample_hw 1200 True, True), (sample_hw 1240 False, False), (sample_hw 1640 False, False)] (demo_open False)))
   = [(1, 9)]"
  using quick_clicks [of 0 "demo_open False" "sample_hw 1000 True"
      "[(sample_hw 1040 True, True), (sample_hw 1080 False, False), (sample_hw 1200 True, True),
        (sample_hw 1240 False, False)]" "sample_hw 1640 False" 2 19840]
  unfolding demo_start
  by (simp add: sample_ok sample_thresholds sample_fields pending_simps zero_key_status_def key_code_consts)



text \<open>
  C39: when the key is opened with the check of the power key, the first tick of the boot handler sends the
  down event although the press is still under debounce: \<open>time_updown\<close> is zero until the debounce ends, and
  the time since zero already exceeds the threshold.
\<close>

theorem boot_down_early:
  assumes "hal_key_open cfg True startup hw0 True s0 = (0, s)"
    and "hal_pwrkey_pressed hw0" and "hal_pwrkey_pressed hw"
    and "hw_time hw - hw_time hw0 < KEY_DEBOUNCE_INTERVAL hw" and "KEY_INIT_DOWN_THRESHOLD hw \<le> hw_time hw"
  shows "key_sent (hal_key_boot_handler cfg hw s) = (HAL_KEY_CODE_PWR, event_num HAL_KEY_EVENT_INITDOWN) # key_sent s \<and>
    pwr_debounce (pwr_key (hal_key_boot_handler cfg hw s))"
proof -
  have "key_status s = zero_key_status" "key_detected_callback s"
    "pwr_key s = \<lparr>pwr_debounce = True, pwr_dither = False, pwr_pressed = True, pwr_time = hw_time hw0\<rparr>"
    using assms(1,2)
    by (auto simp: hal_key_open_def hal_gpiokey_open_def hal_pwrkey_open_def hal_gpiokey_reset_def hal_pwrkey_reset_def
        Let_def hal_pwrkey_handle_irq_state_def hal_pwrkey_disable_int_def hal_key_debounce_timer_restart_def
        zero_pwrkey_def split: if_splits)
  moreover have "\<not> KEY_DEBOUNCE_INTERVAL hw \<le> hw_time hw - hw_time hw0" using assms(4) by simp
  ultimately show ?thesis
    using assms(3,5)
    by (simp add: zero_key_status_def hal_key_boot_handler_def boot_pwr_def pwr_busy_def boot_events_def
        upd_status_def send_key_event_def hal_key_debounce_timer_restart_def Let_def cong: let_weak_cong)
qed

theorem boot_down_early_witness:
  "key_sent (hal_key_boot_handler [] (sample_hw 290 True) (demo_open True)) = [(1, 16)]"
  using boot_down_early [OF demo_opened, of "sample_hw 290 True"]
  by (simp add: sample_fields sample_thresholds init_thresholds demo_boot key_code_consts)

end
