(* ===== verification/AppKey.thy ===== *)
theory AppKey
  imports HalKeyClick
begin

text \<open>
  The application's side of the keys: \<open>src/apps/key/app_key.cpp\<close>, which turns the callback of \<open>hal_key.c\<close> into
  messages and dispatches them to registered functions, and the mailbox and the thread that carry them,
  \<open>src/apps/common/app_thread.c\<close> (built with \<open>USE_BASIC_THREADS\<close>).

  The kernel's mail queue and memory pool (the vendored CMSIS kernel under \<open>src/rtos\<close>) and the list library, of
  which only the header is in the sources, are the record \<open>app_env\<close>, an argument of the definitions, with their documented
  behaviour as \<open>mail_laws\<close> and \<open>pool_laws\<close>. The code ignores the result of \<open>list_append\<close>; \<open>pool_laws\<close> assumes that the list
  gets an entry that is not null, that is, that the allocation of its node succeeds.
\<close>

section \<open>Messages\<close>

definition APP_MODUAL_KEY :: nat where
  "APP_MODUAL_KEY = 0"

definition APP_MOD_LEVEL_1 :: nat where
  "APP_MOD_LEVEL_1 = 1"

definition APP_MAILBOX_MAX :: nat where
  "APP_MAILBOX_MAX = 20"

definition KEY_EVENT_CNT_LIMIT :: u8 where
  "KEY_EVENT_CNT_LIMIT = 3"

definition APP_KEY_SET_MESSAGE :: "u32 \<Rightarrow> u8 \<Rightarrow> u32" where
  "APP_KEY_SET_MESSAGE code evt = push_bit 8 (code AND 0xffffff) OR (ucast evt AND 0xff)"

definition APP_KEY_GET_CODE :: "u32 \<Rightarrow> u32" where
  "APP_KEY_GET_CODE appevt = drop_bit 8 appevt AND 0xffffff"

definition APP_KEY_GET_EVENT :: "u32 \<Rightarrow> u8" where
  "APP_KEY_GET_EVENT appevt = ucast (appevt AND 0xff)"

text \<open>The fields of a message that a handler reads; the others are for tracing or unused by the keys.\<close>

record APP_MESSAGE_BODY =
  message_id :: u32
  message_ptr :: u32

record APP_MESSAGE_BLOCK =
  mod_id :: nat
  mod_level :: nat
  msg_body :: APP_MESSAGE_BODY

record APP_KEY_STATUS =
  st_code :: u32
  st_event :: u8

text \<open>A registered handle; functions, strings and parameters are addresses, a missing one is the null pointer.\<close>

record APP_KEY_HANDLE =
  handle_status :: APP_KEY_STATUS
  handle_string :: "nat option"
  handle_function :: "nat option"
  handle_param :: "nat option"

text \<open>What \<open>app_set_threadhandle\<close> stores: the handler of this component or another one.\<close>

datatype mod_fun = Key_Process | Other_Handler nat

section \<open>State\<close>

text \<open>
  Handles live in the blocks of the pool; the list holds their numbers, \<open>None\<close> for a null pointer.
  \<open>mails\<close> are the messages in the order in which they are taken, \<open>mails_taken\<close> the number of blocks taken and
  not yet freed; \<open>osMailGet\<close> waits while there is none.
\<close>

record ('l, 'q) app_env =
  list_new :: 'l
  list_append :: "'l \<Rightarrow> nat option \<Rightarrow> 'l"
  list_clear :: "'l \<Rightarrow> 'l"
  list_nodes :: "'l \<Rightarrow> nat option list"
  osPoolCAlloc :: "APP_KEY_HANDLE option list \<Rightarrow> nat option"
  osMailPut_with_prio :: "'q \<Rightarrow> APP_MESSAGE_BLOCK \<Rightarrow> nat \<Rightarrow> 'q option"
  osMailGet :: "'q \<Rightarrow> (APP_MESSAGE_BLOCK \<times> 'q) option"
  osMailFree :: "'q \<Rightarrow> 'q"
  mails :: "'q \<Rightarrow> APP_MESSAGE_BLOCK list"
  mails_taken :: "'q \<Rightarrow> nat"
  APP_MODUAL_NUM :: nat

record ('l, 'q) app =
  key_list :: "'l option"
  key_list_freed :: bool
  app_key_handle_mempool :: "APP_KEY_HANDLE option list"
  key_event_cnt :: u8
  mod_handler :: "nat \<Rightarrow> mod_fun option"
  app_mailbox :: 'q
  key_calls :: "(APP_KEY_STATUS \<times> nat \<times> nat option) list"
  other_calls :: "(nat \<times> APP_MESSAGE_BODY) list"

text \<open>A wrong access: a list that was freed or never made. An assertion stops the program.\<close>

datatype 'a app_res = Fault | Halt | Done 'a

section \<open>The mailbox and the thread\<close>

text \<open>
  Without a free block the queue is dumped and the assertion fails.
\<close>

definition app_mailbox_put :: "('l, 'q) app_env \<Rightarrow> APP_MESSAGE_BLOCK \<Rightarrow> ('l, 'q) app \<Rightarrow> ('l, 'q) app app_res" where
  "app_mailbox_put env msg a =
     (case osMailPut_with_prio env (app_mailbox a) msg (mod_level msg) of
        None \<Rightarrow> Halt
      | Some q \<Rightarrow> Done (a\<lparr>app_mailbox := q\<rparr>))"

definition app_mailbox_free :: "('l, 'q) app_env \<Rightarrow> ('l, 'q) app \<Rightarrow> ('l, 'q) app" where
  "app_mailbox_free env a = a\<lparr>app_mailbox := osMailFree env (app_mailbox a)\<rparr>"

definition app_mailbox_get :: "('l, 'q) app_env \<Rightarrow> ('l, 'q) app \<Rightarrow> (APP_MESSAGE_BLOCK \<times> ('l, 'q) app) option" where
  "app_mailbox_get env a = map_option (\<lambda>(m, q). (m, a\<lparr>app_mailbox := q\<rparr>)) (osMailGet env (app_mailbox a))"

definition app_set_threadhandle ::
    "('l, 'q) app_env \<Rightarrow> nat \<Rightarrow> mod_fun option \<Rightarrow> ('l, 'q) app \<Rightarrow> int \<times> ('l, 'q) app" where
  "app_set_threadhandle env i h a =
     (if APP_MODUAL_NUM env \<le> i then (-1, a) else (0, a\<lparr>mod_handler := (mod_handler a)(i := h)\<rparr>))"

definition app_is_module_registered :: "nat \<Rightarrow> ('l, 'q) app \<Rightarrow> bool" where
  "app_is_module_registered i a \<longleftrightarrow> mod_handler a i \<noteq> None"

section \<open>Keys\<close>

definition key_event_process :: "('l, 'q) app_env \<Rightarrow> u32 \<Rightarrow> u8 \<Rightarrow> ('l, 'q) app \<Rightarrow> ('l, 'q) app app_res" where
  "key_event_process env c e a =
     (if KEY_EVENT_CNT_LIMIT < key_event_cnt a then Done a
      else app_mailbox_put env
             \<lparr>mod_id = APP_MODUAL_KEY, mod_level = APP_MOD_LEVEL_1,
              msg_body = \<lparr>message_id = APP_KEY_SET_MESSAGE c e, message_ptr = 0\<rparr>\<rparr>
             (a\<lparr>key_event_cnt := key_event_cnt a + 1\<rparr>))"

definition app_key_simulate_key_event :: "('l, 'q) app_env \<Rightarrow> u32 \<Rightarrow> u8 \<Rightarrow> ('l, 'q) app \<Rightarrow> ('l, 'q) app app_res" where
  "app_key_simulate_key_event env c e a = key_event_process env c e a"

text \<open>\<open>osPoolFree\<close> of every handle in a list, the list's free function.\<close>

definition app_key_handle_free :: "nat option \<Rightarrow> APP_KEY_HANDLE option list \<Rightarrow> APP_KEY_HANDLE option list" where
  "app_key_handle_free n p = (case n of None \<Rightarrow> p | Some i \<Rightarrow> p[i := None])"

definition handle_is :: "APP_KEY_STATUS \<Rightarrow> APP_KEY_HANDLE option list \<Rightarrow> nat option \<Rightarrow> bool" where
  "handle_is st p n =
     (case n of None \<Rightarrow> False
      | Some i \<Rightarrow> (case p ! i of None \<Rightarrow> False
                  | Some h \<Rightarrow> st_code (handle_status h) = st_code st \<and> st_event (handle_status h) = st_event st))"

text \<open>The handle of a status, a block of the pool; the list must be alive.\<close>

definition app_key_handle_find :: "('l, 'q) app_env \<Rightarrow> APP_KEY_STATUS \<Rightarrow> ('l, 'q) app \<Rightarrow> nat option app_res" where
  "app_key_handle_find env st a =
     (case key_list a of
        None \<Rightarrow> Fault
      | Some l \<Rightarrow>
          if key_list_freed a then Fault
          else Done (case find (handle_is st (app_key_handle_mempool a)) (list_nodes env l) of
                       Some (Some i) \<Rightarrow> Some i | _ \<Rightarrow> None))"

text \<open>The counter is decremented before the handle is looked up; the call itself is recorded.\<close>

definition key_dispatch :: "('l, 'q) app_env \<Rightarrow> APP_KEY_STATUS \<Rightarrow> ('l, 'q) app \<Rightarrow> ('l, 'q) app app_res" where
  "key_dispatch env st a =
     (case app_key_handle_find env st a of
        Fault \<Rightarrow> Fault
      | Halt \<Rightarrow> Halt
      | Done None \<Rightarrow> Done a
      | Done (Some i) \<Rightarrow>
          (case app_key_handle_mempool a ! i of
             None \<Rightarrow> Done a
           | Some h \<Rightarrow>
               (case handle_function h of
                  None \<Rightarrow> Done a
                | Some f \<Rightarrow> Done (a\<lparr>key_calls := (st, f, handle_param h) # key_calls a\<rparr>))))"

definition msg_status :: "APP_MESSAGE_BODY \<Rightarrow> APP_KEY_STATUS" where
  "msg_status b = \<lparr>st_code = APP_KEY_GET_CODE (message_id b), st_event = APP_KEY_GET_EVENT (message_id b)\<rparr>"

definition app_key_handle_process :: "('l, 'q) app_env \<Rightarrow> APP_MESSAGE_BODY \<Rightarrow> ('l, 'q) app \<Rightarrow> ('l, 'q) app app_res" where
  "app_key_handle_process env b a = key_dispatch env (msg_status b) (a\<lparr>key_event_cnt := key_event_cnt a - 1\<rparr>)"

definition app_key_handle_registration ::
    "('l, 'q) app_env \<Rightarrow> APP_KEY_HANDLE \<Rightarrow> ('l, 'q) app \<Rightarrow> (int \<times> ('l, 'q) app) app_res" where
  "app_key_handle_registration env h a =
     (case app_key_handle_find env (handle_status h) a of
        Fault \<Rightarrow> Fault
      | Halt \<Rightarrow> Halt
      | Done (Some i) \<Rightarrow> Done (0, a\<lparr>app_key_handle_mempool := (app_key_handle_mempool a)[i := Some h]\<rparr>)
      | Done None \<Rightarrow>
          (let r = osPoolCAlloc env (app_key_handle_mempool a);
               a = a\<lparr>key_list := map_option (\<lambda>l. list_append env l r) (key_list a)\<rparr>
           in case r of
                None \<Rightarrow> Done (-1, a)
              | Some i \<Rightarrow> Done (0, a\<lparr>app_key_handle_mempool := (app_key_handle_mempool a)[i := Some h]\<rparr>)))"

definition app_key_handle_clear :: "('l, 'q) app_env \<Rightarrow> ('l, 'q) app \<Rightarrow> ('l, 'q) app app_res" where
  "app_key_handle_clear env a =
     (case key_list a of
        None \<Rightarrow> Fault
      | Some l \<Rightarrow>
          if key_list_freed a then Fault
          else Done (a\<lparr>app_key_handle_mempool := fold app_key_handle_free (list_nodes env l) (app_key_handle_mempool a),
                       key_list := Some (list_clear env l)\<rparr>))"

text \<open>
  Opening and closing together with the keys below. Freeing the list leaves its address in \<open>key_list\<close>; the
  pool, of 20 blocks, exists from the first opening on.
\<close>

definition app_key_open :: "('l, 'q) app_env \<Rightarrow> gpio_cfg \<Rightarrow> bool \<Rightarrow> bool list \<Rightarrow> key_hw \<Rightarrow>
    ('l, 'q) app \<times> hal_key \<Rightarrow> int \<times> ('l, 'q) app \<times> hal_key" where
  "app_key_open env cfg checkPwrKey startup hw x =
     (let (a, s) = x;
          a = (if key_list a = None then a\<lparr>key_list := Some (list_new env)\<rparr> else a);
          a = (if app_key_handle_mempool a = [] then a\<lparr>app_key_handle_mempool := replicate 20 None\<rparr> else a);
          (ret, a) = app_set_threadhandle env APP_MODUAL_KEY (Some Key_Process) a;
          (ret, s) = hal_key_open cfg checkPwrKey startup hw True s
      in (ret, a, s))"

definition app_key_close :: "('l, 'q) app_env \<Rightarrow> gpio_cfg \<Rightarrow> ('l, 'q) app \<times> hal_key \<Rightarrow> (('l, 'q) app \<times> hal_key) app_res" where
  "app_key_close env cfg x =
     (let (a, s) = x;
          s = hal_key_close cfg s
      in case key_list a of
           None \<Rightarrow> Done (snd (app_set_threadhandle env APP_MODUAL_KEY None a), s)
         | Some l \<Rightarrow>
             if key_list_freed a then Fault
             else let a = a\<lparr>app_key_handle_mempool := fold app_key_handle_free (list_nodes env l) (app_key_handle_mempool a),
                            key_list_freed := True\<rparr>
                  in Done (snd (app_set_threadhandle env APP_MODUAL_KEY None a), s))"

definition app_key_read_status :: "gpio_cfg \<Rightarrow> key_hw \<Rightarrow> u32 \<Rightarrow> u32" where
  "app_key_read_status cfg hw c = ucast (event_num (hal_key_read_status cfg hw c))"

section \<open>The thread\<close>

text \<open>One message taken from the mailbox and passed to the handler of its module.\<close>

definition app_handle :: "('l, 'q) app_env \<Rightarrow> APP_MESSAGE_BLOCK \<Rightarrow> ('l, 'q) app \<Rightarrow> ('l, 'q) app app_res" where
  "app_handle env m a =
     (if mod_id m < APP_MODUAL_NUM env
      then case mod_handler a (mod_id m) of
             None \<Rightarrow> Done a
           | Some Key_Process \<Rightarrow> app_key_handle_process env (msg_body m) a
           | Some (Other_Handler i) \<Rightarrow> Done (a\<lparr>other_calls := (i, msg_body m) # other_calls a\<rparr>)
      else Done a)"

fun res_map :: "('a \<Rightarrow> 'b) \<Rightarrow> 'a app_res \<Rightarrow> 'b app_res" where
  "res_map f Fault = Fault"
| "res_map f Halt = Halt"
| "res_map f (Done x) = Done (f x)"

definition app_thread :: "('l, 'q) app_env \<Rightarrow> ('l, 'q) app \<Rightarrow> ('l, 'q) app app_res option" where
  "app_thread env a =
     map_option (\<lambda>(m, a). res_map (app_mailbox_free env) (app_handle env m a)) (app_mailbox_get env a)"

section \<open>Assumed behaviour of the kernel and the list\<close>

definition level_mails :: "('l, 'q) app_env \<Rightarrow> nat \<Rightarrow> 'q \<Rightarrow> APP_MESSAGE_BLOCK list" where
  "level_mails env p q = filter (\<lambda>m. mod_level m = p) (mails env q)"

text \<open>
  The queue has 20 blocks, keeps the order within a level, and gives the messages out one by one; the
  pool hands out a free block while there is one; appending a non-null entry puts it at the end, and a
  null entry at most adds a null.
\<close>

definition mail_laws :: "('l, 'q) app_env \<Rightarrow> bool" where
  "mail_laws env \<longleftrightarrow>
     (\<forall>q m p. osMailPut_with_prio env q m p = None \<longleftrightarrow> APP_MAILBOX_MAX \<le> length (mails env q) + mails_taken env q) \<and>
     (\<forall>q m p q'. osMailPut_with_prio env q m p = Some q' \<longrightarrow> mod_level m = p \<longrightarrow>
        mails_taken env q' = mails_taken env q \<and> length (mails env q') = length (mails env q) + 1 \<and>
        (\<forall>l. level_mails env l q' = level_mails env l q @ (if l = p then [m] else []))) \<and>
     (\<forall>q. osMailGet env q = None \<longleftrightarrow> mails env q = []) \<and>
     (\<forall>q m q'. osMailGet env q = Some (m, q') \<longrightarrow>
        mails env q = m # mails env q' \<and> mails_taken env q' = mails_taken env q + 1) \<and>
     (\<forall>q. mails env (osMailFree env q) = mails env q \<and> mails_taken env (osMailFree env q) = mails_taken env q - 1)"

definition pool_laws :: "('l, 'q) app_env \<Rightarrow> bool" where
  "pool_laws env \<longleftrightarrow>
     (\<forall>p. case osPoolCAlloc env p of Some i \<Rightarrow> i < length p \<and> p ! i = None | None \<Rightarrow> None \<notin> set p) \<and>
     list_nodes env (list_new env) = [] \<and>
     (\<forall>l i. list_nodes env (list_append env l (Some i)) = list_nodes env l @ [Some i]) \<and>
     (\<forall>l. list_nodes env (list_append env l None) \<in> {list_nodes env l, list_nodes env l @ [None]}) \<and>
     (\<forall>l. list_nodes env (list_clear env l) = [])"

end
