(* ===== verification/AppKeyProps.thy ===== *)
theory AppKeyProps
  imports AppKey
begin

text \<open>
  The application's side of the keys over time: registered handles are a finite map, the counter of
  pending key messages and their order when nothing interrupts the thread inside a handler, and what
  happens when the timer interrupt does.
\<close>

section \<open>Messages\<close>

lemma code_mask: "(0xffffff :: u32) = mask 24" "(0xff :: u32) = mask 8"
  by (simp_all add: mask_eq_exp_minus_1)

lemma message_roundtrip:
  "APP_KEY_GET_CODE (APP_KEY_SET_MESSAGE c e) = c AND 0xffffff" "APP_KEY_GET_EVENT (APP_KEY_SET_MESSAGE c e) = e"
proof -
  show "APP_KEY_GET_CODE (APP_KEY_SET_MESSAGE c e) = c AND 0xffffff"
    unfolding APP_KEY_GET_CODE_def APP_KEY_SET_MESSAGE_def code_mask
    by (rule bit_word_eqI) (auto simp: bit_simps)
  show "APP_KEY_GET_EVENT (APP_KEY_SET_MESSAGE c e) = e"
    unfolding APP_KEY_GET_EVENT_def APP_KEY_SET_MESSAGE_def code_mask
    by (rule bit_word_eqI) (auto simp: bit_simps)
qed

lemma message_status:
  "msg_status \<lparr>message_id = APP_KEY_SET_MESSAGE c e, message_ptr = p\<rparr> = \<lparr>st_code = c AND 0xffffff, st_event = e\<rparr>"
  by (simp add: msg_status_def message_roundtrip)

section \<open>The mailbox\<close>

text \<open>The key messages that wait, in order; every key message has the same level.\<close>

definition is_key :: "APP_MESSAGE_BLOCK \<Rightarrow> bool" where
  "is_key m \<longleftrightarrow> mod_id m = APP_MODUAL_KEY"

definition pend :: "('l, 'q) app_env \<Rightarrow> 'q \<Rightarrow> APP_MESSAGE_BLOCK list" where
  "pend env q = filter is_key (mails env q)"

definition level_ok :: "('l, 'q) app_env \<Rightarrow> 'q \<Rightarrow> bool" where
  "level_ok env q \<longleftrightarrow> (\<forall>m \<in> set (mails env q). is_key m \<longrightarrow> mod_level m = APP_MOD_LEVEL_1)"

lemma pend_level: "level_ok env q \<Longrightarrow> pend env q = filter is_key (level_mails env APP_MOD_LEVEL_1 q)"
  by (auto simp: pend_def level_mails_def level_ok_def intro: filter_cong)

lemma put_set:
  assumes "mail_laws env" and "osMailPut_with_prio env q m (mod_level m) = Some q'"
  shows "set (mails env q') = insert m (set (mails env q))"
proof -
  have "x \<in> set (mails env q') \<longleftrightarrow> x \<in> set (level_mails env (mod_level x) q')" for x by (simp add: level_mails_def)
  also have "\<dots> x \<longleftrightarrow> x = m \<or> x \<in> set (mails env q)" for x
    using assms unfolding mail_laws_def by (auto simp: level_mails_def)
  finally show ?thesis by auto
qed

lemma put_key:
  assumes "mail_laws env" and "osMailPut_with_prio env q m (mod_level m) = Some q'" and "level_ok env q"
    and "is_key m \<Longrightarrow> mod_level m = APP_MOD_LEVEL_1"
  shows "level_ok env q'" and "pend env q' = pend env q @ (if is_key m then [m] else [])"
proof -
  show l: "level_ok env q'" using assms(3,4) put_set [OF assms(1,2)] by (auto simp: level_ok_def)
  have "level_mails env APP_MOD_LEVEL_1 q' = level_mails env APP_MOD_LEVEL_1 q @ (if APP_MOD_LEVEL_1 = mod_level m then [m] else [])"
    using assms(1,2) unfolding mail_laws_def by blast
  then show "pend env q' = pend env q @ (if is_key m then [m] else [])"
    using assms(4) by (auto simp: pend_level [OF l] pend_level [OF assms(3)])
qed

lemma get_key:
  assumes "mail_laws env" and "osMailGet env q = Some (m, q')" and "level_ok env q"
  shows "level_ok env q'" and "pend env q = (if is_key m then [m] else []) @ pend env q'"
proof -
  have "mails env q = m # mails env q'" using assms(1,2) unfolding mail_laws_def by blast
  then show "level_ok env q'" "pend env q = (if is_key m then [m] else []) @ pend env q'"
    using assms(3) by (auto simp: level_ok_def pend_def)
qed

lemma free_key:
  assumes "mail_laws env"
  shows "level_ok env (osMailFree env q) = level_ok env q" "pend env (osMailFree env q) = pend env q"
  using assms by (simp_all add: mail_laws_def level_ok_def pend_def)


section \<open>Handles\<close>

text \<open>
  The list is alive, its non-null entries are the used blocks of the pool, and no two handles have the same
  status.
\<close>

definition used :: "APP_KEY_HANDLE option list \<Rightarrow> nat \<Rightarrow> APP_KEY_HANDLE \<Rightarrow> bool" where
  "used p i h \<longleftrightarrow> i < length p \<and> p ! i = Some h"

definition handles_ok :: "('l, 'q) app_env \<Rightarrow> ('l, 'q) app \<Rightarrow> bool" where
  "handles_ok env a \<longleftrightarrow>
     (\<exists>l. key_list a = Some l \<and> \<not> key_list_freed a \<and>
        (\<forall>i. Some i \<in> set (list_nodes env l) \<longleftrightarrow> (\<exists>h. used (app_key_handle_mempool a) i h))) \<and>
     (\<forall>i j h h'. used (app_key_handle_mempool a) i h \<longrightarrow> used (app_key_handle_mempool a) j h' \<longrightarrow>
        handle_status h = handle_status h' \<longrightarrow> i = j)"

text \<open>The handle that a message with the status reaches.\<close>

definition app_lookup :: "('l, 'q) app_env \<Rightarrow> ('l, 'q) app \<Rightarrow> APP_KEY_STATUS \<rightharpoonup> APP_KEY_HANDLE" where
  "app_lookup env a st =
     (case app_key_handle_find env st a of Done (Some i) \<Rightarrow> app_key_handle_mempool a ! i | _ \<Rightarrow> None)"

lemma handle_is_used:
  "i < length p \<Longrightarrow> handle_is st p (Some i) \<longleftrightarrow> (\<exists>h. used p i h \<and> handle_status h = st)"
  by (cases st) (auto simp: handle_is_def used_def split: option.splits)

lemma find_cases [consumes 1, case_names found unknown]:
  assumes "handles_ok env a"
  obtains (found) i h where "app_key_handle_find env st a = Done (Some i)" "used (app_key_handle_mempool a) i h"
      "handle_status h = st" "app_lookup env a st = Some h"
    | (unknown) "app_key_handle_find env st a = Done None" "app_lookup env a st = None"
      "\<And>i h. used (app_key_handle_mempool a) i h \<Longrightarrow> handle_status h \<noteq> st"
proof -
  let ?p = "app_key_handle_mempool a"
  obtain l where l: "key_list a = Some l" "\<not> key_list_freed a"
    "\<And>i. Some i \<in> set (list_nodes env l) \<longleftrightarrow> (\<exists>h. used ?p i h)"
    using assms by (auto simp: handles_ok_def)
  show thesis
  proof (cases "find (handle_is st ?p) (list_nodes env l)")
    case None
    then have n: "\<not> handle_is st ?p n" if "n \<in> set (list_nodes env l)" for n
      using that by (auto simp: find_None_iff)
    have "handle_status h \<noteq> st" if "used ?p i h" for i h
    proof -
      have "Some i \<in> set (list_nodes env l)" using l(3) that by blast
      then show ?thesis using n handle_is_used [of i ?p st] that by (auto simp: used_def)
    qed
    moreover have "app_key_handle_find env st a = Done None" using l None by (simp add: app_key_handle_find_def)
    ultimately show thesis using unknown by (simp add: app_lookup_def)
  next
    case (Some n)
    then have n: "handle_is st ?p n" "n \<in> set (list_nodes env l)" by (auto simp: find_Some_iff)
    then obtain i where i: "n = Some i" by (cases n) (simp_all add: handle_is_def)
    have "i < length ?p" using n(2) l(3) by (auto simp: i used_def)
    then obtain h where h: "used ?p i h" "handle_status h = st" using n(1) handle_is_used [of i ?p st] by (auto simp: i)
    have "app_key_handle_find env st a = Done (Some i)" using l Some i by (simp add: app_key_handle_find_def)
    then show thesis using found h by (simp add: app_lookup_def used_def)
  qed
qed

text \<open>The lookup of a good list is determined by the used blocks.\<close>

lemma lookup_used:
  assumes "handles_ok env a"
  shows "app_lookup env a st = Some h \<longleftrightarrow> (\<exists>i. used (app_key_handle_mempool a) i h \<and> handle_status h = st)"
  using assms
proof (cases rule: find_cases [where st = st])
  case (found i h')
  have "h' = g" if "used (app_key_handle_mempool a) j g" "handle_status g = st" for j g
  proof -
    have "i = j" using assms found(2,3) that unfolding handles_ok_def by metis
    then show ?thesis using found(2) that(1) by (simp add: used_def)
  qed
  then show ?thesis using found(2-4) by (metis option.inject)
next
  case unknown
  then show ?thesis by auto
qed


text \<open>Two states with the same registered handles.\<close>

lemma lookup_eqI:
  assumes "handles_ok env a" and "handles_ok env b"
    and "\<And>g. (\<exists>j. used (app_key_handle_mempool b) j g) \<longleftrightarrow> (\<exists>j. used (app_key_handle_mempool a) j g)"
  shows "app_lookup env b = app_lookup env a"
proof
  fix st
  have "app_lookup env b st = Some g \<longleftrightarrow> app_lookup env a st = Some g" for g
    unfolding lookup_used [OF assms(1)] lookup_used [OF assms(2)] using assms(3) [of g] by blast
  then show "app_lookup env b st = app_lookup env a st" by (metis option.exhaust)
qed

text \<open>A handle stored in a block that is free or has the same status.\<close>

lemma store_handle:
  assumes H: "handles_ok env a" and l: "key_list a = Some l"
    and b: "app_key_handle_mempool b = (app_key_handle_mempool a)[i := Some h]" and i: "i < length (app_key_handle_mempool a)"
    and lb: "key_list b = Some lb" "\<not> key_list_freed b"
      "\<And>j. Some j \<in> set (list_nodes env lb) \<longleftrightarrow> j = i \<or> Some j \<in> set (list_nodes env l)"
    and n: "\<And>j g. used (app_key_handle_mempool a) j g \<Longrightarrow> handle_status g = handle_status h \<Longrightarrow> j = i"
      "\<And>g. used (app_key_handle_mempool a) i g \<Longrightarrow> handle_status g = handle_status h"
  shows "handles_ok env b" and "app_lookup env b = (app_lookup env a)(handle_status h \<mapsto> h)"
proof -
  let ?p = "app_key_handle_mempool a"
  have u: "used (app_key_handle_mempool b) j g \<longleftrightarrow> (if j = i then g = h else used ?p j g)" for j g
    using i by (auto simp: used_def b)
  have l3: "Some j \<in> set (list_nodes env l) \<longleftrightarrow> (\<exists>g. used ?p j g)" for j using H l by (simp add: handles_ok_def)
  have d: "j = k" if "used ?p j g" "used ?p k g'" "handle_status g = handle_status g'" for j k g g'
    using H that unfolding handles_ok_def by blast
  have "Some j \<in> set (list_nodes env lb) \<longleftrightarrow> (\<exists>g. used (app_key_handle_mempool b) j g)" for j
    unfolding lb(3) l3 u by (cases "j = i") simp_all
  moreover have "j = k" if "used (app_key_handle_mempool b) j g" "used (app_key_handle_mempool b) k g'"
    "handle_status g = handle_status g'" for j k g g'
  proof -
    have "j = i \<and> g = h \<or> used ?p j g" "k = i \<and> g' = h \<or> used ?p k g'"
      using that(1,2) unfolding u by (simp_all split: if_splits)
    then show ?thesis using d n(1) that(3) by metis
  qed
  ultimately show hb: "handles_ok env b" unfolding handles_ok_def using lb(1,2) by blast
  show "app_lookup env b = (app_lookup env a)(handle_status h \<mapsto> h)"
  proof
    fix st
    have "app_lookup env b st = Some g \<longleftrightarrow> ((app_lookup env a)(handle_status h \<mapsto> h)) st = Some g" for g
    proof (cases "st = handle_status h")
      case True
      have "(\<exists>j. used (app_key_handle_mempool b) j g \<and> handle_status g = handle_status h) \<longleftrightarrow> g = h"
        unfolding u using n(1) by metis
      then show ?thesis unfolding lookup_used [OF hb] True by auto
    next
      case False
      have "(\<exists>j. used (app_key_handle_mempool b) j g \<and> handle_status g = st) \<longleftrightarrow>
          (\<exists>j. used ?p j g \<and> handle_status g = st)"
        unfolding u using n(2) False by metis
      then show ?thesis unfolding lookup_used [OF hb] fun_upd_other [OF False] lookup_used [OF H] .
    qed
    then show "app_lookup env b st = ((app_lookup env a)(handle_status h \<mapsto> h)) st" by (metis option.exhaust)
  qed
qed

text \<open>Registering: the map of handles gets the new one, unless the pool is used up.\<close>

lemma registration_new:
  assumes L: "pool_laws env" and H: "handles_ok env a" and U: "app_lookup env a (handle_status h) = None"
    and F: "app_key_handle_find env (handle_status h) a = Done None"
  shows "\<exists>r a'. app_key_handle_registration env h a = Done (r, a') \<and> handles_ok env a' \<and>
    (if None \<in> set (app_key_handle_mempool a)
     then r = 0 \<and> app_lookup env a' = (app_lookup env a)(handle_status h \<mapsto> h)
     else r = -1 \<and> app_lookup env a' = app_lookup env a)"
proof -
  let ?p = "app_key_handle_mempool a"
  obtain l where l: "key_list a = Some l" "\<not> key_list_freed a" using H by (auto simp: handles_ok_def)
  have n: "handle_status g \<noteq> handle_status h" if "used ?p j g" for j g
    using U that lookup_used [OF H, of "handle_status h" g] by auto
  have alloc: "case osPoolCAlloc env ?p of Some i \<Rightarrow> i < length ?p \<and> ?p ! i = None | None \<Rightarrow> None \<notin> set ?p"
    using L unfolding pool_laws_def by blast
  show ?thesis
  proof (cases "osPoolCAlloc env ?p")
    case None
    let ?b = "a\<lparr>key_list := Some (list_append env l None)\<rparr>"
    have "list_nodes env (list_append env l None) \<in> {list_nodes env l, list_nodes env l @ [None]}"
      using L by (simp add: pool_laws_def)
    then have hb: "handles_ok env ?b" using H l by (auto simp: handles_ok_def)
    have "app_lookup env ?b = app_lookup env a" by (rule lookup_eqI [OF H hb]) simp
    moreover have "app_key_handle_registration env h a = Done (-1, ?b)"
      using F None l(1) by (simp add: app_key_handle_registration_def Let_def)
    ultimately show ?thesis using hb alloc None by (simp del: fun_upd_apply)
  next
    case (Some i)
    let ?b = "a\<lparr>key_list := Some (list_append env l (Some i)), app_key_handle_mempool := ?p[i := Some h]\<rparr>"
    have i: "i < length ?p" "?p ! i = None" using alloc Some by simp_all
    have ln: "list_nodes env (list_append env l (Some i)) = list_nodes env l @ [Some i]" using L by (simp add: pool_laws_def)
    have "handles_ok env ?b" "app_lookup env ?b = (app_lookup env a)(handle_status h \<mapsto> h)"
      by (rule store_handle [OF H l(1), of ?b i h "list_append env l (Some i)"]; use i n l(2) in \<open>auto simp: ln used_def\<close>)+
    moreover have "app_key_handle_registration env h a = Done (0, ?b)"
      using F Some l(1) by (simp add: app_key_handle_registration_def Let_def)
    moreover have "None \<in> set ?p" using i by (metis nth_mem)
    ultimately show ?thesis by (simp del: fun_upd_apply)
  qed
qed

lemma registration_known:
  assumes H: "handles_ok env a" and F: "app_key_handle_find env (handle_status h) a = Done (Some i)"
    and U: "used (app_key_handle_mempool a) i g" "handle_status g = handle_status h"
  shows "\<exists>a'. app_key_handle_registration env h a = Done (0, a') \<and> handles_ok env a' \<and>
    app_lookup env a' = (app_lookup env a)(handle_status h \<mapsto> h)"
proof -
  let ?p = "app_key_handle_mempool a"
  let ?b = "a\<lparr>app_key_handle_mempool := ?p[i := Some h]\<rparr>"
  obtain l where l: "key_list a = Some l" "\<not> key_list_freed a"
    "\<And>j. Some j \<in> set (list_nodes env l) \<longleftrightarrow> (\<exists>g. used ?p j g)"
    using H by (auto simp: handles_ok_def)
  have n: "j = i" if "used ?p j g'" "handle_status g' = handle_status h" for j g'
    using H that U unfolding handles_ok_def by metis
  have k: "handle_status g' = handle_status h" if "used ?p i g'" for g' using that U by (simp add: used_def)
  have i: "i < length ?p" "Some i \<in> set (list_nodes env l)" using U(1) l(3) by (auto simp: used_def)
  have "handles_ok env ?b" "app_lookup env ?b = (app_lookup env a)(handle_status h \<mapsto> h)"
    by (rule store_handle [OF H l(1), of ?b i h l]; auto simp: l(1,2) i intro: n k)+
  moreover have "app_key_handle_registration env h a = Done (0, ?b)" using F by (simp add: app_key_handle_registration_def)
  ultimately show ?thesis by blast
qed


text \<open>Dispatching calls the function registered for the status, if any.\<close>

definition called :: "APP_KEY_STATUS \<Rightarrow> APP_KEY_HANDLE option \<Rightarrow> (APP_KEY_STATUS \<times> nat \<times> nat option) list" where
  "called st r = (case r of None \<Rightarrow> []
     | Some h \<Rightarrow> (case handle_function h of None \<Rightarrow> [] | Some f \<Rightarrow> [(st, f, handle_param h)]))"

lemma dispatch_lookup:
  assumes "handles_ok env a"
  shows "key_dispatch env st a = Done (a\<lparr>key_calls := called st (app_lookup env a st) @ key_calls a\<rparr>)"
  using assms
  by (cases rule: find_cases [where st = st]) (auto simp: key_dispatch_def called_def used_def split: option.splits)

lemma handles_ok_cong:
  assumes "key_list b = key_list a" "key_list_freed b = key_list_freed a"
    "app_key_handle_mempool b = app_key_handle_mempool a"
  shows "handles_ok env b = handles_ok env a" "app_lookup env b st = app_lookup env a st"
  unfolding handles_ok_def app_lookup_def app_key_handle_find_def assms by (rule refl)+

section \<open>Runs without interruption inside the handler\<close>

text \<open>The state after opening: nothing pending, the list made, the handler of the keys in place.\<close>

definition app_ready :: "('l, 'q) app_env \<Rightarrow> ('l, 'q) app \<Rightarrow> bool" where
  "app_ready env a \<longleftrightarrow> handles_ok env a \<and> key_event_cnt a = 0 \<and> mails env (app_mailbox a) = [] \<and>
     mails_taken env (app_mailbox a) = 0 \<and> mod_handler a APP_MODUAL_KEY = Some Key_Process \<and>
     APP_MODUAL_KEY < APP_MODUAL_NUM env \<and> (\<forall>i. mod_handler a i = Some Key_Process \<longrightarrow> i = APP_MODUAL_KEY)"

text \<open>
  Any order of key events, messages of other modules, turns of the thread and registrations, with the key events
  that were accepted and the statuses that were handled.
\<close>

inductive app_trace :: "('l, 'q) app_env \<Rightarrow> ('l, 'q) app \<Rightarrow> APP_KEY_STATUS list \<Rightarrow> APP_KEY_STATUS list \<Rightarrow> bool" for env where
  start: "app_ready env a \<Longrightarrow> app_trace env a [] []"
| event: "app_trace env a acc han \<Longrightarrow> key_event_process env c e a = Done a' \<Longrightarrow>
    app_trace env a' (if KEY_EVENT_CNT_LIMIT < key_event_cnt a then acc
                      else acc @ [\<lparr>st_code = c AND 0xffffff, st_event = e\<rparr>]) han"
| post: "app_trace env a acc han \<Longrightarrow> \<not> is_key m \<Longrightarrow> app_mailbox_put env m a = Done a' \<Longrightarrow> app_trace env a' acc han"
| thread: "app_trace env a acc han \<Longrightarrow> osMailGet env (app_mailbox a) = Some (m, q) \<Longrightarrow>
    app_thread env a = Some (Done a') \<Longrightarrow> app_trace env a' acc (han @ (if is_key m then [msg_status (msg_body m)] else []))"
| register: "app_trace env a acc han \<Longrightarrow> app_key_handle_registration env h a = Done (r, a') \<Longrightarrow> app_trace env a' acc han"

definition app_inv :: "('l, 'q) app_env \<Rightarrow> ('l, 'q) app \<Rightarrow> APP_KEY_STATUS list \<Rightarrow> APP_KEY_STATUS list \<Rightarrow> bool" where
  "app_inv env a acc han \<longleftrightarrow>
     handles_ok env a \<and> mod_handler a APP_MODUAL_KEY = Some Key_Process \<and> APP_MODUAL_KEY < APP_MODUAL_NUM env \<and>
     level_ok env (app_mailbox a) \<and> key_event_cnt a = of_nat (length (pend env (app_mailbox a))) \<and>
     length (pend env (app_mailbox a)) \<le> 4 \<and> (\<forall>i. mod_handler a i = Some Key_Process \<longrightarrow> i = APP_MODUAL_KEY) \<and>
     acc = han @ map (\<lambda>m. msg_status (msg_body m)) (pend env (app_mailbox a))"

lemma put_cases:
  assumes "app_mailbox_put env m a = Done a'"
  obtains q where "osMailPut_with_prio env (app_mailbox a) m (mod_level m) = Some q" "a' = a\<lparr>app_mailbox := q\<rparr>"
  using assms by (auto simp: app_mailbox_put_def split: option.splits)

lemma event_inv:
  assumes M: "mail_laws env" and I: "app_inv env a acc han" and E: "key_event_process env c e a = Done a'"
  shows "app_inv env a' (if KEY_EVENT_CNT_LIMIT < key_event_cnt a then acc
    else acc @ [\<lparr>st_code = c AND 0xffffff, st_event = e\<rparr>]) han"
proof (cases "KEY_EVENT_CNT_LIMIT < key_event_cnt a")
  case True
  then show ?thesis using I E by (simp add: key_event_process_def)
next
  case False
  let ?m = "\<lparr>mod_id = APP_MODUAL_KEY, mod_level = APP_MOD_LEVEL_1,
    msg_body = \<lparr>message_id = APP_KEY_SET_MESSAGE c e, message_ptr = 0\<rparr>\<rparr>"
  have k: "is_key ?m" by (simp add: is_key_def)
  obtain q where q: "osMailPut_with_prio env (app_mailbox a) ?m (mod_level ?m) = Some q"
    "a' = a\<lparr>key_event_cnt := key_event_cnt a + 1, app_mailbox := q\<rparr>"
    using E False by (auto simp: key_event_process_def elim: put_cases)
  have l: "level_ok env (app_mailbox a)" using I by (simp add: app_inv_def)
  note p = put_key [OF M q(1) l]
  have n: "length (pend env (app_mailbox a)) < 4"
  proof -
    have "length (pend env (app_mailbox a)) \<le> 4" "key_event_cnt a = of_nat (length (pend env (app_mailbox a)))"
      using I by (simp_all add: app_inv_def)
    then have "unat (key_event_cnt a) = length (pend env (app_mailbox a))" by (simp add: unat_of_nat)
    then show ?thesis using False by (simp add: KEY_EVENT_CNT_LIMIT_def word_less_nat_alt)
  qed
  have h: "handles_ok env a' = handles_ok env a" by (rule handles_ok_cong) (simp_all add: q(2))
  show ?thesis using I False n p k unfolding app_inv_def h by (simp add: q(2) message_status)
qed

lemma post_inv:
  assumes M: "mail_laws env" and I: "app_inv env a acc han" and "\<not> is_key m" and E: "app_mailbox_put env m a = Done a'"
  shows "app_inv env a' acc han"
proof -
  obtain q where q: "osMailPut_with_prio env (app_mailbox a) m (mod_level m) = Some q" "a' = a\<lparr>app_mailbox := q\<rparr>"
    using E by (rule put_cases)
  have l: "level_ok env (app_mailbox a)" using I by (simp add: app_inv_def)
  have h: "handles_ok env a' = handles_ok env a" by (rule handles_ok_cong) (simp_all add: q(2))
  show ?thesis using I put_key [OF M q(1) l] assms(3) unfolding app_inv_def h by (simp add: q(2))
qed

lemma thread_inv:
  assumes M: "mail_laws env" and I: "app_inv env a acc han" and G: "osMailGet env (app_mailbox a) = Some (m, q)"
    and E: "app_thread env a = Some (Done a')"
  shows "app_inv env a' acc (han @ (if is_key m then [msg_status (msg_body m)] else []))"
proof -
  let ?a = "a\<lparr>app_mailbox := q\<rparr>"
  have l: "level_ok env (app_mailbox a)" using I by (simp add: app_inv_def)
  note g = get_key [OF M G l]
  have H: "handles_ok env a" using I by (simp add: app_inv_def)
  have r: "res_map (app_mailbox_free env) (app_handle env m ?a) = Done a'"
    using E G by (simp add: app_thread_def app_mailbox_get_def)
  show ?thesis
  proof (cases "is_key m")
    case True
    let ?b = "?a\<lparr>key_event_cnt := key_event_cnt a - 1\<rparr>"
    have hb: "handles_ok env ?b" using H handles_ok_cong(1) [of ?b a env] by simp
    have "app_handle env m ?a = app_key_handle_process env (msg_body m) ?a"
      using I True by (simp add: app_handle_def app_inv_def is_key_def)
    also have "\<dots> = key_dispatch env (msg_status (msg_body m)) ?b" by (simp add: app_key_handle_process_def)
    finally have a': "a' = app_mailbox_free env (?b\<lparr>key_calls := called (msg_status (msg_body m))
        (app_lookup env ?b (msg_status (msg_body m))) @ key_calls a\<rparr>)"
      using r by (simp add: dispatch_lookup [OF hb])
    have h: "handles_ok env a' = handles_ok env a" by (rule handles_ok_cong) (simp_all add: a' app_mailbox_free_def)
    show ?thesis
      using I g True unfolding app_inv_def h by (simp add: a' app_mailbox_free_def free_key [OF M])
  next
    case False
    have "\<exists>cs. app_handle env m ?a = Done (?a\<lparr>other_calls := cs\<rparr>)"
      using False I by (auto simp: app_handle_def app_inv_def is_key_def split: option.splits mod_fun.splits
          intro: exI [of _ "other_calls a"])
    then obtain cs where a': "a' = app_mailbox_free env (?a\<lparr>other_calls := cs\<rparr>)" using r by auto
    have h: "handles_ok env a' = handles_ok env a" by (rule handles_ok_cong) (simp_all add: a' app_mailbox_free_def)
    show ?thesis
      using I g False unfolding app_inv_def h by (simp add: a' app_mailbox_free_def free_key [OF M])
  qed
qed


lemma registration_frame:
  assumes "app_key_handle_registration env h a = Done (r, a')"
  shows "app_mailbox a' = app_mailbox a" "key_event_cnt a' = key_event_cnt a" "mod_handler a' = mod_handler a"
  using assms by (auto simp: app_key_handle_registration_def Let_def split: app_res.splits option.splits)

lemma registration_map:
  assumes L: "pool_laws env" and H: "handles_ok env a"
  shows "\<exists>r a'. app_key_handle_registration env h a = Done (r, a') \<and> handles_ok env a' \<and>
    (if app_lookup env a (handle_status h) \<noteq> None \<or> None \<in> set (app_key_handle_mempool a)
     then r = 0 \<and> app_lookup env a' = (app_lookup env a)(handle_status h \<mapsto> h)
     else r = -1 \<and> app_lookup env a' = app_lookup env a)"
  using H
proof (cases rule: find_cases [where st = "handle_status h"])
  case (found i g)
  then show ?thesis using registration_known [OF H found(1-3)] by (simp del: fun_upd_apply)
next
  case unknown
  then show ?thesis using registration_new [OF L H unknown(2,1)] by (simp del: fun_upd_apply)
qed

lemma register_inv:
  assumes L: "pool_laws env" and I: "app_inv env a acc han" and E: "app_key_handle_registration env h a = Done (r, a')"
  shows "app_inv env a' acc han"
proof -
  have "handles_ok env a'"
    using registration_map [OF L, of a h] I E by (auto simp: app_inv_def)
  then show ?thesis using I registration_frame [OF E] by (simp add: app_inv_def)
qed

lemma app_trace_inv:
  assumes "app_trace env a acc han" and M: "mail_laws env" and L: "pool_laws env"
  shows "app_inv env a acc han"
  using assms(1)
proof induction
  case (start a)
  then show ?case by (simp add: app_ready_def app_inv_def level_ok_def pend_def)
next
  case (event a acc han c e a')
  then show ?case using event_inv [OF M] by blast
next
  case (post a acc han m a')
  then show ?case using post_inv [OF M] by blast
next
  case (thread a acc han m q a')
  then show ?case using thread_inv [OF M] by blast
next
  case (register a acc han h r a')
  then show ?case using register_inv [OF L] by blast
qed

section \<open>The timer interrupt inside the handler\<close>

text \<open>
  \<open>key_event_cnt--\<close> of the thread is a load, a decrement and a store, and \<open>key_event_process\<close> runs in the timer interrupt.
  The second part of the state is the thread inside the handler: its message and the counter it loaded.
\<close>

type_synonym ('l, 'q) app_pair = "('l, 'q) app \<times> (APP_MESSAGE_BLOCK \<times> u8) option"

inductive app_step :: "('l, 'q) app_env \<Rightarrow> ('l, 'q) app_pair \<Rightarrow> ('l, 'q) app_pair \<Rightarrow> bool" for env where
  irq: "key_event_process env c e a = Done a' \<Longrightarrow> app_step env (a, r) (a', r)"
| post: "\<not> is_key m \<Longrightarrow> app_mailbox_put env m a = Done a' \<Longrightarrow> app_step env (a, r) (a', r)"
| other: "osMailGet env (app_mailbox a) = Some (m, q) \<Longrightarrow> \<not> is_key m \<Longrightarrow> app_thread env a = Some (Done a') \<Longrightarrow>
    app_step env (a, None) (a', None)"
| load: "app_mailbox_get env a = Some (m, a') \<Longrightarrow> is_key m \<Longrightarrow> app_step env (a, None) (a', Some (m, key_event_cnt a'))"
| store: "key_dispatch env (msg_status (msg_body m)) (a\<lparr>key_event_cnt := n - 1\<rparr>) = Done a' \<Longrightarrow>
    app_step env (a, Some (m, n)) (app_mailbox_free env a', None)"

inductive_cases app_stepE: "app_step env (a, r) x"

lemma res_map_Done: "res_map f r = Done y \<longleftrightarrow> (\<exists>x. r = Done x \<and> y = f x)"
  by (cases r) auto

text \<open>The two parts of the thread together are its handler.\<close>

lemma load_store:
  assumes "app_mailbox_get env a = Some (m, a1)" "is_key m" "mod_handler a APP_MODUAL_KEY = Some Key_Process"
    "APP_MODUAL_KEY < APP_MODUAL_NUM env" "app_thread env a = Some (Done a')"
  shows "(app_step env)\<^sup>*\<^sup>* (a, None) (a', None)"
proof -
  have "mod_handler a1 = mod_handler a" using assms(1) by (auto simp: app_mailbox_get_def)
  then have "app_handle env m a1 = key_dispatch env (msg_status (msg_body m)) (a1\<lparr>key_event_cnt := key_event_cnt a1 - 1\<rparr>)"
    using assms(2-4) by (simp add: app_handle_def is_key_def app_key_handle_process_def)
  moreover have "res_map (app_mailbox_free env) (app_handle env m a1) = Done a'" using assms(1,5) by (simp add: app_thread_def)
  ultimately obtain b where b: "key_dispatch env (msg_status (msg_body m)) (a1\<lparr>key_event_cnt := key_event_cnt a1 - 1\<rparr>) = Done b"
    "a' = app_mailbox_free env b"
    by (auto simp: res_map_Done)
  have "app_step env (a1, Some (m, key_event_cnt a1)) (a', None)" using app_step.store [OF b(1)] b(2) by simp
  with app_step.load [OF assms(1,2)] show ?thesis by (blast intro: rtranclp.intros)
qed

text \<open>A dead state: no key message pending and the counter beyond its limit.\<close>

definition key_deaf :: "('l, 'q) app_env \<Rightarrow> ('l, 'q) app_pair \<Rightarrow> bool" where
  "key_deaf env x \<longleftrightarrow> snd x = None \<and> KEY_EVENT_CNT_LIMIT < key_event_cnt (fst x) \<and>
     level_ok env (app_mailbox (fst x)) \<and> pend env (app_mailbox (fst x)) = [] \<and>
     (\<forall>i. mod_handler (fst x) i = Some Key_Process \<longrightarrow> i = APP_MODUAL_KEY)"

lemma key_deaf_step:
  assumes M: "mail_laws env" and "app_step env x y" and "key_deaf env x"
  shows "key_deaf env y"
  using assms(2)
proof cases
  case (irq c e a a' r)
  then show ?thesis using assms(3) by (simp add: key_event_process_def key_deaf_def)
next
  case (post m a a' r)
  obtain q where q: "osMailPut_with_prio env (app_mailbox a) m (mod_level m) = Some q" "a' = a\<lparr>app_mailbox := q\<rparr>"
    using post(4) by (rule put_cases)
  then show ?thesis using assms(3) post put_key [OF M q(1)] by (simp add: key_deaf_def)
next
  case (other a m q a')
  have "\<exists>cs. app_handle env m (a\<lparr>app_mailbox := q\<rparr>) = Done (a\<lparr>app_mailbox := q, other_calls := cs\<rparr>)"
    using other assms(3) by (auto simp: app_handle_def key_deaf_def is_key_def split: option.splits mod_fun.splits
        intro: exI [of _ "other_calls a"])
  then obtain cs where "a' = app_mailbox_free env (a\<lparr>app_mailbox := q, other_calls := cs\<rparr>)"
    using other by (auto simp: app_thread_def app_mailbox_get_def)
  then show ?thesis
    using assms(3) other get_key [OF M other(3)] by (simp add: key_deaf_def app_mailbox_free_def free_key [OF M])
next
  case (load a m a')
  then obtain q where "osMailGet env (app_mailbox a) = Some (m, q)" by (auto simp: app_mailbox_get_def)
  then show ?thesis using get_key(2) [OF M] assms(3) load by (auto simp: key_deaf_def)
next
  case (store m a n a')
  then show ?thesis using assms(3) by (simp add: key_deaf_def)
qed


lemma key_deaf_run:
  assumes "mail_laws env" and "(app_step env)\<^sup>*\<^sup>* x y" and "key_deaf env x"
  shows "key_deaf env y"
  using assms(2) by (induction rule: rtranclp_induct) (use assms key_deaf_step in blast)+

text \<open>The steps of one message through an empty mailbox.\<close>

lemma arrive:
  assumes M: "mail_laws env" and q: "mails env (app_mailbox a) = []" "mails_taken env (app_mailbox a) < 20"
    and n: "\<not> KEY_EVENT_CNT_LIMIT < key_event_cnt a"
  shows "\<exists>m q'. key_event_process env c e a = Done (a\<lparr>key_event_cnt := key_event_cnt a + 1, app_mailbox := q'\<rparr>) \<and>
    is_key m \<and> mails env q' = [m] \<and> mails_taken env q' = mails_taken env (app_mailbox a)"
proof -
  let ?m = "\<lparr>mod_id = APP_MODUAL_KEY, mod_level = APP_MOD_LEVEL_1,
    msg_body = \<lparr>message_id = APP_KEY_SET_MESSAGE c e, message_ptr = 0\<rparr>\<rparr>"
  obtain q' where q': "osMailPut_with_prio env (app_mailbox a) ?m (mod_level ?m) = Some q'"
    using M q unfolding mail_laws_def APP_MAILBOX_MAX_def by (metis (no_types, lifting) add_0 list.size(3) not_le not_None_eq)
  have "length (mails env q') = 1" "mails_taken env q' = mails_taken env (app_mailbox a)"
    using M q q' unfolding mail_laws_def by (metis add_0 list.size(3))+
  moreover have "set (mails env q') = {?m}" using put_set [OF M q'] q by simp
  ultimately have "mails env q' = [?m]" "mails_taken env q' = mails_taken env (app_mailbox a)"
    by (auto simp: length_Suc_conv)
  moreover have "key_event_process env c e a = Done (a\<lparr>key_event_cnt := key_event_cnt a + 1, app_mailbox := q'\<rparr>)"
    using n q' by (simp add: key_event_process_def app_mailbox_put_def)
  ultimately show ?thesis by (metis APP_MESSAGE_BLOCK.select_convs(1) is_key_def)
qed

lemma take:
  assumes M: "mail_laws env" and "mails env (app_mailbox a) = [m]"
  shows "\<exists>q'. app_mailbox_get env a = Some (m, a\<lparr>app_mailbox := q'\<rparr>) \<and> mails env q' = [] \<and>
    mails_taken env q' = mails_taken env (app_mailbox a) + 1"
proof (cases "osMailGet env (app_mailbox a)")
  case None
  then show ?thesis using M assms(2) unfolding mail_laws_def by auto
next
  case (Some x)
  then obtain m' q' where "osMailGet env (app_mailbox a) = Some (m', q')" by (cases x) auto
  then show ?thesis using M assms(2) unfolding mail_laws_def app_mailbox_get_def by fastforce
qed


lemma key_event_cnt_free: "key_event_cnt (app_mailbox_free env a) = key_event_cnt a"
  by (simp add: app_mailbox_free_def)

text \<open>Two key events, the second between the load and the store for the first: the counter falls below zero.\<close>

lemma race_reaches:
  assumes M: "mail_laws env" and R: "app_ready env a"
  shows "\<exists>a'. (app_step env)\<^sup>*\<^sup>* (a, None) (a', None) \<and> key_event_cnt a' = 255 \<and> key_deaf env (a', None)"
proof -
  have H: "handles_ok env b" if "key_list b = key_list a" "key_list_freed b = key_list_freed a"
    "app_key_handle_mempool b = app_key_handle_mempool a" for b
    using R handles_ok_cong(1) [OF that, of env] by (simp add: app_ready_def)
  obtain m1 q1 where 1: "key_event_process env 1 1 a = Done (a\<lparr>key_event_cnt := 1, app_mailbox := q1\<rparr>)" "is_key m1"
    "mails env q1 = [m1]" "mails_taken env q1 = 0"
    using arrive [OF M, of a 1 1] R by (auto simp: app_ready_def KEY_EVENT_CNT_LIMIT_def)
  let ?a1 = "a\<lparr>key_event_cnt := 1, app_mailbox := q1\<rparr>"
  obtain q2 where 2: "app_mailbox_get env ?a1 = Some (m1, ?a1\<lparr>app_mailbox := q2\<rparr>)" "mails env q2 = []" "mails_taken env q2 = 1"
    using take [OF M, of ?a1 m1] 1 by auto
  let ?a2 = "?a1\<lparr>app_mailbox := q2\<rparr>"
  obtain m3 q3 where 3: "key_event_process env 1 4 ?a2 = Done (?a2\<lparr>key_event_cnt := 2, app_mailbox := q3\<rparr>)" "is_key m3"
    "mails env q3 = [m3]" "mails_taken env q3 = 1"
    using arrive [OF M, of ?a2 1 4] 2 by (auto simp: KEY_EVENT_CNT_LIMIT_def)
  let ?a3 = "?a2\<lparr>key_event_cnt := 2, app_mailbox := q3\<rparr>"
  let ?b4 = "?a3\<lparr>key_event_cnt := 1 - 1\<rparr>"
  obtain c4 where 4: "key_dispatch env (msg_status (msg_body m1)) ?b4 = Done (?b4\<lparr>key_calls := c4\<rparr>)"
    using dispatch_lookup [OF H [of ?b4]] by simp
  let ?a4 = "app_mailbox_free env (?b4\<lparr>key_calls := c4\<rparr>)"
  have q4: "mails env (app_mailbox ?a4) = [m3]" "mails_taken env (app_mailbox ?a4) = 0" "key_event_cnt ?a4 = 0"
    using M 3 by (simp_all add: app_mailbox_free_def mail_laws_def)
  obtain q5 where 5: "app_mailbox_get env ?a4 = Some (m3, ?a4\<lparr>app_mailbox := q5\<rparr>)" "mails env q5 = []"
    using take [OF M q4(1)] by auto
  let ?a5 = "?a4\<lparr>app_mailbox := q5\<rparr>"
  let ?b6 = "?a5\<lparr>key_event_cnt := 0 - 1\<rparr>"
  obtain c6 where 6: "key_dispatch env (msg_status (msg_body m3)) ?b6 = Done (?b6\<lparr>key_calls := c6\<rparr>)"
    using dispatch_lookup [OF H [of ?b6]] by (auto simp: app_mailbox_free_def)
  let ?a6 = "app_mailbox_free env (?b6\<lparr>key_calls := c6\<rparr>)"
  have n: "key_event_cnt ?a2 = 1" "key_event_cnt ?a5 = 0" using q4(3) by simp_all
  have "app_step env (a, None) (?a1, None)" "app_step env (?a1, None) (?a2, Some (m1, 1))"
    "app_step env (?a2, Some (m1, 1)) (?a3, Some (m1, 1))" "app_step env (?a3, Some (m1, 1)) (?a4, None)"
    "app_step env (?a4, None) (?a5, Some (m3, 0))" "app_step env (?a5, Some (m3, 0)) (?a6, None)"
    by (rule app_step.irq [OF 1(1)] app_step.load [OF 2(1) 1(2), unfolded n] app_step.irq [OF 3(1)] app_step.store [OF 4]
      app_step.load [OF 5(1) 3(2), unfolded n] app_step.store [OF 6])+
  then have "(app_step env)\<^sup>*\<^sup>* (a, None) (?a6, None)" by (meson converse_rtranclp_into_rtranclp r_into_rtranclp)
  moreover have "key_event_cnt ?a6 = 255" by (simp add: app_mailbox_free_def)
  moreover have "key_deaf env (?a6, None)"
    using R M 5(2) by (simp add: key_deaf_def KEY_EVENT_CNT_LIMIT_def app_ready_def app_mailbox_free_def level_ok_def
        pend_def mail_laws_def)
  ultimately show ?thesis by blast
qed


section \<open>The events of one handler call\<close>

text \<open>The callbacks of \<open>hal_key_debounce_handler\<close> in order, all in the timer interrupt.\<close>

fun deliver :: "('l, 'q) app_env \<Rightarrow> (u32 \<times> u8) list \<Rightarrow> ('l, 'q) app \<Rightarrow> ('l, 'q) app app_res" where
  "deliver env [] a = Done a"
| "deliver env ((c, e) # xs) a =
     (case key_event_process env c e a of Fault \<Rightarrow> Fault | Halt \<Rightarrow> Halt | Done a' \<Rightarrow> deliver env xs a')"

definition event_status :: "u32 \<times> u8 \<Rightarrow> APP_KEY_STATUS" where
  "event_status x = \<lparr>st_code = fst x AND 0xffffff, st_event = snd x\<rparr>"

text \<open>With room in the mailbox, as many events as fit under the limit are queued, the rest are dropped.\<close>

lemma deliver_queues:
  assumes M: "mail_laws env" and "app_inv env a acc han"
    and "length (mails env (app_mailbox a)) + mails_taken env (app_mailbox a) + length xs \<le> 20"
  shows "\<exists>a'. deliver env xs a = Done a' \<and>
    app_inv env a' (acc @ map event_status (take (4 - length (pend env (app_mailbox a))) xs)) han"
  using assms(2,3)
proof (induction xs arbitrary: a acc)
  case Nil
  then show ?case by simp
next
  case (Cons x xs)
  obtain c e where x: "x = (c, e)" by fastforce
  let ?n = "length (pend env (app_mailbox a))"
  have n: "unat (key_event_cnt a) = ?n" "?n \<le> 4" using Cons.prems(1) by (simp_all add: app_inv_def unat_of_nat)
  show ?case
  proof (cases "KEY_EVENT_CNT_LIMIT < key_event_cnt a")
    case True
    then have "key_event_process env c e a = Done a" "?n = 4"
      using n by (auto simp: key_event_process_def KEY_EVENT_CNT_LIMIT_def word_less_nat_alt)
    then show ?thesis using Cons.IH [OF Cons.prems(1)] Cons.prems(2) by (simp add: x)
  next
    case False
    then have lt: "?n < 4" using n by (simp add: KEY_EVENT_CNT_LIMIT_def word_less_nat_alt)
    let ?m = "\<lparr>mod_id = APP_MODUAL_KEY, mod_level = APP_MOD_LEVEL_1,
      msg_body = \<lparr>message_id = APP_KEY_SET_MESSAGE c e, message_ptr = 0\<rparr>\<rparr>"
    obtain q where q: "osMailPut_with_prio env (app_mailbox a) ?m (mod_level ?m) = Some q"
    proof (cases "osMailPut_with_prio env (app_mailbox a) ?m (mod_level ?m)")
      case None
      then have "20 \<le> length (mails env (app_mailbox a)) + mails_taken env (app_mailbox a)"
        using M unfolding mail_laws_def APP_MAILBOX_MAX_def by blast
      then show ?thesis using Cons.prems(2) by simp
    qed blast
    let ?b = "a\<lparr>key_event_cnt := key_event_cnt a + 1, app_mailbox := q\<rparr>"
    have p: "key_event_process env c e a = Done ?b" using False q by (simp add: key_event_process_def app_mailbox_put_def)
    have l: "mails_taken env q = mails_taken env (app_mailbox a)" "length (mails env q) = length (mails env (app_mailbox a)) + 1"
      using M q unfolding mail_laws_def by blast+
    have I: "app_inv env ?b (acc @ [event_status x]) han"
      using event_inv [OF M Cons.prems(1) p] False by (simp add: x event_status_def)
    have "length (pend env q) = ?n + 1"
      using put_key(2) [OF M q] Cons.prems(1) by (simp add: app_inv_def is_key_def)
    then show ?thesis
      using Cons.IH [OF I] Cons.prems(2) l p lt by (simp add: x take_Cons' del: take_Suc_Cons)
  qed
qed

section \<open>A kernel and a list that satisfy the laws\<close>

type_synonym sim_queue = "APP_MESSAGE_BLOCK list \<times> nat"

definition sim_put :: "sim_queue \<Rightarrow> APP_MESSAGE_BLOCK \<Rightarrow> nat \<Rightarrow> sim_queue option" where
  "sim_put q m p =
     (if 20 \<le> length (fst q) + snd q then None
      else Some (filter (\<lambda>x. p \<le> mod_level x) (fst q) @ m # filter (\<lambda>x. mod_level x < p) (fst q), snd q))"

definition sim_env :: "(nat option list, sim_queue) app_env" where
  "sim_env = \<lparr>list_new = [], list_append = (\<lambda>l x. case x of None \<Rightarrow> l | Some i \<Rightarrow> l @ [x]), list_clear = (\<lambda>_. []),
     list_nodes = (\<lambda>l. l),
     osPoolCAlloc = (\<lambda>p. map_option fst (find (\<lambda>(i, x). x = None) (zip [0..<length p] p))),
     osMailPut_with_prio = sim_put,
     osMailGet = (\<lambda>q. case fst q of [] \<Rightarrow> None | m # ms \<Rightarrow> Some (m, ms, snd q + 1)),
     osMailFree = (\<lambda>q. (fst q, snd q - 1)), mails = fst, mails_taken = snd, APP_MODUAL_NUM = 22\<rparr>"

lemma sim_mail_laws: "mail_laws sim_env"
proof -
  have l: "filter (\<lambda>m. mod_level m = k) (filter (\<lambda>x. p \<le> mod_level x) ms @ m # filter (\<lambda>x. mod_level x < p) ms) =
      filter (\<lambda>m. mod_level m = k) ms @ (if k = p then [m] else [])" if "mod_level m = p" for k p m and ms :: "APP_MESSAGE_BLOCK list"
  proof (cases "p \<le> k")
    case True
    then have "filter (\<lambda>m. p \<le> mod_level m \<and> mod_level m = k) ms = filter (\<lambda>m. mod_level m = k) ms"
      "filter (\<lambda>m. mod_level m < p \<and> mod_level m = k) ms = []"
      by (auto simp: filter_empty_conv intro: filter_cong)
    then show ?thesis using that by (auto simp: conj_commute)
  next
    case False
    then have "filter (\<lambda>m. p \<le> mod_level m \<and> mod_level m = k) ms = []"
      "filter (\<lambda>m. mod_level m < p \<and> mod_level m = k) ms = filter (\<lambda>m. mod_level m = k) ms"
      by (auto simp: filter_empty_conv intro: filter_cong)
    then show ?thesis using that False by (auto simp: conj_commute)
  qed
  have n: "length (filter (\<lambda>x. p \<le> mod_level x) ms) + length (filter (\<lambda>x. mod_level x < p) ms) = length ms"
    for p and ms :: "APP_MESSAGE_BLOCK list"
    using sum_length_filter_compl [of "\<lambda>x. p \<le> mod_level x" ms] by (simp add: not_le)
  show ?thesis
    unfolding mail_laws_def
    by (auto simp: sim_env_def sim_put_def APP_MAILBOX_MAX_def level_mails_def l n simp del: filter_append filter.simps
        split: list.splits if_splits)
qed

lemma sim_pool_laws: "pool_laws sim_env"
proof -
  have "case osPoolCAlloc sim_env p of Some i \<Rightarrow> i < length p \<and> p ! i = None | None \<Rightarrow> None \<notin> set p" for p
  proof (cases "find (\<lambda>(i, x). x = None) (zip [0..<length p] p)")
    case None
    have "None \<notin> set p"
    proof
      assume "None \<in> set p"
      then obtain i where "i < length p" "p ! i = None" by (auto simp: in_set_conv_nth)
      then have "(i, None) \<in> set (zip [0..<length p] p)" by (auto simp: in_set_zip intro: exI [of _ i])
      then show False using None by (auto simp: find_None_iff)
    qed
    then show ?thesis using None by (simp add: sim_env_def)
  next
    case (Some y)
    then have "fst y < length p" "p ! fst y = None" by (auto simp: find_Some_iff case_prod_beta)
    then show ?thesis using Some by (simp add: sim_env_def)
  qed
  then show ?thesis unfolding pool_laws_def by (simp add: sim_env_def)
qed


definition sim_app :: "(nat option list, sim_queue) app" where
  "sim_app = \<lparr>key_list = Some [], key_list_freed = False, app_key_handle_mempool = replicate 20 None, key_event_cnt = 0,
     mod_handler = (\<lambda>i. if i = 0 then Some Key_Process else None), app_mailbox = ([], 0), key_calls = [], other_calls = []\<rparr>"

lemma sim_handles_ok: "handles_ok sim_env sim_app"
  by (auto simp: handles_ok_def used_def sim_env_def sim_app_def)

lemma sim_ready: "app_ready sim_env sim_app"
  unfolding app_ready_def using sim_handles_ok by (simp add: sim_env_def sim_app_def APP_MODUAL_KEY_def)

definition sim_handle :: APP_KEY_HANDLE where
  "sim_handle = \<lparr>handle_status = \<lparr>st_code = 1, st_event = 8\<rparr>, handle_string = None, handle_function = Some 5, handle_param = None\<rparr>"

definition sim_hw :: key_hw where
  "sim_hw = \<lparr>hw_time = 4000, hw_timer = sys_timer_init, hal_pwrkey_pressed = False, hal_gpio_pin_get_val = (\<lambda>_. 1)\<rparr>"

section \<open>Properties\<close>

text \<open>
  C21: \<open>app_key_handle_registration\<close> maintains a finite map from key statuses to handles: it succeeds exactly if the
  status is known or the pool has a free block, and then only that status gets the new handle; else nothing
  registered changes. A key message calls the function of the handle registered for its code and event.
\<close>

theorem registration_is_map:
  assumes "pool_laws env" and "handles_ok env a"
  shows "(\<exists>r a'. app_key_handle_registration env h a = Done (r, a') \<and> handles_ok env a' \<and>
      (if app_lookup env a (handle_status h) \<noteq> None \<or> None \<in> set (app_key_handle_mempool a)
       then r = 0 \<and> app_lookup env a' = (app_lookup env a)(handle_status h \<mapsto> h)
       else r = -1 \<and> app_lookup env a' = app_lookup env a)) \<and>
    app_key_handle_process env \<lparr>message_id = APP_KEY_SET_MESSAGE c e, message_ptr = p\<rparr> a =
      (let st = \<lparr>st_code = c AND 0xffffff, st_event = e\<rparr>
       in Done (a\<lparr>key_event_cnt := key_event_cnt a - 1, key_calls := called st (app_lookup env a st) @ key_calls a\<rparr>))"
proof -
  let ?b = "a\<lparr>key_event_cnt := key_event_cnt a - 1\<rparr>"
  have b: "handles_ok env ?b" "app_lookup env ?b st = app_lookup env a st" for st
    using assms(2) handles_ok_cong [of ?b a env] by simp_all
  show ?thesis
    using registration_map [OF assms, of h]
    by (simp add: app_key_handle_process_def message_status dispatch_lookup [OF b(1)] b(2) Let_def)
qed

theorem registration_is_map_witness:
  "\<exists>a'. app_key_handle_registration sim_env sim_handle sim_app = Done (0, a') \<and>
     app_lookup sim_env a' \<lparr>st_code = 1, st_event = 8\<rparr> = Some sim_handle"
proof -
  have n: "None \<in> set (app_key_handle_mempool sim_app)" "handle_status sim_handle = \<lparr>st_code = 1, st_event = 8\<rparr>"
    by (simp_all add: sim_app_def sim_handle_def)
  obtain r a' where "app_key_handle_registration sim_env sim_handle sim_app = Done (r, a')" "r = 0"
    "app_lookup sim_env a' = (app_lookup sim_env sim_app)(handle_status sim_handle \<mapsto> sim_handle)"
    using registration_is_map [OF sim_pool_laws sim_handles_ok, of sim_handle 1 8 0] n(1) by auto
  then show ?thesis by (simp add: n(2))
qed

text \<open>
  C20: when no interrupt falls between the load and the store of the counter, \<open>key_event_cnt\<close> is the number of key
  messages in the mailbox, at most four; the accepted key events are handled in their order, each exactly once, and an
  event is dropped exactly when four are pending.
\<close>

theorem app_trace_ordered:
  assumes "mail_laws env" and "pool_laws env" and "app_trace env a acc han"
  shows "key_event_cnt a = of_nat (length (pend env (app_mailbox a))) \<and> length (pend env (app_mailbox a)) \<le> 4 \<and>
    acc = han @ map (\<lambda>m. msg_status (msg_body m)) (pend env (app_mailbox a)) \<and>
    (key_event_process env c e a = Done a \<longleftrightarrow> length (pend env (app_mailbox a)) = 4)"
proof -
  note I = app_trace_inv [OF assms(3,1,2), unfolded app_inv_def]
  let ?n = "length (pend env (app_mailbox a))"
  have n: "unat (key_event_cnt a) = ?n" using I by (simp add: unat_of_nat)
  have "key_event_process env c e a = Done a \<longleftrightarrow> KEY_EVENT_CNT_LIMIT < key_event_cnt a"
    by (auto simp: key_event_process_def app_mailbox_put_def split: option.splits dest: arg_cong [where f = key_event_cnt])
  also have "\<dots> \<longleftrightarrow> ?n = 4" using n I by (auto simp: KEY_EVENT_CNT_LIMIT_def word_less_nat_alt)
  finally show ?thesis using I by blast
qed

theorem app_trace_ordered_witness:
  "\<exists>a'. key_event_process sim_env 1 8 sim_app = Done a' \<and> key_event_cnt a' = 1 \<and>
     map (\<lambda>m. msg_status (msg_body m)) (pend sim_env (app_mailbox a')) = [\<lparr>st_code = 1, st_event = 8\<rparr>]"
proof -
  have n: "\<not> KEY_EVENT_CNT_LIMIT < key_event_cnt sim_app" "key_event_cnt sim_app = 0"
    by (simp_all add: sim_app_def KEY_EVENT_CNT_LIMIT_def)
  have "mails sim_env (app_mailbox sim_app) = []" "mails_taken sim_env (app_mailbox sim_app) < 20"
    by (simp_all add: sim_env_def sim_app_def)
  from arrive [OF sim_mail_laws this n(1), of 1 8] obtain a' where a': "key_event_process sim_env 1 8 sim_app = Done a'"
    "key_event_cnt a' = 1" by (auto simp: n(2))
  from app_trace_ordered [OF sim_mail_laws sim_pool_laws app_trace.event [OF app_trace.start [OF sim_ready] a'(1)]]
  show ?thesis using a' n(1) by auto
qed

text \<open>
  C22: the counter is not protected against the timer interrupt. From every state after opening, two key events of
  which the second arrives between the load and the store for the first lead to a state with no key message
  pending and the counter at 255, and from then on, whatever happens, every key event is dropped.
\<close>

theorem key_counter_race:
  assumes "mail_laws env" and "app_ready env a"
  shows "\<exists>a'. (app_step env)\<^sup>*\<^sup>* (a, None) (a', None) \<and> key_event_cnt a' = 255 \<and> pend env (app_mailbox a') = [] \<and>
    (\<forall>b r c e. (app_step env)\<^sup>*\<^sup>* (a', None) (b, r) \<longrightarrow> key_event_process env c e b = Done b)"
proof -
  obtain a' where a': "(app_step env)\<^sup>*\<^sup>* (a, None) (a', None)" "key_event_cnt a' = 255" "key_deaf env (a', None)"
    using race_reaches [OF assms] by blast
  have "key_event_process env c e b = Done b" if "(app_step env)\<^sup>*\<^sup>* (a', None) (b, r)" for b r c e
    using key_deaf_run [OF assms(1) that a'(3)] by (simp add: key_deaf_def key_event_process_def)
  then show ?thesis using a' by (auto simp: key_deaf_def)
qed

theorem key_counter_race_witness:
  "\<exists>a'. (app_step sim_env)\<^sup>*\<^sup>* (sim_app, None) (a', None) \<and> key_event_cnt a' = 255"
  using key_counter_race [OF sim_mail_laws sim_ready] by blast

text \<open>
  C23: \<open>app_key_close\<close> leaves the address of the freed list and the counter behind: a key message taken after it is
  discarded without counting it down, and after the next \<open>app_key_open\<close> every lookup uses the freed list.
\<close>

theorem close_leaves_list:
  assumes "key_list a = Some l" and "APP_MODUAL_KEY < APP_MODUAL_NUM env" and "is_key m"
    and "app_key_close env cfg (a, s) = Done (a1, s1)" and "app_key_open env cfg check startup hw (a1, s2) = (r, a2, s3)"
  shows "app_handle env m a1 = Done a1 \<and> key_event_cnt a2 = key_event_cnt a \<and> app_key_handle_find env st a2 = Fault"
  using assms
  by (auto simp: app_key_close_def app_key_open_def app_set_threadhandle_def app_handle_def is_key_def app_key_handle_find_def
      Let_def case_prod_beta split: if_splits)

theorem close_leaves_list_witness:
  "\<exists>a1 s1. app_key_close sim_env [] (sim_app, hal_key_init) = Done (a1, s1) \<and>
     app_key_handle_find sim_env \<lparr>st_code = 1, st_event = 8\<rparr> (fst (snd (app_key_open sim_env [] False [] sim_hw (a1, s1)))) = Fault"
proof -
  obtain a1 s1 where 1: "app_key_close sim_env [] (sim_app, hal_key_init) = Done (a1, s1)"
    by (simp add: app_key_close_def sim_app_def Let_def)
  obtain r a2 s3 where 2: "app_key_open sim_env [] False [] sim_hw (a1, s1) = (r, a2, s3)" by (metis prod_cases3)
  show ?thesis
    using close_leaves_list [OF _ _ _ 1 2, of "[]" "\<lparr>mod_id = 0, mod_level = 1, msg_body = \<lparr>message_id = 0, message_ptr = 0\<rparr>\<rparr>"
        "\<lparr>st_code = 1, st_event = 8\<rparr>"] 1 2
    by (simp add: sim_app_def sim_env_def is_key_def APP_MODUAL_KEY_def)
qed

end
