(* ===== verification/FactorySection.thy ===== *)
theory FactorySection
  imports NvFlush
begin

text \<open>
  The factory sector of the flash: names, addresses and the crystal trim that the production line writes. Two
  files work on it, each with its own state: \<open>src/apps/nv_section/factory_section/factory_section.c\<close>, through the
  struct \<open>factory_section_t\<close>, and the functions \<open>nvrec_dev\<close> of \<open>src/apps/nv_section/userdata_section/nvrecord_bt.c\<close>,
  through an array of 32-bit words. The sector is modelled as its 4096 bytes, so that a copy which leaves its field
  is visible.

  Not part of the sources, hence parameters in the record \<open>factory_env\<close>: the flash driver (called here without
  queueing), the checksum, the random numbers of the C library, and the names and addresses of the Bluetooth stack.
\<close>

named_theorems factory_defs \<open>layout and constants of the factory sector\<close>

section \<open>Layout\<close>

definition FACTORY_SECTOR_SIZE :: nat where
  [factory_defs]: "FACTORY_SECTOR_SIZE = 0x1000"

definition nvrec_mini_version :: u16 where
  [factory_defs]: "nvrec_mini_version = 1"

definition nvrec_dev_magic :: u16 where
  [factory_defs]: "nvrec_dev_magic = 0xba80"

definition nvrec_current_version :: u16 where
  [factory_defs]: "nvrec_current_version = 2"

definition NV_ROLE_IBRT_MASTER :: u8 where
  [factory_defs]: "NV_ROLE_IBRT_MASTER = 0"

definition NV_ROLE_IBRT_SLAVE :: u8 where
  [factory_defs]: "NV_ROLE_IBRT_SLAVE = 1"

definition NV_ROLE_IBRT_UNKNOWN :: u8 where
  [factory_defs]: "NV_ROLE_IBRT_UNKNOWN = 0xff"

text \<open>The fields of \<open>section_head_t\<close> and \<open>factory_section_data_t\<close>, with their offsets and sizes.\<close>

datatype section_head_t = magic | version | crc | reserved0 | reserved1

fun head_offset :: "section_head_t \<Rightarrow> nat" where
  "head_offset magic = 0"
| "head_offset version = 2"
| "head_offset crc = 4"
| "head_offset reserved0 = 8"
| "head_offset reserved1 = 12"

datatype factory_section_data_t =
    device_name | bt_address | ble_address | default_peer_bt_address | xtal_fcap
  | rev1_data_len | rev2_data_len | rev2_crc | rev2_reserved0 | rev2_reserved1
  | rev2_bt_name | rev2_bt_addr | rev2_ble_addr | rev2_default_peer_bt_address
  | rev2_u8_reserved0 | rev2_default_bt_nv_role | rev2_xtal_fcap | rev2_ble_name

fun data_offset :: "factory_section_data_t \<Rightarrow> nat" where
  "data_offset device_name = 16"
| "data_offset bt_address = 268"
| "data_offset ble_address = 276"
| "data_offset default_peer_bt_address = 284"
| "data_offset xtal_fcap = 292"
| "data_offset rev1_data_len = 296"
| "data_offset rev2_data_len = 300"
| "data_offset rev2_crc = 304"
| "data_offset rev2_reserved0 = 308"
| "data_offset rev2_reserved1 = 312"
| "data_offset rev2_bt_name = 316"
| "data_offset rev2_bt_addr = 568"
| "data_offset rev2_ble_addr = 576"
| "data_offset rev2_default_peer_bt_address = 584"
| "data_offset rev2_u8_reserved0 = 590"
| "data_offset rev2_default_bt_nv_role = 591"
| "data_offset rev2_xtal_fcap = 592"
| "data_offset rev2_ble_name = 596"

fun data_size :: "factory_section_data_t \<Rightarrow> nat" where
  "data_size device_name = 248 + 1"
| "data_size bt_address = 8"
| "data_size ble_address = 8"
| "data_size default_peer_bt_address = 8"
| "data_size rev2_bt_name = 63 * 4"
| "data_size rev2_bt_addr = 2 * 4"
| "data_size rev2_ble_addr = 2 * 4"
| "data_size rev2_default_peer_bt_address = 6"
| "data_size rev2_u8_reserved0 = 1"
| "data_size rev2_default_bt_nv_role = 1"
| "data_size rev2_ble_name = 8 * 4"
| "data_size f = 4"

text \<open>\<open>sizeof(factory_section_t)\<close>\<close>

definition factory_section_size :: u32 where
  [factory_defs]: "factory_section_size = 628"

section \<open>Memory\<close>

text \<open>An access outside the memory it is meant for faults, an assertion stops the program.\<close>

datatype 'a fs_res = FsFault | FsAssert | FsRet 'a

fun fs_bind :: "'a fs_res \<Rightarrow> ('a \<Rightarrow> 'b fs_res) \<Rightarrow> 'b fs_res" where
  "fs_bind FsFault f = FsFault"
| "fs_bind FsAssert f = FsAssert"
| "fs_bind (FsRet x) f = f x"

definition bytes_at :: "nat \<Rightarrow> nat \<Rightarrow> bytes \<Rightarrow> bytes" where
  "bytes_at off n m = take n (drop off m)"

definition put_bytes :: "nat \<Rightarrow> bytes \<Rightarrow> bytes \<Rightarrow> bytes" where
  "put_bytes off bs m = take off m @ bs @ drop (off + length bs) m"

text \<open>\<^verbatim>\<open>memcpy(m + off, src, n)\<close>\<close>

definition fs_memcpy :: "nat \<Rightarrow> bytes \<Rightarrow> nat \<Rightarrow> bytes \<Rightarrow> bytes fs_res" where
  "fs_memcpy off src n m =
     (if n \<le> length src \<and> off + n \<le> length m then FsRet (put_bytes off (take n src) m) else FsFault)"

text \<open>The length of the C string at an offset; without a zero the search leaves the sector.\<close>

definition fs_strlen :: "nat \<Rightarrow> bytes \<Rightarrow> nat fs_res" where
  "fs_strlen off m =
     (if 0 \<in> set (drop off m) then FsRet (length (takeWhile (\<lambda>b. b \<noteq> 0) (drop off m))) else FsFault)"

text \<open>
  The driver's calls for \<open>NORFLASH_API_MODULE_ID_FACTORY\<close> take the address and always the whole sector;
  \<open>fs_mapped\<close> is the sector read at \<open>__factory_start\<close>. \<open>rand_nth seed n\<close> is the \<open>n\<close>-th number that \<open>rand\<close> returns after
  \<open>srand(seed)\<close>. Names of the stack are the bytes before the terminating zero, \<open>bt_get_ble_local_name\<close> what can be read there;
  \<open>store_local_address\<close> and \<open>store_ble_local_address\<close> write through the pointers of \<open>bt_get_local_address\<close> and \<open>bt_get_ble_local_address\<close>.
\<close>

datatype name_ptr = In_Sector nat | Elsewhere nat

record ('f, 'b) factory_env =
  fs_crc32_c :: "bytes \<Rightarrow> u32"
  fs_register :: "'f \<Rightarrow> NORFLASH_API_RET_T \<times> 'f"
  fs_erase :: "u32 \<Rightarrow> 'f \<Rightarrow> NORFLASH_API_RET_T \<times> 'f"
  fs_write :: "u32 \<Rightarrow> bytes \<Rightarrow> 'f \<Rightarrow> NORFLASH_API_RET_T \<times> 'f"
  fs_flush_all :: "'f \<Rightarrow> 'f"
  fs_mapped :: "'f \<Rightarrow> bytes"
  factory_start :: u32
  rand_nth :: "u32 \<Rightarrow> nat \<Rightarrow> u32"
  BT_LOCAL_NAME :: nat
  BLE_DEFAULT_NAME :: nat
  bt_get_local_name :: "'b \<Rightarrow> bytes"
  bt_get_ble_local_name :: "'b \<Rightarrow> bytes"
  bt_set_local_name :: "bytes \<Rightarrow> 'b \<Rightarrow> 'b"
  bt_set_local_address :: "bytes \<Rightarrow> 'b \<Rightarrow> 'b"
  bt_set_ble_local_name :: "name_ptr \<Rightarrow> 'b \<Rightarrow> 'b"
  bt_set_ble_local_address :: "bytes \<Rightarrow> 'b \<Rightarrow> 'b"
  store_local_address :: "bytes \<Rightarrow> 'b \<Rightarrow> 'b"
  store_ble_local_address :: "bytes \<Rightarrow> 'b \<Rightarrow> 'b"

text \<open>
  The static variables of both files; \<open>bt_dev_rev\<close> is the variable \<open>nv_record_dev_rev\<close> of \<open>nvrecord_bt.c\<close>, which has the name of a
  static variable of the other file.
\<close>

record ('f, 'b) factory =
  fs_flash :: 'f
  factory_section_p :: bool
  nv_record_dev_rev :: u8
  bt_global_addr :: bytes
  ble_global_addr :: bytes
  dev_sector_valid :: bool
  bt_dev_rev :: u8
  classics_bt_name :: bytes
  bt_stack :: 'b

definition fs_sector :: "('f, 'b) factory_env \<Rightarrow> ('f, 'b) factory \<Rightarrow> bytes" where
  "fs_sector env s = fs_mapped env (fs_flash s)"

definition crc_at :: "('f, 'b) factory_env \<Rightarrow> nat \<Rightarrow> u32 \<Rightarrow> bytes \<Rightarrow> u32 fs_res" where
  "crc_at env off len m =
     (if off + unat len \<le> length m then FsRet (fs_crc32_c env (bytes_at off (unat len) m)) else FsFault)"

text \<open>Erase and write of the sector, each checked by an assertion.\<close>

definition factory_store :: "('f, 'b) factory_env \<Rightarrow> u32 \<Rightarrow> bytes \<Rightarrow> ('f, 'b) factory \<Rightarrow> ('f, 'b) factory fs_res" where
  "factory_store env start buf s =
     (let (ret, f) = fs_erase env start (fs_flash s) in
      if ret \<noteq> NORFLASH_API_OK then FsAssert
      else let (ret, f) = fs_write env start buf f in
        if ret \<noteq> NORFLASH_API_OK then FsAssert else FsRet (s\<lparr>fs_flash := f\<rparr>))"

section \<open>The functions of \<open>factory_section.c\<close>\<close>

definition factory_section_init :: "('f, 'b) factory_env \<Rightarrow> ('f, 'b) factory \<Rightarrow> ('f, 'b) factory fs_res" where
  "factory_section_init env s =
     (let (result, f) = fs_register env (fs_flash s) in
      if result = NORFLASH_API_OK then FsRet (s\<lparr>fs_flash := f\<rparr>) else FsAssert)"

text \<open>
  The checksum of a revision 1 sector covers its first part only. In the branch of a length that does not fit
  the pointer stays set; the comparison is made at 32 bits.
\<close>

definition factory_section_open :: "('f, 'b) factory_env \<Rightarrow> ('f, 'b) factory \<Rightarrow> (int \<times> ('f, 'b) factory) fs_res" where
  "factory_section_open env s =
     (let p = fs_sector env s; s = s\<lparr>factory_section_p := True\<rparr>; ver = get16 p (head_offset version) in
      if get16 p (head_offset magic) \<noteq> nvrec_dev_magic then FsRet (-1, s\<lparr>factory_section_p := False\<rparr>)
      else if ver < nvrec_mini_version \<or> nvrec_current_version < ver then FsRet (-1, s\<lparr>factory_section_p := False\<rparr>)
      else let s = s\<lparr>nv_record_dev_rev := ucast ver\<rparr> in
        if nv_record_dev_rev s = 1
        then fs_bind (crc_at env (head_offset reserved0) (factory_section_size - 2 - 2 - 4 - (5 + 63 + 2 + 2 + 2 + 1 + 8) * 4) p)
          (\<lambda>c. if get32 p (head_offset crc) \<noteq> c then FsRet (-1, s\<lparr>factory_section_p := False\<rparr>)
               else FsRet (0, s\<lparr>bt_global_addr := bytes_at (data_offset bt_address) 6 p,
                               ble_global_addr := bytes_at (data_offset ble_address) 6 p\<rparr>))
        else if 4096 < of_nat (data_offset rev2_reserved0) + get32 p (data_offset rev2_data_len) then FsRet (-1, s)
        else fs_bind (crc_at env (data_offset rev2_reserved0) (get32 p (data_offset rev2_data_len)) p)
          (\<lambda>c. if get32 p (data_offset rev2_crc) \<noteq> c then FsRet (-1, s\<lparr>factory_section_p := False\<rparr>)
               else FsRet (0, s\<lparr>bt_global_addr := bytes_at (data_offset rev2_bt_addr) 6 p,
                               ble_global_addr := bytes_at (data_offset rev2_ble_addr) 6 p\<rparr>)))"

text \<open>A pointer into the sector is its offset, \<open>None\<close> the null pointer.\<close>

definition factory_section_get_bt_address :: "('f, 'b) factory \<Rightarrow> nat option" where
  "factory_section_get_bt_address s =
     (if factory_section_p s
      then Some (if nv_record_dev_rev s = 1 then data_offset bt_address else data_offset rev2_bt_addr) else None)"

definition factory_section_get_ble_address :: "('f, 'b) factory \<Rightarrow> nat option" where
  "factory_section_get_ble_address s =
     (if factory_section_p s
      then Some (if nv_record_dev_rev s = 1 then data_offset ble_address else data_offset rev2_ble_addr) else None)"

definition factory_section_get_default_peer_bt_address :: "('f, 'b) factory \<Rightarrow> nat option" where
  "factory_section_get_default_peer_bt_address s =
     (if factory_section_p s
      then Some (if nv_record_dev_rev s = 1 then data_offset default_peer_bt_address
                 else data_offset rev2_default_peer_bt_address) else None)"

definition factory_section_get_default_bt_nv_role :: "('f, 'b) factory_env \<Rightarrow> ('f, 'b) factory \<Rightarrow> u8" where
  "factory_section_get_default_bt_nv_role env s =
     (if factory_section_p s \<and> nv_record_dev_rev s \<noteq> 1
      then let bt_nv_role = fs_sector env s ! data_offset rev2_default_bt_nv_role in
        if bt_nv_role \<noteq> NV_ROLE_IBRT_MASTER \<and> bt_nv_role \<noteq> NV_ROLE_IBRT_SLAVE then NV_ROLE_IBRT_UNKNOWN else bt_nv_role
      else NV_ROLE_IBRT_UNKNOWN)"

text \<open>The checksums that the setters store: the whole struct in revision 1, the stored length in revision 2.\<close>

definition set_head_crc :: "('f, 'b) factory_env \<Rightarrow> bytes \<Rightarrow> bytes fs_res" where
  "set_head_crc env m =
     fs_bind (crc_at env (head_offset reserved0) (factory_section_size - 2 - 2 - 4) m)
       (\<lambda>c. FsRet (put_bytes (head_offset crc) (le32 c) m))"

definition set_rev2_crc :: "('f, 'b) factory_env \<Rightarrow> u32 \<Rightarrow> bytes \<Rightarrow> bytes fs_res" where
  "set_rev2_crc env len m =
     fs_bind (crc_at env (data_offset rev2_reserved0) len m)
       (\<lambda>c. FsRet (put_bytes (data_offset rev2_crc) (le32 c) m))"

text \<open>The driver gets the address without its upper byte.\<close>

definition factory_commit :: "('f, 'b) factory_env \<Rightarrow> bytes fs_res \<Rightarrow> ('f, 'b) factory \<Rightarrow> (int \<times> ('f, 'b) factory) fs_res" where
  "factory_commit env buf s =
     fs_bind buf (\<lambda>m. fs_bind (factory_store env (factory_start env AND 0x00FFFFFF) m s) (\<lambda>s. FsRet (0, s)))"

definition factory_section_set_bt_address ::
    "('f, 'b) factory_env \<Rightarrow> bytes \<Rightarrow> ('f, 'b) factory \<Rightarrow> (int \<times> ('f, 'b) factory) fs_res" where
  "factory_section_set_bt_address env btAddr s =
     (let p = fs_sector env s in
      if factory_section_p s
      then factory_commit env
        (if nv_record_dev_rev s = 1
         then fs_bind (fs_memcpy (data_offset bt_address) btAddr 6 p) (set_head_crc env)
         else fs_bind (fs_memcpy (data_offset rev2_bt_addr) btAddr 6 p)
                (set_rev2_crc env (get32 p (data_offset rev2_data_len)))) s
      else FsRet (-1, s))"

definition factory_section_set_ble_address ::
    "('f, 'b) factory_env \<Rightarrow> bytes \<Rightarrow> ('f, 'b) factory \<Rightarrow> (int \<times> ('f, 'b) factory) fs_res" where
  "factory_section_set_ble_address env bleAddr s =
     (let p = fs_sector env s in
      if factory_section_p s
      then factory_commit env
        (if nv_record_dev_rev s = 1
         then fs_bind (fs_memcpy (data_offset ble_address) bleAddr 6 p) (set_head_crc env)
         else fs_bind (fs_memcpy (data_offset rev2_ble_addr) bleAddr 6 p)
                (set_rev2_crc env (get32 p (data_offset rev2_data_len)))) s
      else FsRet (-1, s))"

definition factory_section_get_bt_name :: "('f, 'b) factory_env \<Rightarrow> ('f, 'b) factory \<Rightarrow> name_ptr" where
  "factory_section_get_bt_name env s =
     (if factory_section_p s
      then In_Sector (if nv_record_dev_rev s = 1 then data_offset device_name else data_offset rev2_bt_name)
      else Elsewhere (BT_LOCAL_NAME env))"

text \<open>The signed length becomes the unsigned one of \<open>memcpy\<close>; nothing compares it with the field.\<close>

definition factory_section_set_bt_name ::
    "('f, 'b) factory_env \<Rightarrow> bytes \<Rightarrow> int \<Rightarrow> ('f, 'b) factory \<Rightarrow> (int \<times> ('f, 'b) factory) fs_res" where
  "factory_section_set_bt_name env name len s =
     (let p = fs_sector env s; n = unat (word_of_int len :: u32) in
      if factory_section_p s
      then factory_commit env
        (if nv_record_dev_rev s = 1
         then fs_bind (fs_memcpy (data_offset device_name) name n p) (set_head_crc env)
         else fs_bind (fs_memcpy (data_offset rev2_bt_name) name n p)
                (\<lambda>m. set_rev2_crc env (get32 m (data_offset rev2_data_len)) m)) s
      else FsRet (-1, s))"

definition factory_section_get_ble_name :: "('f, 'b) factory_env \<Rightarrow> ('f, 'b) factory \<Rightarrow> name_ptr" where
  "factory_section_get_ble_name env s =
     (if factory_section_p s
      then if nv_record_dev_rev s = 1 then Elsewhere (BLE_DEFAULT_NAME env) else In_Sector (data_offset rev2_ble_name)
      else Elsewhere (BLE_DEFAULT_NAME env))"

definition factory_section_get_version :: "('f, 'b) factory \<Rightarrow> u32" where
  "factory_section_get_version s = (if factory_section_p s then ucast (nv_record_dev_rev s) else 0)"

text \<open>The second component is the value stored through the pointer.\<close>

definition factory_section_xtal_fcap_get :: "('f, 'b) factory_env \<Rightarrow> ('f, 'b) factory \<Rightarrow> int \<times> u32 option" where
  "factory_section_xtal_fcap_get env s =
     (if factory_section_p s
      then (0, Some (get32 (fs_sector env s)
              (if nv_record_dev_rev s = 1 then data_offset xtal_fcap else data_offset rev2_xtal_fcap)))
      else (-1, None))"

definition factory_section_xtal_fcap_set ::
    "('f, 'b) factory_env \<Rightarrow> u32 \<Rightarrow> ('f, 'b) factory \<Rightarrow> (int \<times> ('f, 'b) factory) fs_res" where
  "factory_section_xtal_fcap_set env v s =
     (let p = fs_sector env s in
      if factory_section_p s
      then factory_commit env
        (if nv_record_dev_rev s = 1 then set_head_crc env (put_bytes (data_offset xtal_fcap) (le32 v) p)
         else set_rev2_crc env (get32 p (data_offset rev2_data_len)) (put_bytes (data_offset rev2_xtal_fcap) (le32 v) p)) s
      else FsRet (-1, s))"

definition factory_section_original_btaddr_get :: "('f, 'b) factory_env \<Rightarrow> ('f, 'b) factory \<Rightarrow> bytes" where
  "factory_section_original_btaddr_get env s =
     (if factory_section_p s
      then bytes_at (if nv_record_dev_rev s = 1 then data_offset bt_address else data_offset rev2_bt_addr) 6 (fs_sector env s)
      else bt_global_addr s)"

end
