(* ===== verification/NvFactory.thy ===== *)
theory NvFactory
  imports FactorySection
begin

text \<open>
  The functions \<open>nvrec_dev\<close> at the end of \<open>src/apps/nv_section/userdata_section/nvrecord_bt.c\<close>: the same factory sector as an
  array of 32-bit words, with indices named by two enumerations of \<open>nvrecord_bt.h\<close>.
\<close>

section \<open>Indices\<close>

definition NVREC_DEV_NEWEST_REV :: u8 where
  [factory_defs]: "NVREC_DEV_NEWEST_REV = 2"

definition NVREC_DEV_VERSION_1 :: u8 where
  [factory_defs]: "NVREC_DEV_VERSION_1 = 1"

definition BLE_NAME_LEN_IN_NV :: nat where
  [factory_defs]: "BLE_NAME_LEN_IN_NV = 32"

definition CLASSIC_BTNAME_LEN :: nat where
  [factory_defs]: "CLASSIC_BTNAME_LEN = BLE_NAME_LEN_IN_NV - 5"

definition BTIF_BD_ADDR_SIZE :: nat where
  [factory_defs]: "BTIF_BD_ADDR_SIZE = 6"

datatype nvrec_dev_enum =
    dev_version_and_magic | dev_crc | dev_reserv1 | dev_reserv2 | dev_name
  | dev_bt_addr | dev_ble_addr | dev_dongle_addr | dev_xtal_fcap | dev_data_len

fun dev_index :: "nvrec_dev_enum \<Rightarrow> nat" where
  "dev_index dev_version_and_magic = 0"
| "dev_index dev_crc = 1"
| "dev_index dev_reserv1 = 2"
| "dev_index dev_reserv2 = 3"
| "dev_index dev_name = 4"
| "dev_index dev_bt_addr = 67"
| "dev_index dev_ble_addr = 69"
| "dev_index dev_dongle_addr = 71"
| "dev_index dev_xtal_fcap = 73"
| "dev_index dev_data_len = 74"

datatype nvrec_dev_rev_2_enum =
    rev2_dev_data_len | rev2_dev_crc | rev2_dev_section_start_reserved | rev2_dev_reserv2 | rev2_dev_name
  | rev2_dev_bt_addr | rev2_dev_ble_addr | rev2_dev_dongle_addr | rev2_dev_xtal_fcap | rev2_dev_ble_name
  | rev2_dev_section_end

fun rev2_index :: "nvrec_dev_rev_2_enum \<Rightarrow> nat" where
  "rev2_index rev2_dev_data_len = 75"
| "rev2_index rev2_dev_crc = 76"
| "rev2_index rev2_dev_section_start_reserved = 77"
| "rev2_index rev2_dev_reserv2 = 78"
| "rev2_index rev2_dev_name = 79"
| "rev2_index rev2_dev_bt_addr = 142"
| "rev2_index rev2_dev_ble_addr = 144"
| "rev2_index rev2_dev_dongle_addr = 146"
| "rev2_index rev2_dev_xtal_fcap = 148"
| "rev2_index rev2_dev_ble_name = 149"
| "rev2_index rev2_dev_section_end = 157"

text \<open>\<^verbatim>\<open>m[i]\<close> and \<^verbatim>\<open>m[i] = w\<close> for an array of words\<close>

definition word_at :: "bytes \<Rightarrow> nat \<Rightarrow> u32" where
  "word_at m i = get32 m (4 * i)"

definition put_word :: "nat \<Rightarrow> u32 \<Rightarrow> bytes \<Rightarrow> bytes" where
  "put_word i w m = put_bytes (4 * i) (le32 w) m"

section \<open>Opening and reading\<close>

text \<open>There is no lower bound on the version, and a wrong checksum does not reset \<open>dev_sector_valid\<close>.\<close>

definition nvrec_dev_data_open :: "('f, 'b) factory_env \<Rightarrow> ('f, 'b) factory \<Rightarrow> (bool \<times> ('f, 'b) factory) fs_res" where
  "nvrec_dev_data_open env s =
     (let p = fs_sector env s; vermagic = word_at p (dev_index dev_version_and_magic) in
      if ucast nvrec_dev_magic \<noteq> vermagic AND 0xFFFF \<or> ucast NVREC_DEV_NEWEST_REV < drop_bit 16 vermagic
      then FsRet (False, s\<lparr>dev_sector_valid := False\<rparr>)
      else let s = s\<lparr>bt_dev_rev := ucast (drop_bit 16 vermagic)\<rparr>;
               check = (\<lambda>flash_crc c. let s = (if flash_crc = c then s\<lparr>dev_sector_valid := True\<rparr> else s)
                                      in FsRet (dev_sector_valid s, s)) in
        if bt_dev_rev s = NVREC_DEV_VERSION_1
        then fs_bind (crc_at env (4 * dev_index dev_reserv1) (of_nat ((dev_index dev_data_len - dev_index dev_reserv1) * 4)) p)
               (check (word_at p (dev_index dev_crc)))
        else let len = word_at p (rev2_index rev2_dev_data_len) in
          if 4096 < of_nat (rev2_index rev2_dev_section_start_reserved * 4) + len
          then FsRet (False, s\<lparr>dev_sector_valid := False\<rparr>)
          else fs_bind (crc_at env (4 * rev2_index rev2_dev_section_start_reserved) len p)
                 (check (word_at p (rev2_index rev2_dev_crc))))"

text \<open>The caller's structure: two buffers of an address and two pointers.\<close>

record dev_addr_name =
  btd_addr :: bytes
  ble_addr :: bytes
  localname :: name_ptr
  ble_name :: name_ptr

text \<open>A name that does not fit is cut, and always ends with a zero.\<close>

definition nvrec_dev_localname_addr_init ::
    "('f, 'b) factory_env \<Rightarrow> dev_addr_name \<Rightarrow> ('f, 'b) factory \<Rightarrow> (bool \<times> dev_addr_name \<times> ('f, 'b) factory) fs_res" where
  "nvrec_dev_localname_addr_init env dev s =
     (if dev_sector_valid s
      then let p = fs_sector env s;
               rev1 = (bt_dev_rev s = NVREC_DEV_VERSION_1);
               name = 4 * (if rev1 then dev_index dev_name else rev2_index rev2_dev_name);
               dev = dev\<lparr>btd_addr := bytes_at (4 * (if rev1 then dev_index dev_bt_addr else rev2_index rev2_dev_bt_addr)) BTIF_BD_ADDR_SIZE p,
                         ble_addr := bytes_at (4 * (if rev1 then dev_index dev_ble_addr else rev2_index rev2_dev_ble_addr)) BTIF_BD_ADDR_SIZE p,
                         localname := In_Sector name\<rparr>;
               dev = (if rev1 then dev else dev\<lparr>ble_name := In_Sector (4 * rev2_index rev2_dev_ble_name)\<rparr>)
           in fs_bind (fs_strlen name p) (\<lambda>len.
                let name_len = (if len < CLASSIC_BTNAME_LEN then len else CLASSIC_BTNAME_LEN - 1);
                    cname = (put_bytes 0 (bytes_at name name_len p) (classics_bt_name s))[name_len := 0];
                    b = bt_set_local_name env (takeWhile (\<lambda>c. c \<noteq> 0) cname) (bt_stack s);
                    b = bt_set_local_address env (btd_addr dev) b;
                    b = bt_set_ble_local_name env (ble_name dev) b;
                    b = bt_set_ble_local_address env (ble_addr dev) b
                in FsRet (True, dev, s\<lparr>classics_bt_name := cname, bt_stack := b\<rparr>))
      else FsRet (False, dev, s))"

definition nvrec_dev_force_get_btaddress :: "('f, 'b) factory_env \<Rightarrow> ('f, 'b) factory \<Rightarrow> int \<times> bytes" where
  "nvrec_dev_force_get_btaddress env s = (0, bytes_at (4 * dev_index dev_bt_addr) BTIF_BD_ADDR_SIZE (fs_sector env s))"

section \<open>Random addresses\<close>

text \<open>Each round seeds the generator, takes one number for the byte and adds the next to the seed.\<close>

fun rand_bytes :: "('f, 'b) factory_env \<Rightarrow> nat \<Rightarrow> u32 \<Rightarrow> bytes" where
  "rand_bytes env 0 seed = []"
| "rand_bytes env (Suc n) seed = ucast (rand_nth env seed 0 AND 0xff) # rand_bytes env n (seed + rand_nth env seed 1)"

definition nvrec_dev_rand_btaddr_gen :: "('f, 'b) factory_env \<Rightarrow> u32 \<Rightarrow> bytes" where
  "nvrec_dev_rand_btaddr_gen env time = rand_bytes env BTIF_BD_ADDR_SIZE time"

section \<open>The crystal trim\<close>

text \<open>
  \<open>m\<close> is the memory that \<open>syspool_get_buff\<close> returned, with whatever it held; \<open>t1\<close> and \<open>t2\<close> are the readings of the timer
  that seed the two addresses, which replace those of the stack.
\<close>

definition fill_valid :: "('f, 'b) factory_env \<Rightarrow> u32 \<Rightarrow> ('f, 'b) factory \<Rightarrow> bytes fs_res" where
  "fill_valid env val s =
     (let m = fs_sector env s in
      if bt_dev_rev s = NVREC_DEV_VERSION_1
      then let m = put_word (dev_index dev_xtal_fcap) val m in
        fs_bind (crc_at env (4 * dev_index dev_reserv1) (of_nat ((dev_index dev_data_len - dev_index dev_reserv1) * 4)) m)
          (\<lambda>c. FsRet (put_word (dev_index dev_crc) c m))
      else let m = put_word (rev2_index rev2_dev_xtal_fcap) val m in
        fs_bind (crc_at env (4 * rev2_index rev2_dev_section_start_reserved) (word_at m (rev2_index rev2_dev_data_len)) m)
          (\<lambda>c. FsRet (put_word (rev2_index rev2_dev_crc) c m)))"

definition fill_rev1 :: "('f, 'b) factory_env \<Rightarrow> u32 \<Rightarrow> bytes \<Rightarrow> bytes \<Rightarrow> bytes \<Rightarrow> bytes \<Rightarrow> bytes fs_res" where
  "fill_rev1 env val name btaddr bleaddr m =
     (let m = put_word (dev_index dev_reserv1) 0 m;
          m = put_word (dev_index dev_reserv2) 0 m
      in fs_bind (fs_memcpy (4 * dev_index dev_name) name (length name) m) (\<lambda>m.
           let m = put_bytes (4 * dev_index dev_bt_addr) btaddr m;
               m = put_bytes (4 * dev_index dev_ble_addr) bleaddr m;
               m = put_bytes (4 * dev_index dev_dongle_addr) (replicate BTIF_BD_ADDR_SIZE 0) m;
               m = put_word (dev_index dev_xtal_fcap) val m
           in fs_bind (crc_at env (4 * dev_index dev_reserv1) (of_nat ((dev_index dev_data_len - dev_index dev_reserv1) * 4)) m)
                (\<lambda>c. FsRet (put_word (dev_index dev_crc) c m))))"

definition fill_rev2 :: "('f, 'b) factory_env \<Rightarrow> u32 \<Rightarrow> bytes \<Rightarrow> bytes \<Rightarrow> bytes \<Rightarrow> bytes \<Rightarrow> bytes \<Rightarrow> bytes fs_res" where
  "fill_rev2 env val name blename btaddr bleaddr m =
     (let m = put_word (rev2_index rev2_dev_section_start_reserved) 0 m;
          m = put_word (rev2_index rev2_dev_reserv2) 0 m
      in fs_bind (fs_memcpy (4 * rev2_index rev2_dev_name) name (length name) m) (\<lambda>m.
         fs_bind (fs_memcpy (4 * rev2_index rev2_dev_ble_name) blename BLE_NAME_LEN_IN_NV m) (\<lambda>m.
           let m = put_bytes (4 * rev2_index rev2_dev_bt_addr) btaddr m;
               m = put_bytes (4 * rev2_index rev2_dev_ble_addr) bleaddr m;
               m = put_bytes (4 * rev2_index rev2_dev_dongle_addr) (replicate BTIF_BD_ADDR_SIZE 0) m;
               m = put_word (rev2_index rev2_dev_xtal_fcap) val m;
               m = put_word (rev2_index rev2_dev_data_len)
                     (of_nat ((rev2_index rev2_dev_section_end - rev2_index rev2_dev_section_start_reserved) * 4)) m
           in fs_bind (crc_at env (4 * rev2_index rev2_dev_section_start_reserved) (word_at m (rev2_index rev2_dev_data_len)) m)
                (\<lambda>c. FsRet (put_word (rev2_index rev2_dev_crc) c m)))))"

definition nvrec_dev_data_fill_xtal_fcap ::
    "('f, 'b) factory_env \<Rightarrow> u32 \<Rightarrow> u32 \<Rightarrow> u32 \<Rightarrow> bytes \<Rightarrow> ('f, 'b) factory \<Rightarrow> (bytes \<times> ('f, 'b) factory) fs_res" where
  "nvrec_dev_data_fill_xtal_fcap env t1 t2 val m s =
     (if dev_sector_valid s then fs_bind (fill_valid env val s) (\<lambda>m. FsRet (m, s))
      else
        let m = put_word (dev_index dev_version_and_magic) (push_bit 16 (ucast (bt_dev_rev s)) OR ucast nvrec_dev_magic) m;
            name = bt_get_local_name env (bt_stack s);
            blename = bt_get_ble_local_name env (bt_stack s);
            btaddr = nvrec_dev_rand_btaddr_gen env t1;
            bleaddr = nvrec_dev_rand_btaddr_gen env t2
        in fs_bind (if bt_dev_rev s = NVREC_DEV_VERSION_1 then fill_rev1 env val name btaddr bleaddr m
                    else fill_rev2 env val name blename btaddr bleaddr m)
             (\<lambda>m. FsRet (m, s\<lparr>bt_stack := store_ble_local_address env bleaddr (store_local_address env btaddr (bt_stack s))\<rparr>)))"

text \<open>\<open>None\<close> is the null pointer.\<close>

definition nvrec_dev_flash_flush :: "('f, 'b) factory_env \<Rightarrow> bytes option \<Rightarrow> ('f, 'b) factory \<Rightarrow> ('f, 'b) factory fs_res" where
  "nvrec_dev_flash_flush env mempool s =
     (case mempool of None \<Rightarrow> FsRet s | Some m \<Rightarrow> factory_store env (factory_start env) m s)"

definition nvrec_dev_set_xtal_fcap ::
    "('f, 'b) factory_env \<Rightarrow> u32 \<Rightarrow> u32 \<Rightarrow> bytes \<Rightarrow> u32 \<Rightarrow> ('f, 'b) factory \<Rightarrow> ('f, 'b) factory fs_res" where
  "nvrec_dev_set_xtal_fcap env t1 t2 mempool v s =
     fs_bind (nvrec_dev_data_fill_xtal_fcap env t1 t2 v mempool s) (\<lambda>(m, s).
       factory_store env (factory_start env) m (s\<lparr>fs_flash := fs_flush_all env (fs_flash s)\<rparr>))"

section \<open>Getters\<close>

text \<open>The results are the return value and what is stored through the pointer, if that is not null.\<close>

definition nvrec_dev_get_xtal_fcap :: "('f, 'b) factory_env \<Rightarrow> bool \<Rightarrow> ('f, 'b) factory \<Rightarrow> int \<times> u32 option" where
  "nvrec_dev_get_xtal_fcap env out_null s =
     (let i = (if bt_dev_rev s = NVREC_DEV_VERSION_1 then dev_index dev_xtal_fcap else rev2_index rev2_dev_xtal_fcap) in
      if \<not> dev_sector_valid s \<or> out_null then (-1, None) else (0, Some (word_at (fs_sector env s) i)))"

definition nvrec_dev_get_dongleaddr :: "('f, 'b) factory_env \<Rightarrow> bool \<Rightarrow> ('f, 'b) factory \<Rightarrow> int \<times> bytes option" where
  "nvrec_dev_get_dongleaddr env out_null s =
     (let i = (if bt_dev_rev s = NVREC_DEV_VERSION_1 then dev_index dev_dongle_addr else rev2_index rev2_dev_dongle_addr) in
      if \<not> dev_sector_valid s \<or> out_null then (-1, None)
      else (0, Some (bytes_at (4 * i) BTIF_BD_ADDR_SIZE (fs_sector env s))))"

definition nvrec_dev_get_btaddr :: "('f, 'b) factory_env \<Rightarrow> bool \<Rightarrow> ('f, 'b) factory \<Rightarrow> int \<times> bytes option" where
  "nvrec_dev_get_btaddr env out_null s =
     (let i = (if bt_dev_rev s = NVREC_DEV_VERSION_1 then dev_index dev_bt_addr else rev2_index rev2_dev_bt_addr) in
      if \<not> dev_sector_valid s \<or> out_null then (0, None)
      else (1, Some (bytes_at (4 * i) BTIF_BD_ADDR_SIZE (fs_sector env s))))"

definition nvrec_dev_get_bt_name :: "('f, 'b) factory \<Rightarrow> bytes" where
  "nvrec_dev_get_bt_name s = classics_bt_name s"

definition nvrec_dev_get_ble_name :: "('f, 'b) factory_env \<Rightarrow> ('f, 'b) factory \<Rightarrow> name_ptr" where
  "nvrec_dev_get_ble_name env s =
     (if bt_dev_rev s = NVREC_DEV_VERSION_1 \<or> \<not> dev_sector_valid s then Elsewhere (BLE_DEFAULT_NAME env)
      else In_Sector (4 * rev2_index rev2_dev_ble_name))"

end
