(* ===== verification/FactoryProps.thy ===== *)
theory FactoryProps
  imports NvFactory NvFlushSafety
begin

text \<open>
  The factory sector: the setters of revision 2 keep it readable, those of revision 1 do not; both ways of opening
  it agree; the crystal trim is read back; the length check and what it leaves behind. The locale \<open>sealed_store\<close> is the contract
  of a store with fields and a checksum; revision 2 of both files and revision 1 of \<open>nvrecord_bt.c\<close> are instances.
\<close>

section \<open>Fields in bytes\<close>

lemma length_le32 [simp]: "length (le32 w) = 4"
  by (simp add: le32_def)

lemma length_put_bytes [simp]: "off + length bs \<le> length m \<Longrightarrow> length (put_bytes off bs m) = length m"
  by (simp add: put_bytes_def)

lemma length_bytes_at [simp]: "off + n \<le> length m \<Longrightarrow> length (bytes_at off n m) = n"
  by (simp add: bytes_at_def)

lemma nth_put_bytes:
  assumes "off + length bs \<le> length m" and "i < length m"
  shows "put_bytes off bs m ! i = (if off \<le> i \<and> i < off + length bs then bs ! (i - off) else m ! i)"
  using assms by (auto simp: put_bytes_def nth_append)

lemma nth_bytes_at [simp]: "i < n \<Longrightarrow> off + n \<le> length m \<Longrightarrow> bytes_at off n m ! i = m ! (off + i)"
  by (simp add: bytes_at_def)

lemma bytes_at_put_other:
  assumes "off + length bs \<le> length m" and "o' + n \<le> length m" and "o' + n \<le> off \<or> off + length bs \<le> o'"
  shows "bytes_at o' n (put_bytes off bs m) = bytes_at o' n m"
  using assms by (intro nth_equalityI) (auto simp: nth_put_bytes)

lemma bytes_at_put_prefix:
  assumes "off + n \<le> length m" and "length bs \<le> n"
  shows "bytes_at off n (put_bytes off bs m) = bs @ drop (length bs) (bytes_at off n m)"
  using assms by (intro nth_equalityI) (auto simp: nth_put_bytes nth_append)

lemma get32_put_same: "off + 4 \<le> length m \<Longrightarrow> get32 (put_bytes off (le32 w) m) off = w"
  by (simp add: get32_def nth_put_bytes le32_def join32)

lemma get32_put_other:
  "off + length bs \<le> length m \<Longrightarrow> i + 4 \<le> length m \<Longrightarrow> i + 4 \<le> off \<or> off + length bs \<le> i \<Longrightarrow>
     get32 (put_bytes off bs m) i = get32 m i"
  by (auto simp: get32_def nth_put_bytes)

lemma get16_put_other:
  "off + length bs \<le> length m \<Longrightarrow> i + 2 \<le> length m \<Longrightarrow> i + 2 \<le> off \<or> off + length bs \<le> i \<Longrightarrow>
     get16 (put_bytes off bs m) i = get16 m i"
  by (auto simp: get16_def nth_put_bytes)

lemmas put_simps = bytes_at_put_other bytes_at_put_prefix get32_put_same get32_put_other get16_put_other

section \<open>A store with fields and a checksum\<close>

text \<open>
  Writing a prefix of a field keeps the rest of the field and every other field; sealing keeps the fields and
  makes the store valid.
\<close>

locale sealed_store =
  fixes ok :: "'s \<Rightarrow> bool" and field :: "'k \<Rightarrow> bool" and fits :: "'k \<Rightarrow> 'v list \<Rightarrow> bool"
    and rd :: "'k \<Rightarrow> 's \<Rightarrow> 'v list" and wr :: "'k \<Rightarrow> 'v list \<Rightarrow> 's \<Rightarrow> 's"
    and seal :: "'s \<Rightarrow> 's" and sealed :: "'s \<Rightarrow> bool"
  assumes ok_wr: "ok s \<Longrightarrow> fits k v \<Longrightarrow> ok (wr k v s)"
    and ok_seal: "ok s \<Longrightarrow> ok (seal s)"
    and rd_wr: "ok s \<Longrightarrow> fits k v \<Longrightarrow> rd k (wr k v s) = v @ drop (length v) (rd k s)"
    and rd_wr_other: "ok s \<Longrightarrow> fits k v \<Longrightarrow> field j \<Longrightarrow> j \<noteq> k \<Longrightarrow> rd j (wr k v s) = rd j s"
    and fits_field: "fits k v \<Longrightarrow> field k"
    and rd_seal: "ok s \<Longrightarrow> field j \<Longrightarrow> rd j (seal s) = rd j s"
    and sealed_seal: "ok s \<Longrightarrow> sealed (seal s)"
begin

lemma update:
  assumes "ok s" and "fits k v"
  shows "ok (seal (wr k v s))" and "sealed (seal (wr k v s))"
    and "field j \<Longrightarrow> rd j (seal (wr k v s)) = (if j = k then v @ drop (length v) (rd k s) else rd j s)"
  using assms ok_wr ok_seal sealed_seal rd_seal rd_wr rd_wr_other fits_field by auto

end

section \<open>Sectors of both revisions\<close>

definition rev_ok :: "u16 \<Rightarrow> bytes \<Rightarrow> bool" where
  "rev_ok v m \<longleftrightarrow> length m = 4096 \<and> get16 m (head_offset magic) = nvrec_dev_magic \<and> get16 m (head_offset version) = v"

definition rev2_len :: "bytes \<Rightarrow> u32" where
  "rev2_len m = get32 m (data_offset rev2_data_len)"

definition rev2_ok :: "bytes \<Rightarrow> bool" where
  "rev2_ok m \<longleftrightarrow> rev_ok 2 m \<and> 308 + unat (rev2_len m) \<le> 4096"

definition fs_field :: "factory_section_data_t \<Rightarrow> bytes \<Rightarrow> bytes" where
  "fs_field k m = bytes_at (data_offset k) (data_size k) m"

definition put_field :: "factory_section_data_t \<Rightarrow> bytes \<Rightarrow> bytes \<Rightarrow> bytes" where
  "put_field k v m = put_bytes (data_offset k) v m"

definition rev2_sum :: "('f, 'b) factory_env \<Rightarrow> bytes \<Rightarrow> u32" where
  "rev2_sum env m = fs_crc32_c env (bytes_at 308 (unat (rev2_len m)) m)"

definition seal2 :: "('f, 'b) factory_env \<Rightarrow> bytes \<Rightarrow> bytes" where
  "seal2 env m = put_bytes 304 (le32 (rev2_sum env m)) m"

definition sealed2 :: "('f, 'b) factory_env \<Rightarrow> bytes \<Rightarrow> bool" where
  "sealed2 env m \<longleftrightarrow> get32 m 304 = rev2_sum env m"

definition rev1_sum :: "('f, 'b) factory_env \<Rightarrow> bytes \<Rightarrow> u32" where
  "rev1_sum env m = fs_crc32_c env (bytes_at 8 288 m)"

definition seal1 :: "('f, 'b) factory_env \<Rightarrow> bytes \<Rightarrow> bytes" where
  "seal1 env m = put_bytes 4 (le32 (rev1_sum env m)) m"

definition sealed1 :: "('f, 'b) factory_env \<Rightarrow> bytes \<Rightarrow> bool" where
  "sealed1 env m \<longleftrightarrow> get32 m 4 = rev1_sum env m"

lemma field_bounds: "data_offset k + data_size k \<le> 628" "16 \<le> data_offset k" "0 < data_size k"
  by (cases k; simp)+

lemma fields_disjoint:
  "j \<noteq> k \<Longrightarrow> data_offset j + data_size j \<le> data_offset k \<or> data_offset k + data_size k \<le> data_offset j"
  by (cases j; cases k; simp)

lemma fs_field_put:
  assumes "length m = 4096" and "length v \<le> data_size k"
  shows "fs_field j (put_field k v m) = (if j = k then v @ drop (length v) (fs_field k m) else fs_field j m)"
  using assms field_bounds [of j] field_bounds [of k] fields_disjoint [of j k]
  by (auto simp: fs_field_def put_field_def bytes_at_put_prefix intro!: bytes_at_put_other)

lemma rev2_len_put: "length m = 4096 \<Longrightarrow> length v \<le> data_size k \<Longrightarrow> k \<noteq> rev2_data_len \<Longrightarrow> rev2_len (put_field k v m) = rev2_len m"
  using field_bounds [of k] fields_disjoint [of rev2_data_len k] by (auto simp: rev2_len_def put_field_def intro!: get32_put_other)

lemma rev_ok_put: "rev_ok w m \<Longrightarrow> length v \<le> data_size k \<Longrightarrow> rev_ok w (put_field k v m)"
  using field_bounds [of k] by (simp add: rev_ok_def put_field_def get16_put_other)

lemma seal2_frame:
  assumes "rev2_ok m"
  shows "rev2_ok (seal2 env m)" and "sealed2 env (seal2 env m)" and "j \<noteq> rev2_crc \<Longrightarrow> fs_field j (seal2 env m) = fs_field j m"
proof -
  have l: "length m = 4096" and n: "308 + unat (rev2_len m) \<le> 4096" using assms by (auto simp: rev2_ok_def rev_ok_def)
  have eq: "seal2 env m = put_field rev2_crc (le32 (rev2_sum env m)) m" by (simp add: seal2_def put_field_def)
  have len: "rev2_len (seal2 env m) = rev2_len m" using l by (simp add: eq rev2_len_put)
  have "rev2_sum env (seal2 env m) = rev2_sum env m"
    using l n by (simp add: rev2_sum_def len) (simp add: seal2_def bytes_at_put_other)
  then show "sealed2 env (seal2 env m)" using l by (simp add: sealed2_def) (simp add: seal2_def get32_put_same)
  show "rev2_ok (seal2 env m)" using assms len by (simp add: rev2_ok_def) (simp add: eq rev_ok_put)
  show "j \<noteq> rev2_crc \<Longrightarrow> fs_field j (seal2 env m) = fs_field j m" using l by (simp add: eq fs_field_put)
qed

lemma seal1_frame:
  assumes "rev_ok 1 m"
  shows "rev_ok 1 (seal1 env m)" and "sealed1 env (seal1 env m)" and "fs_field j (seal1 env m) = fs_field j m"
proof -
  have l: "length m = 4096" using assms by (simp add: rev_ok_def)
  show "rev_ok 1 (seal1 env m)" using assms l by (simp add: rev_ok_def seal1_def get16_put_other)
  have "rev1_sum env (seal1 env m) = rev1_sum env m" using l by (simp add: rev1_sum_def seal1_def bytes_at_put_other)
  then show "sealed1 env (seal1 env m)" using l by (simp add: sealed1_def) (simp add: seal1_def get32_put_same)
  show "fs_field j (seal1 env m) = fs_field j m"
    using l field_bounds [of j] by (simp add: seal1_def fs_field_def bytes_at_put_other)
qed

definition rev2_fits :: "factory_section_data_t \<Rightarrow> bytes \<Rightarrow> bool" where
  "rev2_fits k v \<longleftrightarrow> k \<noteq> rev2_crc \<and> k \<noteq> rev2_data_len \<and> length v \<le> data_size k"

lemma rev_ok_length: "rev_ok w m \<Longrightarrow> length m = 4096" "rev2_ok m \<Longrightarrow> length m = 4096"
  by (simp_all add: rev2_ok_def rev_ok_def)

lemma rev2_ok_put: "rev2_ok m \<Longrightarrow> rev2_fits k v \<Longrightarrow> rev2_ok (put_field k v m)"
  by (simp add: rev2_ok_def rev2_fits_def rev_ok_put rev2_len_put rev_ok_length)

interpretation rev2_store: sealed_store rev2_ok "\<lambda>k. k \<noteq> rev2_crc" rev2_fits fs_field put_field "seal2 env" "sealed2 env"
  by unfold_locales (auto simp: rev2_ok_put seal2_frame fs_field_put rev_ok_length rev2_fits_def [of _ "_ :: bytes"])

interpretation rev1_store: sealed_store "rev_ok 1" "\<lambda>k. True" "\<lambda>k v. length v \<le> data_size k" fs_field put_field "seal1 env" "sealed1 env"
  by unfold_locales (auto simp: rev_ok_put seal1_frame fs_field_put rev_ok_length)

section \<open>The code in terms of the store\<close>

text \<open>The assumed driver: an erase and a write that both report success leave the written bytes in the sector.\<close>

definition factory_laws :: "('f, 'b) factory_env \<Rightarrow> bool" where
  "factory_laws env \<longleftrightarrow>
     (\<forall>f. length (fs_mapped env f) = FACTORY_SECTOR_SIZE) \<and>
     (\<forall>f a m. a \<in> {factory_start env, factory_start env AND 0x00FFFFFF} \<longrightarrow> length m = FACTORY_SECTOR_SIZE \<longrightarrow>
        fst (fs_erase env a f) = NORFLASH_API_OK \<longrightarrow> fst (fs_write env a m (snd (fs_erase env a f))) = NORFLASH_API_OK \<longrightarrow>
        fs_mapped env (snd (fs_write env a m (snd (fs_erase env a f)))) = m)"

text \<open>All calls of the driver succeed.\<close>

definition driver_ok :: "('f, 'b) factory_env \<Rightarrow> bool" where
  "driver_ok env \<longleftrightarrow> (\<forall>a f. fst (fs_erase env a f) = NORFLASH_API_OK) \<and> (\<forall>a m f. fst (fs_write env a m f) = NORFLASH_API_OK)"

lemma sector_length: "factory_laws env \<Longrightarrow> length (fs_sector env s) = 4096"
  by (simp add: factory_laws_def fs_sector_def factory_defs)

lemma factory_store_cases:
  assumes "factory_laws env" and "a \<in> {factory_start env, factory_start env AND 0x00FFFFFF}" and "length m = 4096"
  shows "factory_store env a m s = FsAssert \<and> \<not> driver_ok env \<or>
    (\<exists>f. factory_store env a m s = FsRet (s\<lparr>fs_flash := f\<rparr>) \<and> fs_mapped env f = m)"
proof -
  obtain r f where e: "fs_erase env a (fs_flash s) = (r, f)" by fastforce
  obtain r' f' where w: "fs_write env a m f = (r', f')" by fastforce
  have law: "\<forall>f a m. a \<in> {factory_start env, factory_start env AND 0x00FFFFFF} \<longrightarrow> length m = 4096 \<longrightarrow>
        fst (fs_erase env a f) = NORFLASH_API_OK \<longrightarrow> fst (fs_write env a m (snd (fs_erase env a f))) = NORFLASH_API_OK \<longrightarrow>
        fs_mapped env (snd (fs_write env a m (snd (fs_erase env a f)))) = m"
    using assms(1) by (simp add: factory_laws_def factory_defs)
  have "\<not> driver_ok env" if "r \<noteq> NORFLASH_API_OK \<or> r' \<noteq> NORFLASH_API_OK"
    using that e w unfolding driver_ok_def by (metis fst_conv)
  moreover have "fs_mapped env f' = m" if "r = NORFLASH_API_OK" "r' = NORFLASH_API_OK"
    using law [rule_format, OF assms(2,3), of "fs_flash s"] e w that by simp
  ultimately show ?thesis using e w by (auto simp: factory_store_def)
qed

lemma crc_at_8: "length m = 4096 \<Longrightarrow> crc_at env 8 288 m = FsRet (rev1_sum env m)"
  by (simp add: crc_at_def rev1_sum_def)

lemma crc_at_308: "rev2_ok m \<Longrightarrow> crc_at env 308 (rev2_len m) m = FsRet (rev2_sum env m)"
  by (simp add: crc_at_def rev2_sum_def rev2_ok_def rev_ok_def)

lemma set_rev2_crc_seal: "rev2_ok m \<Longrightarrow> set_rev2_crc env (rev2_len m) m = FsRet (seal2 env m)"
  by (simp add: set_rev2_crc_def crc_at_308 seal2_def)

lemma length_check: "4096 < 308 + (n :: u32) \<longleftrightarrow> 3788 < unat n \<and> unat n < 2 ^ 32 - 308"
proof -
  have "unat (308 + n) = (308 + unat n) mod 2 ^ 32" by (simp add: unat_word_ariths)
  moreover have "unat n < 2 ^ 32" using unsigned_less [of n] by simp
  ultimately show ?thesis
    by (cases "unat n < 2 ^ 32 - 308") (auto simp: word_less_nat_alt mod_if)
qed

lemma open_rev2:
  assumes "rev2_ok (fs_sector env s)"
  shows "factory_section_open env s =
    FsRet (if sealed2 env (fs_sector env s)
           then (0, s\<lparr>factory_section_p := True, nv_record_dev_rev := 2, bt_global_addr := take 6 (fs_field rev2_bt_addr (fs_sector env s)),
                      ble_global_addr := take 6 (fs_field rev2_ble_addr (fs_sector env s))\<rparr>)
           else (-1, s\<lparr>factory_section_p := False, nv_record_dev_rev := 2\<rparr>))"
proof -
  let ?p = "fs_sector env s"
  have n: "\<not> 4096 < 308 + rev2_len ?p" using assms by (simp add: length_check rev2_ok_def)
  have c: "crc_at env 308 (rev2_len ?p) ?p = FsRet (rev2_sum env ?p)" using assms by (rule crc_at_308)
  show ?thesis using assms n c
    by (simp add: factory_section_open_def rev2_ok_def rev_ok_def Let_def factory_defs rev2_len_def sealed2_def
        fs_field_def bytes_at_def min_def)
qed

lemma version_cases: "\<not> v < nvrec_mini_version \<Longrightarrow> \<not> nvrec_current_version < v \<Longrightarrow> v = 1 \<or> v = (2 :: u16)"
proof -
  assume "\<not> v < nvrec_mini_version" "\<not> nvrec_current_version < v"
  then have "unat v = 1 \<or> unat v = 2" by (auto simp: factory_defs word_less_nat_alt)
  then show ?thesis by (simp add: word_unat_eq_iff)
qed

lemma open_rev1:
  assumes "rev_ok 1 (fs_sector env s)"
  shows "factory_section_open env s =
    FsRet (if sealed1 env (fs_sector env s)
           then (0, s\<lparr>factory_section_p := True, nv_record_dev_rev := 1, bt_global_addr := take 6 (fs_field bt_address (fs_sector env s)),
                      ble_global_addr := take 6 (fs_field ble_address (fs_sector env s))\<rparr>)
           else (-1, s\<lparr>factory_section_p := False, nv_record_dev_rev := 1\<rparr>))"
  using assms crc_at_8 [of "fs_sector env s" env]
  by (simp add: factory_section_open_def rev_ok_def Let_def factory_defs sealed1_def fs_field_def bytes_at_def min_def)

text \<open>A right magic number and a known version leave the two revisions; a length that does not fit is the only other case.\<close>

lemma open_cases:
  assumes "factory_laws env"
  shows "rev_ok 1 (fs_sector env s) \<or> rev2_ok (fs_sector env s) \<or>
    rev_ok 2 (fs_sector env s) \<and> 3788 < unat (rev2_len (fs_sector env s)) \<or>
    factory_section_open env s = FsRet (-1, s\<lparr>factory_section_p := False\<rparr>)"
  using version_cases [of "get16 (fs_sector env s) 2"] sector_length [OF assms, of s]
  by (auto simp: factory_section_open_def rev_ok_def rev2_ok_def Let_def)

lemma open_long:
  assumes "rev_ok 2 (fs_sector env s)" and "3788 < unat (rev2_len (fs_sector env s))"
  shows "factory_section_open env s =
    (if unat (rev2_len (fs_sector env s)) < 2 ^ 32 - 308
     then FsRet (-1, s\<lparr>factory_section_p := True, nv_record_dev_rev := 2\<rparr>) else FsFault)"
proof -
  let ?p = "fs_sector env s"
  have "crc_at env 308 (rev2_len ?p) ?p = FsFault" using assms by (simp add: crc_at_def rev_ok_def)
  moreover have "(4096 < 308 + rev2_len ?p) = (unat (rev2_len ?p) < 2 ^ 32 - 308)" using assms(2) by (simp add: length_check)
  ultimately show ?thesis using assms
    by (simp add: factory_section_open_def rev_ok_def Let_def factory_defs rev2_len_def)
qed

lemma open_opened:
  assumes "factory_laws env" and "factory_section_open env s0 = FsRet (0, s)"
  shows "factory_section_p s" and "fs_sector env s = fs_sector env s0"
    and "nv_record_dev_rev s = 1 \<and> rev_ok 1 (fs_sector env s) \<and> sealed1 env (fs_sector env s) \<or>
      nv_record_dev_rev s = 2 \<and> rev2_ok (fs_sector env s) \<and> sealed2 env (fs_sector env s)"
  using open_cases [OF assms(1), of s0] assms(2)
  by (auto simp: open_rev1 open_rev2 open_long fs_sector_def split: if_splits)

section \<open>The setters\<close>

datatype factory_set = Set_Bt bytes | Set_Ble bytes | Set_Name bytes int | Set_Xtal u32

fun factory_apply :: "('f, 'b) factory_env \<Rightarrow> factory_set \<Rightarrow> ('f, 'b) factory \<Rightarrow> (int \<times> ('f, 'b) factory) fs_res" where
  "factory_apply env (Set_Bt a) s = factory_section_set_bt_address env a s"
| "factory_apply env (Set_Ble a) s = factory_section_set_ble_address env a s"
| "factory_apply env (Set_Name nm n) s = factory_section_set_bt_name env nm n s"
| "factory_apply env (Set_Xtal v) s = factory_section_xtal_fcap_set env v s"

fun set_field :: "u8 \<Rightarrow> factory_set \<Rightarrow> factory_section_data_t" where
  "set_field r (Set_Bt a) = (if r = 1 then bt_address else rev2_bt_addr)"
| "set_field r (Set_Ble a) = (if r = 1 then ble_address else rev2_ble_addr)"
| "set_field r (Set_Name nm n) = (if r = 1 then device_name else rev2_bt_name)"
| "set_field r (Set_Xtal v) = (if r = 1 then xtal_fcap else rev2_xtal_fcap)"

fun set_value :: "factory_set \<Rightarrow> bytes" where
  "set_value (Set_Bt a) = take 6 a"
| "set_value (Set_Ble a) = take 6 a"
| "set_value (Set_Name nm n) = take (nat n) nm"
| "set_value (Set_Xtal v) = le32 v"

text \<open>The caller's arguments are long enough, and a name fits into its field.\<close>

fun set_fits :: "u8 \<Rightarrow> factory_set \<Rightarrow> bool" where
  "set_fits r (Set_Bt a) = (6 \<le> length a)"
| "set_fits r (Set_Ble a) = (6 \<le> length a)"
| "set_fits r (Set_Name nm n) = (0 \<le> n \<and> nat n \<le> data_size (set_field r (Set_Name nm n)) \<and> nat n \<le> length nm)"
| "set_fits r (Set_Xtal v) = True"

lemma name_len: "0 \<le> n \<Longrightarrow> nat n \<le> 4096 \<Longrightarrow> unat (word_of_int n :: u32) = nat n"
  by (simp add: unsigned_of_int take_bit_int_eq_self nat_le_iff)

lemma set_fits_value: "set_fits r op \<Longrightarrow> length (set_value op) \<le> data_size (set_field r op)"
  by (cases op) auto

lemma apply_rev2:
  assumes "factory_section_p s" "nv_record_dev_rev s = 2" "rev2_ok (fs_sector env s)" "set_fits 2 op"
  shows "factory_apply env op s = factory_commit env (FsRet (seal2 env (put_field (set_field 2 op) (set_value op) (fs_sector env s)))) s"
proof -
  let ?p = "fs_sector env s" and ?m = "put_field (set_field 2 op) (set_value op) (fs_sector env s)"
  have f: "rev2_fits (set_field 2 op) (set_value op)"
    using set_fits_value [OF assms(4)] by (cases op) (auto simp: rev2_fits_def)
  have ok: "rev2_ok ?m" using assms(3) f by (rule rev2_ok_put)
  have len: "rev2_len ?m = rev2_len ?p" using f rev_ok_length(2) [OF assms(3)] by (simp add: rev2_fits_def rev2_len_put)
  have sl: "set_rev2_crc env (rev2_len ?p) ?m = FsRet (seal2 env ?m)" "set_rev2_crc env (rev2_len ?m) ?m = FsRet (seal2 env ?m)"
    using set_rev2_crc_seal [OF ok, of env] len by simp_all
  show ?thesis using assms sl rev_ok_length(2) [OF assms(3)] len
    by (cases op)
      (auto simp: factory_section_set_bt_address_def factory_section_set_ble_address_def factory_section_set_bt_name_def
        factory_section_xtal_fcap_set_def fs_memcpy_def put_field_def rev2_len_def name_len Let_def)
qed

text \<open>A sequence of calls, with what they return.\<close>

fun factory_sets :: "('f, 'b) factory_env \<Rightarrow> factory_set list \<Rightarrow> ('f, 'b) factory \<Rightarrow> (int list \<times> ('f, 'b) factory) fs_res" where
  "factory_sets env [] s = FsRet ([], s)"
| "factory_sets env (op # ops) s =
     fs_bind (factory_apply env op s) (\<lambda>(r, s). fs_bind (factory_sets env ops s) (\<lambda>(rs, s). FsRet (r # rs, s)))"

text \<open>What a call promises: the field begins with the new value and keeps its remaining bytes.\<close>

definition set_spec :: "factory_set \<Rightarrow> (factory_section_data_t \<Rightarrow> bytes) \<Rightarrow> factory_section_data_t \<Rightarrow> bytes" where
  "set_spec op F = F(set_field 2 op := set_value op @ drop (length (set_value op)) (F (set_field 2 op)))"

definition opened2 :: "('f, 'b) factory_env \<Rightarrow> ('f, 'b) factory \<Rightarrow> bool" where
  "opened2 env s \<longleftrightarrow> factory_section_p s \<and> nv_record_dev_rev s = 2 \<and> rev2_ok (fs_sector env s) \<and> sealed2 env (fs_sector env s)"

definition fields_of :: "('f, 'b) factory_env \<Rightarrow> ('f, 'b) factory \<Rightarrow> factory_section_data_t \<Rightarrow> bytes" where
  "fields_of env s k = (if k = rev2_crc then [] else fs_field k (fs_sector env s))"

lemma commit_done:
  assumes "factory_laws env" and "length m = 4096"
  shows "factory_commit env (FsRet m) s = FsAssert \<and> \<not> driver_ok env \<or>
    (\<exists>f. factory_commit env (FsRet m) s = FsRet (0, s\<lparr>fs_flash := f\<rparr>) \<and> fs_mapped env f = m)"
  using factory_store_cases [OF assms(1) _ assms(2), of "factory_start env AND 0x00FFFFFF" s]
  by (auto simp: factory_commit_def)

lemma set_field_not_crc: "set_field 2 op \<noteq> rev2_crc" "set_field 2 op \<noteq> rev2_data_len"
  by (cases op; simp)+

lemma apply_opened2:
  assumes "factory_laws env" "driver_ok env" "opened2 env s" "set_fits 2 op"
  shows "\<exists>s'. factory_apply env op s = FsRet (0, s') \<and> opened2 env s' \<and> fields_of env s' = set_spec op (fields_of env s)"
proof -
  let ?k = "set_field 2 op" and ?v = "set_value op" and ?p = "fs_sector env s"
  have o: "factory_section_p s" "nv_record_dev_rev s = 2" "rev2_ok ?p" using assms(3) by (auto simp: opened2_def)
  have f: "rev2_fits ?k ?v" using set_fits_value [OF assms(4)] set_field_not_crc [of op] by (simp add: rev2_fits_def)
  note u = rev2_store.update [OF o(3) f, where env = env]
  obtain fl where c: "factory_apply env op s = FsRet (0, s\<lparr>fs_flash := fl\<rparr>)" "fs_mapped env fl = seal2 env (put_field ?k ?v ?p)"
    using commit_done [OF assms(1) rev_ok_length(2) [OF u(1)], of s] apply_rev2 [OF o assms(4)] assms(2) by auto
  have "fields_of env (s\<lparr>fs_flash := fl\<rparr>) = set_spec op (fields_of env s)"
    using c(2) u(3) set_field_not_crc [of op] by (auto simp: fields_of_def set_spec_def fs_sector_def fun_eq_iff)
  then show ?thesis using c u(1,2) o by (auto simp: opened2_def fs_sector_def)
qed

lemma sets_opened2:
  assumes "factory_laws env" "driver_ok env" "opened2 env s" "\<forall>op\<in>set ops. set_fits 2 op"
  shows "\<exists>s'. factory_sets env ops s = FsRet (replicate (length ops) 0, s') \<and> opened2 env s' \<and>
    fields_of env s' = fold set_spec ops (fields_of env s)"
  using assms(3,4)
proof (induction ops arbitrary: s)
  case (Cons op ops)
  obtain s1 where s1: "factory_apply env op s = FsRet (0, s1)" "opened2 env s1" "fields_of env s1 = set_spec op (fields_of env s)"
    using apply_opened2 [OF assms(1,2) Cons.prems(1), of op] Cons.prems(2) by auto
  then show ?case using Cons.IH [OF s1(2)] Cons.prems(2) by auto
qed simp

lemma fields_read:
  assumes "opened2 env s"
  shows "factory_section_xtal_fcap_get env s = (0, Some (get32 (fields_of env s rev2_xtal_fcap) 0))"
    and "factory_section_original_btaddr_get env s = take 6 (fields_of env s rev2_bt_addr)"
    and "\<exists>s'. factory_section_open env s = FsRet (0, s') \<and> bt_global_addr s' = take 6 (fields_of env s rev2_bt_addr) \<and>
      ble_global_addr s' = take 6 (fields_of env s rev2_ble_addr)"
  using assms rev_ok_length(2) [of "fs_sector env s"] open_rev2 [of env s]
  by (auto simp: opened2_def factory_section_xtal_fcap_get_def factory_section_original_btaddr_get_def fields_of_def
      fs_field_def get32_def bytes_at_def min_def)

text \<open>
  C24: in a revision 2 sector, when every erase and write of the driver succeeds, the setters of \<open>factory_section.c\<close> implement
  independent updates of the fields. After any sequence of calls whose values fit, every call has returned 0, each field holds what the calls wrote into it
  in their order (a shorter name keeps the rest of the older one), the getters read that, and the next
  \<open>factory_section_open\<close> accepts the sector and takes the addresses from it.
\<close>

theorem factory_rev2_sets:
  assumes "factory_laws env" and "driver_ok env" and "factory_section_open env s0 = FsRet (0, s)" and "nv_record_dev_rev s = 2"
    and "\<forall>op\<in>set ops. set_fits 2 op" and "F = fold set_spec ops (fields_of env s)"
  shows "\<exists>s' s''. factory_sets env ops s = FsRet (replicate (length ops) 0, s') \<and> fields_of env s' = F \<and>
    factory_section_xtal_fcap_get env s' = (0, Some (get32 (F rev2_xtal_fcap) 0)) \<and>
    factory_section_original_btaddr_get env s' = take 6 (F rev2_bt_addr) \<and>
    factory_section_open env s' = FsRet (0, s'') \<and> bt_global_addr s'' = take 6 (F rev2_bt_addr) \<and>
    ble_global_addr s'' = take 6 (F rev2_ble_addr)"
proof -
  have "opened2 env s" using open_opened [OF assms(1,3)] assms(4) by (auto simp: opened2_def)
  from sets_opened2 [OF assms(1,2) this assms(5)] obtain s' where
    "factory_sets env ops s = FsRet (replicate (length ops) 0, s')" "opened2 env s'" "fields_of env s' = F"
    using assms(6) by auto
  then show ?thesis using fields_read [of env s'] by auto
qed

section \<open>Revision 1\<close>

lemma head_crc_wide: "length m = 4096 \<Longrightarrow> set_head_crc env m = FsRet (put_bytes 4 (le32 (fs_crc32_c env (bytes_at 8 620 m))) m)"
  by (simp add: set_head_crc_def crc_at_def factory_defs)

lemma apply_rev1:
  assumes "factory_section_p s" "nv_record_dev_rev s = 1" "length (fs_sector env s) = 4096" "set_fits 1 op"
    and "m = put_field (set_field 1 op) (set_value op) (fs_sector env s)"
  shows "factory_apply env op s = factory_commit env (FsRet (put_bytes 4 (le32 (fs_crc32_c env (bytes_at 8 620 m))) m)) s"
proof -
  have "set_head_crc env m = FsRet (put_bytes 4 (le32 (fs_crc32_c env (bytes_at 8 620 m))) m)"
    using assms(3,5) set_fits_value [OF assms(4)] field_bounds(1) [of "set_field 1 op"]
    by (intro head_crc_wide) (simp add: put_field_def)
  then show ?thesis using assms
    by (cases op)
      (auto simp: factory_section_set_bt_address_def factory_section_set_ble_address_def factory_section_set_bt_name_def
        factory_section_xtal_fcap_set_def fs_memcpy_def put_field_def name_len Let_def)
qed

text \<open>
  C27: in a revision 1 sector every setter, when its erase and write succeed, stores a checksum over the whole struct while \<open>factory_section_open\<close> checks the first
  part. A call returns 0, and the next open accepts the sector only if the two checksums happen to be equal;
  otherwise it fails and the device has lost its factory data.
\<close>

theorem factory_rev1_setter_breaks:
  assumes "factory_laws env" and "driver_ok env" and "factory_section_open env s0 = FsRet (0, s)" and "nv_record_dev_rev s = 1"
    and "set_fits 1 op"
  shows "\<exists>s' s'' r. factory_apply env op s = FsRet (0, s') \<and> factory_section_open env s' = FsRet (r, s'') \<and>
    fs_field (set_field 1 op) (fs_sector env s') =
      set_value op @ drop (length (set_value op)) (fs_field (set_field 1 op) (fs_sector env s)) \<and>
    (if fs_crc32_c env (bytes_at 8 620 (fs_sector env s')) = fs_crc32_c env (bytes_at 8 288 (fs_sector env s'))
     then r = 0 else r = -1 \<and> \<not> factory_section_p s'')"
proof -
  define m where "m = put_field (set_field 1 op) (set_value op) (fs_sector env s)"
  define m' where "m' = put_bytes 4 (le32 (fs_crc32_c env (bytes_at 8 620 m))) m"
  have o: "factory_section_p s" "rev_ok 1 (fs_sector env s)" using open_opened [OF assms(1,3)] assms(4) by auto
  have m: "rev_ok 1 m" using rev_ok_put [OF o(2) set_fits_value [OF assms(5)]] by (simp add: m_def)
  have l: "length m = 4096" "length (fs_sector env s) = 4096" using m o(2) by (auto simp: rev_ok_def)
  have m': "rev_ok 1 m'" "length m' = 4096" using m l by (auto simp: m'_def rev_ok_def get16_put_other)
  have c: "bytes_at 8 620 m' = bytes_at 8 620 m" "bytes_at 8 288 m' = bytes_at 8 288 m"
    using l by (simp_all add: m'_def bytes_at_put_other)
  have k: "sealed1 env m' \<longleftrightarrow> fs_crc32_c env (bytes_at 8 620 m') = fs_crc32_c env (bytes_at 8 288 m')"
    using l c by (simp add: sealed1_def rev1_sum_def) (simp add: m'_def get32_put_same)
  have "fs_field (set_field 1 op) m' = fs_field (set_field 1 op) m"
    using l field_bounds [of "set_field 1 op"] by (simp add: m'_def fs_field_def bytes_at_put_other)
  then have fld: "fs_field (set_field 1 op) m' = set_value op @ drop (length (set_value op)) (fs_field (set_field 1 op) (fs_sector env s))"
    using l set_fits_value [OF assms(5)] by (simp add: m_def fs_field_put)
  obtain f where f: "factory_apply env op s = FsRet (0, s\<lparr>fs_flash := f\<rparr>)" "fs_mapped env f = m'"
    using commit_done [OF assms(1) m'(2), of s] assms(2) apply_rev1 [OF o(1) assms(4) l(2) assms(5) m_def] by (auto simp: m'_def)
  have "fs_sector env (s\<lparr>fs_flash := f\<rparr>) = m'" using f by (simp add: fs_sector_def)
  then show ?thesis using f(1) open_rev1 [of env "s\<lparr>fs_flash := f\<rparr>"] m'(1) k fld by auto
qed

section \<open>The length of revision 2\<close>

text \<open>
  C28: the check of the stored length in \<open>factory_section_open\<close>. A length that leaves the sector makes it return -1 but keeps the
  pointer, so that the getters answer and a setter reads outside the sector; a length within 308 of the end of the 32-bit range
  wraps in the comparison and the checksum itself leaves the sector; for every other length the pointer is
  set exactly on success.
\<close>

theorem factory_length_check:
  assumes "factory_laws env" and "p = fs_sector env s" and "get16 p (head_offset magic) = nvrec_dev_magic"
    and "get16 p (head_offset version) = 2" and "n = unat (get32 p (data_offset rev2_data_len))"
  shows "if n \<le> 3788 then \<exists>r s'. factory_section_open env s = FsRet (r, s') \<and> (r = 0 \<longleftrightarrow> factory_section_p s')
    else if n < 2 ^ 32 - 308
    then \<exists>s'. factory_section_open env s = FsRet (-1, s') \<and> factory_section_get_bt_address s' = Some (data_offset rev2_bt_addr) \<and>
      factory_section_set_bt_address env a s' = FsFault
    else factory_section_open env s = FsFault"
proof -
  have ok: "rev_ok 2 p" using assms sector_length [OF assms(1), of s] by (simp add: rev_ok_def)
  have n: "n = unat (rev2_len p)" using assms(5) by (simp add: rev2_len_def)
  have f: "factory_section_set_bt_address env a s' = FsFault"
    if "factory_section_p s'" "nv_record_dev_rev s' = 2" "fs_sector env s' = p" "3788 < n" for s'
  proof -
    have "length p = 4096" "crc_at env 308 (rev2_len p) q = FsFault" if "length q = 4096" for q
      using \<open>3788 < n\<close> n ok that by (auto simp: crc_at_def rev_ok_def)
    then show ?thesis using that ok
      by (auto simp: factory_section_set_bt_address_def fs_memcpy_def set_rev2_crc_def factory_commit_def rev2_len_def Let_def rev_ok_def)
  qed
  show ?thesis using open_rev2 [of env s] open_long [of env s] f ok n assms(2)
    by (auto simp: rev2_ok_def factory_section_get_bt_address_def fs_sector_def)
qed

section \<open>Both ways to open the sector\<close>

lemma get16_or: "get16 m i = ucast (m ! i) OR push_bit 8 (ucast (m ! (i + 1)))"
  unfolding get16_def by (rule disjunctive_add) (auto simp: bit_simps dest: bit_imp_le_length)

lemma bytes_or:
  "(ucast a :: u32) OR push_bit 8 (ucast b) OR push_bit 16 (ucast c) OR push_bit 24 (ucast d) =
     ucast (ucast a OR push_bit 8 (ucast b) :: u16) OR push_bit 16 (ucast (ucast c OR push_bit 8 (ucast d) :: u16))"
  for a b c d :: u8
  by (rule bit_word_eqI) (auto simp: bit_simps dest: bit_imp_le_length)

lemma get32_or: "get32 m i = ucast (get16 m i) OR push_bit 16 (ucast (get16 m (i + 2)))"
proof -
  let ?a = "ucast (m ! i) :: u32" and ?b = "push_bit 8 (ucast (m ! (i + 1))) :: u32"
  let ?c = "push_bit 16 (ucast (m ! (i + 2))) :: u32" and ?d = "push_bit 24 (ucast (m ! (i + 3))) :: u32"
  have ab: "?a + ?b = ?a OR ?b" by (rule disjunctive_add) (auto simp: bit_simps dest: bit_imp_le_length)
  have abc: "(?a OR ?b) + ?c = ?a OR ?b OR ?c" unfolding or.assoc [symmetric] by (rule disjunctive_add) (auto simp: bit_simps dest: bit_imp_le_length)
  have abcd: "(?a OR ?b OR ?c) + ?d = ?a OR ?b OR ?c OR ?d"
    by (subst disjunctive_add) (auto simp: bit_simps or.assoc dest: bit_imp_le_length)
  have "get32 m i = ?a OR ?b OR ?c OR ?d" by (simp only: get32_def ab abc abcd)
  also have "\<dots> = ucast (get16 m i) OR push_bit 16 (ucast (get16 m (i + 2)))"
    unfolding get16_or bytes_or by (simp add: numeral_3_eq_3)
  finally show ?thesis .
qed

lemma vermagic:
  "get32 m 0 AND 0xFFFF = ucast (get16 m 0)" "drop_bit 16 (get32 m 0) = ucast (get16 m 2)"
proof -
  have g: "get32 m 0 = ucast (get16 m 0) OR push_bit 16 (ucast (get16 m 2))" using get32_or [of m 0] by (simp only: add_0)
  have m: "(0xFFFF :: u32) = mask 16" by (simp add: mask_eq_exp_minus_1)
  show "get32 m 0 AND 0xFFFF = ucast (get16 m 0)"
    unfolding m by (intro bit_word_eqI) (auto simp: g bit_simps simp del: mask_numeral dest: bit_imp_le_length)
  show "drop_bit 16 (get32 m 0) = ucast (get16 m 2)"
    by (rule bit_word_eqI) (auto simp: g bit_simps dest: bit_imp_le_length)
qed

lemma unat_ucast_16_32 [simp]: "unat (ucast (v :: u16) :: u32) = unat v"
  by (simp add: unsigned_ucast_eq take_bit_nat_eq_self unsigned_less [THEN order.strict_trans])

lemma vermagic_checks:
  "ucast nvrec_dev_magic = get32 m 0 AND 0xFFFF \<longleftrightarrow> get16 m 0 = nvrec_dev_magic"
  "ucast NVREC_DEV_NEWEST_REV < (ucast v :: u32) \<longleftrightarrow> 2 < (v :: u16)"
  by (auto simp: vermagic(1) word_unat_eq_iff word_less_nat_alt factory_defs)

lemma rev_cases: "\<not> 2 < v \<Longrightarrow> v = 0 \<or> v = 1 \<or> v = (2 :: u16)"
proof -
  assume "\<not> 2 < v"
  then have "unat v = 0 \<or> unat v = 1 \<or> unat v = 2" by (auto simp: word_less_nat_alt)
  then show ?thesis by (simp add: word_unat_eq_iff)
qed

lemmas data_open_unfold = nvrec_dev_data_open_def word_at_def rev_ok_def rev2_len_def vermagic_checks vermagic(2) Let_def

lemma data_open_bad:
  "get16 (fs_sector env s) 0 \<noteq> nvrec_dev_magic \<or> 2 < get16 (fs_sector env s) 2 \<Longrightarrow>
     nvrec_dev_data_open env s = FsRet (False, s\<lparr>dev_sector_valid := False\<rparr>)"
  by (simp add: data_open_unfold)

lemma data_open_rev1:
  assumes "rev_ok 1 (fs_sector env s)"
  shows "nvrec_dev_data_open env s =
    (let ok = (sealed1 env (fs_sector env s) \<or> dev_sector_valid s) in FsRet (ok, s\<lparr>bt_dev_rev := 1, dev_sector_valid := ok\<rparr>))"
  using assms crc_at_8 [of "fs_sector env s" env] by (auto simp: data_open_unfold sealed1_def NVREC_DEV_VERSION_1_def)

lemma data_open_rev2:
  assumes "rev_ok w (fs_sector env s)" "w = 0 \<or> w = 2" "unat (rev2_len (fs_sector env s)) \<le> 3788"
  shows "nvrec_dev_data_open env s =
    (let ok = (sealed2 env (fs_sector env s) \<or> dev_sector_valid s) in FsRet (ok, s\<lparr>bt_dev_rev := ucast w, dev_sector_valid := ok\<rparr>))"
proof -
  let ?p = "fs_sector env s"
  have n: "\<not> 4096 < 308 + rev2_len ?p" using assms by (simp add: length_check)
  have c: "crc_at env 308 (rev2_len ?p) ?p = FsRet (rev2_sum env ?p)"
    using assms by (simp add: crc_at_def rev2_sum_def rev_ok_def)
  show ?thesis using assms n c by (auto simp: data_open_unfold sealed2_def NVREC_DEV_VERSION_1_def)
qed

lemma data_open_long:
  assumes "rev_ok w (fs_sector env s)" "w = 0 \<or> w = 2" "3788 < unat (rev2_len (fs_sector env s))"
  shows "nvrec_dev_data_open env s =
    (if unat (rev2_len (fs_sector env s)) < 2 ^ 32 - 308
     then FsRet (False, s\<lparr>bt_dev_rev := ucast w, dev_sector_valid := False\<rparr>) else FsFault)"
proof -
  let ?p = "fs_sector env s"
  have "crc_at env 308 (rev2_len ?p) ?p = FsFault" using assms by (simp add: crc_at_def rev_ok_def)
  moreover have "(4096 < 308 + rev2_len ?p) = (unat (rev2_len ?p) < 2 ^ 32 - 308)" using assms by (simp add: length_check)
  ultimately show ?thesis using assms by (auto simp: data_open_unfold NVREC_DEV_VERSION_1_def)
qed

text \<open>The two files hold the same view of the sector: same revision, trim and address.\<close>

definition same_view :: "('f, 'b) factory_env \<Rightarrow> ('f, 'b) factory \<Rightarrow> ('f, 'b) factory \<Rightarrow> bool" where
  "same_view env s1 s2 \<longleftrightarrow> nv_record_dev_rev s1 = bt_dev_rev s2 \<and>
     factory_section_xtal_fcap_get env s1 = nvrec_dev_get_xtal_fcap env False s2 \<and>
     nvrec_dev_get_btaddr env False s2 = (1, Some (factory_section_original_btaddr_get env s1)) \<and>
     factory_section_original_btaddr_get env s1 = bt_global_addr s1"

lemma same_view_opened:
  assumes "factory_section_p s1" "dev_sector_valid s2" "fs_sector env s1 = fs_sector env s2" "nv_record_dev_rev s1 = bt_dev_rev s2"
    and "bt_global_addr s1 = take 6 (fs_field (if bt_dev_rev s2 = 1 then bt_address else rev2_bt_addr) (fs_sector env s2))"
  shows "same_view env s1 s2"
  using assms
  by (auto simp: same_view_def factory_section_xtal_fcap_get_def nvrec_dev_get_xtal_fcap_def nvrec_dev_get_btaddr_def
      factory_section_original_btaddr_get_def factory_defs word_at_def fs_field_def bytes_at_def Let_def min_def)

text \<open>
  C25: \<open>factory_section_open\<close> and \<open>nvrec_dev_data_open\<close>, two implementations of one check, on every sector whose version is not 0: what the
  first accepts the second accepts too, and they see the same revision, trim and address; what the first rejects the
  second rejects too, unless \<open>dev_sector_valid\<close> is still set from an earlier success and only the checksum is wrong, since the second
  does not clear the flag then; and for a length whose check wraps around both read outside the sector. A
  sector of version 0 is always rejected by the first, while the second treats it like revision 2.
\<close>

theorem factory_opens_agree:
  assumes "factory_laws env" and "p = fs_sector env s"
  shows "if get16 p (head_offset magic) = nvrec_dev_magic \<and> get16 p (head_offset version) = 0
    then (\<exists>s1. factory_section_open env s = FsRet (-1, s1)) \<and>
      (unat (get32 p (data_offset rev2_data_len)) \<le> 3788 \<longrightarrow>
        (\<exists>s2. nvrec_dev_data_open env s = FsRet (get32 p (data_offset rev2_crc) =
            fs_crc32_c env (bytes_at (data_offset rev2_reserved0) (unat (get32 p (data_offset rev2_data_len))) p) \<or>
            dev_sector_valid s, s2)))
    else (case (factory_section_open env s, nvrec_dev_data_open env s) of
        (FsRet (r, s1), FsRet (b, s2)) \<Rightarrow>
          (r = 0 \<longrightarrow> b \<and> same_view env s1 s2) \<and>
          (r \<noteq> 0 \<longrightarrow> (b \<longleftrightarrow> dev_sector_valid s \<and> get16 p (head_offset magic) = nvrec_dev_magic \<and>
             (get16 p (head_offset version) = 1 \<or>
              get16 p (head_offset version) = 2 \<and> unat (get32 p (data_offset rev2_data_len)) \<le> 3788)))
      | (FsFault, FsFault) \<Rightarrow> True
      | _ \<Rightarrow> False)"
proof -
  let ?q = "fs_sector env s"
  have l: "length ?q = 4096" using sector_length [OF assms(1)] .
  have "(get16 ?q 0 \<noteq> nvrec_dev_magic \<or> 2 < get16 ?q 2) \<or> rev_ok 0 ?q \<or> rev_ok 1 ?q \<or> rev2_ok ?q \<or>
      rev_ok 2 ?q \<and> 3788 < unat (rev2_len ?q)"
    using rev_cases [of "get16 ?q 2"] l by (auto simp: rev_ok_def rev2_ok_def)
  then consider (bad) "get16 ?q 0 \<noteq> nvrec_dev_magic \<or> 2 < get16 ?q 2" | (rev0) "rev_ok 0 ?q" | (rev1) "rev_ok 1 ?q"
    | (rev2) "rev2_ok ?q" | (long) "rev_ok 2 ?q" "3788 < unat (rev2_len ?q)"
    by blast
  then show ?thesis
  proof cases
    case bad
    then have "factory_section_open env s = FsRet (-1, s\<lparr>factory_section_p := False\<rparr>)"
      by (auto simp: factory_section_open_def Let_def factory_defs)
    moreover have "\<not> (get16 ?q 0 = nvrec_dev_magic \<and> get16 ?q 2 = 0)" using bad by auto
    moreover have "\<not> (get16 ?q 0 = nvrec_dev_magic \<and> (get16 ?q 2 = 1 \<or> get16 ?q 2 = 2))"
      using bad by (auto simp: word_less_nat_alt)
    ultimately show ?thesis using data_open_bad [OF bad] assms(2) by auto
  next
    case rev0
    then have "factory_section_open env s = FsRet (-1, s\<lparr>factory_section_p := False\<rparr>)"
      by (simp add: factory_section_open_def rev_ok_def Let_def factory_defs)
    then show ?thesis using rev0 data_open_rev2 [OF rev0] assms(2)
      by (auto simp: rev_ok_def sealed2_def rev2_sum_def rev2_len_def Let_def)
  next
    case rev1
    then show ?thesis using open_rev1 [OF rev1] data_open_rev1 [OF rev1] assms(2)
      by (auto simp: rev_ok_def fs_sector_def Let_def intro!: same_view_opened)
  next
    case rev2
    then have "rev_ok 2 ?q" "unat (rev2_len ?q) \<le> 3788" by (auto simp: rev2_ok_def)
    then show ?thesis using open_rev2 [OF rev2] data_open_rev2 [of 2 env s] assms(2)
      by (auto simp: rev_ok_def rev2_len_def fs_sector_def Let_def intro!: same_view_opened)
  next
    case long
    then show ?thesis using open_long [OF long] data_open_long [of 2 env s] assms(2) by (auto simp: rev_ok_def rev2_len_def)
  qed
qed

section \<open>The crystal trim\<close>

lemma length_rand_bytes [simp]: "length (rand_bytes env n seed) = n"
  by (induction n arbitrary: seed) simp_all

lemma length_rand_btaddr [simp]: "length (nvrec_dev_rand_btaddr_gen env t) = 6"
  by (simp add: nvrec_dev_rand_btaddr_gen_def factory_defs)

lemma rev_ok_put_bytes: "rev_ok w m \<Longrightarrow> 4 \<le> off \<Longrightarrow> off + length bs \<le> 4096 \<Longrightarrow> rev_ok w (put_bytes off bs m)"
  by (simp add: rev_ok_def get16_put_other)

lemma rev_ok_head:
  fixes r :: u8
  assumes "length m = 4096" and "r = 1 \<or> r = 2"
  shows "rev_ok (ucast r) (put_word 0 (push_bit 16 (ucast r) OR ucast nvrec_dev_magic) m)"
  using assms by (auto simp: rev_ok_def put_word_def get16_def nth_put_bytes le32_def factory_defs)

text \<open>What \<open>nvrec_dev_set_xtal_fcap\<close> writes: a sealed sector of the revision with the trim in it.\<close>

definition trimmed :: "('f, 'b) factory_env \<Rightarrow> u8 \<Rightarrow> u32 \<Rightarrow> bytes \<Rightarrow> bool" where
  "trimmed env r v m \<longleftrightarrow> length m = 4096 \<and>
     (if r = 1 then rev_ok 1 m \<and> sealed1 env m \<and> get32 m 292 = v else rev2_ok m \<and> sealed2 env m \<and> get32 m 592 = v)"

lemma seal1_trimmed:
  assumes "rev_ok 1 m"
  shows "trimmed env 1 v (seal1 env (put_bytes 292 (le32 v) m))"
proof -
  have ok: "rev_ok 1 (put_bytes 292 (le32 v) m)" using assms by (simp add: rev_ok_put_bytes)
  have "get32 (seal1 env (put_bytes 292 (le32 v) m)) 292 = v"
    using assms by (simp add: seal1_def get32_put_other get32_put_same rev_ok_def)
  then show ?thesis using seal1_frame(1,2) [OF ok, of env] by (simp add: trimmed_def rev_ok_def)
qed

lemma seal2_trimmed:
  assumes "rev2_ok m" and "get32 m 592 = v"
  shows "trimmed env 2 v (seal2 env m)"
proof -
  have "get32 (seal2 env m) 592 = v" using assms by (simp add: seal2_def get32_put_other rev2_ok_def rev_ok_def)
  then show ?thesis using seal2_frame(1,2) [OF assms(1), of env] rev_ok_length(2) by (auto simp: trimmed_def)
qed

text \<open>Every byte outside the four of the trim and the four of the checksum of the revision is the same.\<close>

definition trim_bytes :: "u8 \<Rightarrow> nat set" where
  "trim_bytes r =
     (if r = 1 then {head_offset crc..<head_offset crc + 4} \<union> {data_offset xtal_fcap..<data_offset xtal_fcap + 4}
      else {data_offset rev2_crc..<data_offset rev2_crc + 4} \<union> {data_offset rev2_xtal_fcap..<data_offset rev2_xtal_fcap + 4})"

definition only_trim :: "u8 \<Rightarrow> bytes \<Rightarrow> bytes \<Rightarrow> bool" where
  "only_trim r m m' \<longleftrightarrow> length m' = length m \<and> (\<forall>i<length m. i \<notin> trim_bytes r \<longrightarrow> m' ! i = m ! i)"

lemma fill_valid_trimmed:
  assumes "bt_dev_rev s = 1 \<and> rev_ok 1 (fs_sector env s) \<or> bt_dev_rev s = 2 \<and> rev2_ok (fs_sector env s)"
  shows "\<exists>m. fill_valid env v s = FsRet m \<and> trimmed env (bt_dev_rev s) v m \<and> only_trim (bt_dev_rev s) (fs_sector env s) m"
  using assms
proof
  assume a: "bt_dev_rev s = 1 \<and> rev_ok 1 (fs_sector env s)"
  then have "length (put_bytes 292 (le32 v) (fs_sector env s)) = 4096" by (simp add: rev_ok_def)
  moreover have "only_trim (bt_dev_rev s) (fs_sector env s) (seal1 env (put_bytes 292 (le32 v) (fs_sector env s)))"
    using a by (simp add: only_trim_def trim_bytes_def rev_ok_def seal1_def nth_put_bytes)
  ultimately show ?thesis using a seal1_trimmed [of "fs_sector env s" env v]
    by (simp add: Let_def fill_valid_def put_word_def factory_defs crc_at_8 seal1_def)
next
  assume a: "bt_dev_rev s = 2 \<and> rev2_ok (fs_sector env s)"
  let ?m = "put_field rev2_xtal_fcap (le32 v) (fs_sector env s)"
  have ok: "rev2_ok ?m" using a by (intro rev2_ok_put) (auto simp: rev2_fits_def)
  have "get32 ?m 592 = v" using a by (simp add: put_field_def get32_put_same rev2_ok_def rev_ok_def)
  moreover have "only_trim (bt_dev_rev s) (fs_sector env s) (seal2 env ?m)"
    using a by (simp add: only_trim_def trim_bytes_def rev2_ok_def rev_ok_def put_field_def seal2_def nth_put_bytes)
  ultimately show ?thesis using seal2_trimmed [OF ok, of v env] crc_at_308 [OF ok, of env] a
    by (simp add: Let_def fill_valid_def put_word_def put_field_def factory_defs seal2_def rev2_len_def word_at_def)
qed

lemma fill_rev1_trimmed:
  assumes "rev_ok 1 m" and "length name \<le> 3780" and "length ba = 6" and "length la = 6"
  shows "\<exists>m'. fill_rev1 env v name ba la m = FsRet m' \<and> trimmed env 1 v m'"
proof -
  define m1 where "m1 = put_bytes 12 (le32 0) (put_bytes 8 (le32 0) m)"
  define m2 where "m2 = put_bytes 16 name m1"
  define m3 where "m3 = put_bytes 284 (replicate 6 0) (put_bytes 276 la (put_bytes 268 ba m2))"
  have 1: "rev_ok 1 m1" unfolding m1_def by (intro rev_ok_put_bytes assms(1)) auto
  have 2: "rev_ok 1 m2" unfolding m2_def using assms(2) by (intro rev_ok_put_bytes 1) auto
  have 3: "rev_ok 1 m3" unfolding m3_def using assms(3,4) by (intro rev_ok_put_bytes 2) auto
  have l: "length m1 = 4096" "length (put_bytes 292 (le32 v) m3) = 4096" using 1 3 by (auto simp: rev_ok_def)
  have "fill_rev1 env v name ba la m = FsRet (seal1 env (put_bytes 292 (le32 v) m3))"
    using l assms(2) unfolding m1_def m2_def m3_def
    by (simp add: Let_def fill_rev1_def put_word_def factory_defs fs_memcpy_def crc_at_8 seal1_def)
  then show ?thesis using seal1_trimmed [OF 3] by blast
qed

lemma fill_rev2_trimmed:
  assumes "rev_ok 2 m" and "length name \<le> 3780" and "32 \<le> length bn" and "length ba = 6" and "length la = 6"
  shows "\<exists>m'. fill_rev2 env v name bn ba la m = FsRet m' \<and> trimmed env 2 v m'"
proof -
  define m1 where "m1 = put_bytes 312 (le32 0) (put_bytes 308 (le32 0) m)"
  define m2 where "m2 = put_bytes 316 name m1"
  define m3 where "m3 = put_bytes 596 (take 32 bn) m2"
  define m4 where "m4 = put_bytes 584 (replicate 6 0) (put_bytes 576 la (put_bytes 568 ba m3))"
  define m5 where "m5 = put_bytes 300 (le32 320) (put_bytes 592 (le32 v) m4)"
  have 1: "rev_ok 2 m1" unfolding m1_def by (intro rev_ok_put_bytes assms(1)) auto
  have 2: "rev_ok 2 m2" unfolding m2_def using assms(2) by (intro rev_ok_put_bytes 1) auto
  have 3: "rev_ok 2 m3" unfolding m3_def using assms(3) by (intro rev_ok_put_bytes 2) auto
  have 4: "rev_ok 2 m4" unfolding m4_def using assms(4,5) by (intro rev_ok_put_bytes 3) auto
  have 5: "rev_ok 2 m5" unfolding m5_def by (intro rev_ok_put_bytes 4) auto
  have l: "length m1 = 4096" "length m2 = 4096" "length m4 = 4096" using 1 2 4 by (auto simp: rev_ok_def)
  have len: "rev2_len m5 = 320" using l by (simp add: m5_def rev2_len_def get32_put_same)
  have x: "get32 m5 592 = v" using l by (simp add: m5_def get32_put_other get32_put_same)
  have ok: "rev2_ok m5" using 5 len by (simp add: rev2_ok_def)
  have "crc_at env 308 (word_at m5 75) m5 = FsRet (rev2_sum env m5)"
    using crc_at_308 [OF ok, of env] by (simp add: word_at_def rev2_len_def)
  moreover have "fill_rev2 env v name bn ba la m =
      fs_bind (crc_at env 308 (word_at m5 75) m5) (\<lambda>c. FsRet (put_bytes 304 (le32 c) m5))"
    using l assms(2,3) unfolding m1_def m2_def m3_def m4_def m5_def
    by (simp add: Let_def fill_rev2_def put_word_def factory_defs fs_memcpy_def)
  ultimately show ?thesis using seal2_trimmed [OF ok x, of env] by (simp add: seal2_def)
qed

lemma data_open_valid:
  assumes "factory_laws env" and "nvrec_dev_data_open env s0 = FsRet (True, s)"
    and "bt_dev_rev s = 1 \<or> bt_dev_rev s = 2"
  shows "bt_dev_rev s = 1 \<and> rev_ok 1 (fs_sector env s) \<or> bt_dev_rev s = 2 \<and> rev2_ok (fs_sector env s)"
proof -
  let ?q = "fs_sector env s0"
  have "get16 ?q 0 = nvrec_dev_magic \<and> \<not> 2 < get16 ?q 2" using data_open_bad [of env s0] assms(2) by auto
  then have "rev_ok 0 ?q \<or> rev_ok 1 ?q \<or> rev_ok 2 ?q" using rev_cases [of "get16 ?q 2"] sector_length [OF assms(1), of s0] by (auto simp: rev_ok_def)
  then consider (rev1) "rev_ok 1 ?q" | (rev2) w where "rev_ok w ?q" "w = 0 \<or> w = 2" by blast
  then show ?thesis
  proof cases
    case rev1
    then show ?thesis using data_open_rev1 [OF rev1] assms(2) by (auto simp: fs_sector_def Let_def)
  next
    case rev2
    have n: "unat (rev2_len ?q) \<le> 3788"
    proof (rule ccontr)
      assume "\<not> ?thesis"
      then show False using data_open_long [OF rev2] assms(2) by (simp split: if_splits)
    qed
    then have "s = s0\<lparr>bt_dev_rev := ucast w, dev_sector_valid := True\<rparr>"
      using data_open_rev2 [OF rev2 n] assms(2) by (auto simp: Let_def)
    then show ?thesis using rev2 n assms(3) by (auto simp: fs_sector_def rev2_ok_def)
  qed
qed

lemma fill_trimmed:
  assumes "factory_laws env" and "bt_dev_rev s = 1 \<or> bt_dev_rev s = 2"
    and "if dev_sector_valid s then bt_dev_rev s = 1 \<and> rev_ok 1 (fs_sector env s) \<or> bt_dev_rev s = 2 \<and> rev2_ok (fs_sector env s)
      else length mempool = 4096 \<and> length (bt_get_local_name env (bt_stack s)) \<le> 3780 \<and> 32 \<le> length (bt_get_ble_local_name env (bt_stack s))"
  shows "\<exists>m b. nvrec_dev_data_fill_xtal_fcap env t1 t2 v mempool s = FsRet (m, s\<lparr>bt_stack := b\<rparr>) \<and> trimmed env (bt_dev_rev s) v m \<and>
    (dev_sector_valid s \<longrightarrow> only_trim (bt_dev_rev s) (fs_sector env s) m)"
proof (cases "dev_sector_valid s")
  case True
  then have "bt_dev_rev s = 1 \<and> rev_ok 1 (fs_sector env s) \<or> bt_dev_rev s = 2 \<and> rev2_ok (fs_sector env s)" using assms(3) by simp
  from fill_valid_trimmed [OF this, of v] obtain m where
    m: "fill_valid env v s = FsRet m" "trimmed env (bt_dev_rev s) v m" "only_trim (bt_dev_rev s) (fs_sector env s) m" by blast
  moreover have "s = s\<lparr>bt_stack := bt_stack s\<rparr>" by simp
  ultimately show ?thesis using True unfolding nvrec_dev_data_fill_xtal_fcap_def by (metis fs_bind.simps(3))
next
  case False
  let ?m = "put_word 0 (push_bit 16 (ucast (bt_dev_rev s)) OR ucast nvrec_dev_magic) mempool"
  have "rev_ok (ucast (bt_dev_rev s)) ?m" using rev_ok_head [OF _ assms(2)] assms(3) False by simp
  then show ?thesis
    using assms(2,3) False
      fill_rev1_trimmed [of ?m "bt_get_local_name env (bt_stack s)" "nvrec_dev_rand_btaddr_gen env t1" "nvrec_dev_rand_btaddr_gen env t2" env v]
      fill_rev2_trimmed [of ?m "bt_get_local_name env (bt_stack s)" "bt_get_ble_local_name env (bt_stack s)"
        "nvrec_dev_rand_btaddr_gen env t1" "nvrec_dev_rand_btaddr_gen env t2" env v]
    by (auto simp: nvrec_dev_data_fill_xtal_fcap_def Let_def NVREC_DEV_VERSION_1_def) fastforce+
qed

lemma trimmed_opens:
  assumes "trimmed env r v (fs_sector env s)" and "r = 1 \<or> r = 2"
  shows "\<exists>s'. nvrec_dev_data_open env s = FsRet (True, s') \<and> nvrec_dev_get_xtal_fcap env False s' = (0, Some v) \<and> bt_dev_rev s' = r"
    and "\<exists>s'. factory_section_open env s = FsRet (0, s') \<and> factory_section_xtal_fcap_get env s' = (0, Some v)"
proof -
  let ?q = "fs_sector env s" and ?dev = "s\<lparr>bt_dev_rev := r, dev_sector_valid := True\<rparr>"
  have d: "nvrec_dev_data_open env s = FsRet (True, ?dev)"
    using assms data_open_rev1 [of env s] data_open_rev2 [of 2 env s] by (auto simp: trimmed_def rev2_ok_def Let_def)
  moreover have "nvrec_dev_get_xtal_fcap env False ?dev = (0, Some v)"
    using assms by (auto simp: trimmed_def nvrec_dev_get_xtal_fcap_def word_at_def fs_sector_def NVREC_DEV_VERSION_1_def)
  ultimately show "\<exists>s'. nvrec_dev_data_open env s = FsRet (True, s') \<and> nvrec_dev_get_xtal_fcap env False s' = (0, Some v) \<and> bt_dev_rev s' = r"
    by auto
  obtain s' where "factory_section_open env s = FsRet (0, s')" using assms open_rev1 [of env s] open_rev2 [of env s] by (auto simp: trimmed_def)
  moreover have "factory_section_p s' \<and> nv_record_dev_rev s' = r \<and> fs_sector env s' = ?q"
    using calculation assms open_rev1 [of env s] open_rev2 [of env s] by (auto simp: trimmed_def fs_sector_def split: if_splits)
  ultimately show "\<exists>s'. factory_section_open env s = FsRet (0, s') \<and> factory_section_xtal_fcap_get env s' = (0, Some v)"
    using assms by (auto simp: trimmed_def factory_section_xtal_fcap_get_def)
qed

text \<open>
  C26: the crystal trim is read back, in revisions 1 and 2 and when every erase and write of the driver succeeds. From a sector
  that \<open>nvrec_dev_data_open\<close> accepted, or from none with any content of the temporary memory (a local name of at most 3780 bytes, a BLE name
  of its 32 bytes), \<open>nvrec_dev_set_xtal_fcap\<close> returns and leaves a sector that both \<open>nvrec_dev_data_open\<close> and \<open>factory_section_open\<close> accept, in the
  same revision, and both files read the trim that was set; in a sector that was valid, no byte of the 4096 outside the
  four of the trim and the four of the checksum changes. In version 0, which only \<open>nvrec_dev_data_open\<close> accepts, this fails.
\<close>

theorem dev_xtal_roundtrip:
  assumes "factory_laws env" and "driver_ok env" and "bt_dev_rev s = 1 \<or> bt_dev_rev s = 2"
    and "if dev_sector_valid s then nvrec_dev_data_open env s0 = FsRet (True, s)
      else length mempool = FACTORY_SECTOR_SIZE \<and> length (bt_get_local_name env (bt_stack s)) \<le> 3780 \<and>
        BLE_NAME_LEN_IN_NV \<le> length (bt_get_ble_local_name env (bt_stack s))"
  shows "\<exists>s' s1 s2. nvrec_dev_set_xtal_fcap env t1 t2 mempool v s = FsRet s' \<and>
    nvrec_dev_data_open env s' = FsRet (True, s1) \<and> nvrec_dev_get_xtal_fcap env False s1 = (0, Some v) \<and> bt_dev_rev s1 = bt_dev_rev s \<and>
    factory_section_open env s' = FsRet (0, s2) \<and> factory_section_xtal_fcap_get env s2 = (0, Some v) \<and>
    (dev_sector_valid s \<longrightarrow> only_trim (bt_dev_rev s) (fs_sector env s) (fs_sector env s'))"
proof -
  obtain m b where m: "nvrec_dev_data_fill_xtal_fcap env t1 t2 v mempool s = FsRet (m, s\<lparr>bt_stack := b\<rparr>)" "trimmed env (bt_dev_rev s) v m"
      "dev_sector_valid s \<longrightarrow> only_trim (bt_dev_rev s) (fs_sector env s) m"
    using fill_trimmed [OF assms(1,3), of mempool t1 t2 v] data_open_valid [OF assms(1) _ assms(3), of s0] assms(4)
    by (auto simp: factory_defs split: if_splits)
  let ?s = "s\<lparr>bt_stack := b, fs_flash := fs_flush_all env (fs_flash s)\<rparr>"
  obtain f where f: "factory_store env (factory_start env) m ?s = FsRet (?s\<lparr>fs_flash := f\<rparr>)" "fs_mapped env f = m"
    using factory_store_cases [OF assms(1), of "factory_start env" m ?s] assms(2) m(2) by (auto simp: trimmed_def)
  then have e: "fs_sector env (?s\<lparr>fs_flash := f\<rparr>) = m" by (simp add: fs_sector_def)
  then have "trimmed env (bt_dev_rev s) v (fs_sector env (?s\<lparr>fs_flash := f\<rparr>))" using m(2) by simp
  from trimmed_opens [OF this assms(3)] m(1,3) f(1) e show ?thesis by (auto simp: nvrec_dev_set_xtal_fcap_def)
qed

section \<open>Well-formed states\<close>

text \<open>Every call of both files that returns.\<close>

inductive factory_step :: "('f, 'b) factory_env \<Rightarrow> ('f, 'b) factory \<Rightarrow> ('f, 'b) factory \<Rightarrow> bool" for env where
  step_init: "factory_section_init env s = FsRet s' \<Longrightarrow> factory_step env s s'"
| step_open: "factory_section_open env s = FsRet (r, s') \<Longrightarrow> factory_step env s s'"
| step_set: "factory_apply env op s = FsRet (r, s') \<Longrightarrow> factory_step env s s'"
| step_data_open: "nvrec_dev_data_open env s = FsRet (b, s') \<Longrightarrow> factory_step env s s'"
| step_name: "nvrec_dev_localname_addr_init env dev s = FsRet (b, dev', s') \<Longrightarrow> factory_step env s s'"
| step_xtal: "nvrec_dev_set_xtal_fcap env t1 t2 mempool v s = FsRet s' \<Longrightarrow> factory_step env s s'"
| step_flush: "nvrec_dev_flash_flush env mempool s = FsRet s' \<Longrightarrow> factory_step env s s'"

text \<open>
  The types of the static variables: addresses of six bytes, a revision of 1 or 2 behind the pointer, a revision of at most 2 in the
  other file, a name buffer with its 27 bytes and a terminating zero.
\<close>

definition factory_typed :: "('f, 'b) factory \<Rightarrow> bool" where
  "factory_typed s \<longleftrightarrow> length (bt_global_addr s) = 6 \<and> length (ble_global_addr s) = 6 \<and>
     (factory_section_p s \<longrightarrow> nv_record_dev_rev s = 1 \<or> nv_record_dev_rev s = 2) \<and> bt_dev_rev s \<in> {0, 1, 2} \<and>
     length (classics_bt_name s) = CLASSIC_BTNAME_LEN \<and> 0 \<in> set (classics_bt_name s)"

lemma typed_cong: "factory_typed (s\<lparr>fs_flash := f\<rparr>) = factory_typed s" "factory_typed (s\<lparr>bt_stack := b\<rparr>) = factory_typed s"
  "factory_typed (s\<lparr>dev_sector_valid := x\<rparr>) = factory_typed s"
  by (simp_all add: factory_typed_def)

lemma bind_returns: "fs_bind x f = FsRet y \<longleftrightarrow> (\<exists>z. x = FsRet z \<and> f z = FsRet y)"
  by (cases x) auto

lemma store_frame: "factory_store env a m s = FsRet s' \<Longrightarrow> \<exists>f. s' = s\<lparr>fs_flash := f\<rparr>"
  by (auto simp: factory_store_def Let_def case_prod_beta split: if_splits)

lemma commit_frame: "factory_commit env x s = FsRet (r, s') \<Longrightarrow> \<exists>f. s' = s\<lparr>fs_flash := f\<rparr>"
  using store_frame by (fastforce simp: factory_commit_def bind_returns)

lemma apply_frame:
  assumes "factory_apply env op s = FsRet (r, s')"
  shows "s' = s \<or> (\<exists>f. s' = s\<lparr>fs_flash := f\<rparr>)"
  using assms by (cases op) (auto simp: factory_section_set_bt_address_def factory_section_set_ble_address_def
      factory_section_set_bt_name_def factory_section_xtal_fcap_set_def Let_def dest: commit_frame split: if_splits)

lemma fill_frame: "nvrec_dev_data_fill_xtal_fcap env t1 t2 v mempool s = FsRet (m, s') \<Longrightarrow> \<exists>b. s' = s\<lparr>bt_stack := b\<rparr>"
  by (auto simp: nvrec_dev_data_fill_xtal_fcap_def bind_returns Let_def split: if_splits intro: exI [of _ "bt_stack s"])

lemma xtal_frame:
  assumes "nvrec_dev_set_xtal_fcap env t1 t2 mempool v s = FsRet s'"
  shows "\<exists>f b. s' = s\<lparr>bt_stack := b, fs_flash := f\<rparr>"
proof -
  obtain m s1 where 1: "nvrec_dev_data_fill_xtal_fcap env t1 t2 v mempool s = FsRet (m, s1)"
      "factory_store env (factory_start env) m (s1\<lparr>fs_flash := fs_flush_all env (fs_flash s1)\<rparr>) = FsRet s'"
    using assms by (auto simp: nvrec_dev_set_xtal_fcap_def bind_returns)
  from fill_frame [OF 1(1)] store_frame [OF 1(2)] show ?thesis by auto
qed

lemma open_typed:
  assumes "factory_laws env" "factory_typed s" "factory_section_open env s = FsRet (r, s')"
  shows "factory_typed s'"
proof -
  have l: "length (fs_sector env s) = 4096" using sector_length [OF assms(1)] .
  have f: "length (take 6 (fs_field k (fs_sector env s))) = 6" if "k \<in> {bt_address, ble_address, rev2_bt_addr, rev2_ble_addr}" for k
    using that l by (auto simp: fs_field_def)
  consider (rev1) "rev_ok 1 (fs_sector env s)" | (rev2) "rev2_ok (fs_sector env s)"
    | (long) "rev_ok 2 (fs_sector env s)" "3788 < unat (rev2_len (fs_sector env s))"
    | (bad) "factory_section_open env s = FsRet (-1, s\<lparr>factory_section_p := False\<rparr>)"
    using open_cases [OF assms(1), of s] by blast
  then show ?thesis
  proof cases
    case rev1
    from open_rev1 [OF rev1] assms(2,3) f show ?thesis by (auto simp: factory_typed_def split: if_splits)
  next
    case rev2
    from open_rev2 [OF rev2] assms(2,3) f show ?thesis by (auto simp: factory_typed_def split: if_splits)
  next
    case long
    from open_long [OF long] assms(2,3) show ?thesis by (auto simp: factory_typed_def split: if_splits)
  next
    case bad
    with assms(2,3) show ?thesis by (auto simp: factory_typed_def)
  qed
qed

lemma data_open_frame:
  assumes "factory_laws env" "nvrec_dev_data_open env s = FsRet (b, s')"
  shows "\<exists>v. s' = s\<lparr>dev_sector_valid := v\<rparr> \<or> (\<exists>r \<in> {0, 1, 2}. s' = s\<lparr>bt_dev_rev := r, dev_sector_valid := v\<rparr>)"
proof -
  let ?q = "fs_sector env s"
  have "(get16 ?q 0 \<noteq> nvrec_dev_magic \<or> 2 < get16 ?q 2) \<or> rev_ok 1 ?q \<or> rev_ok 0 ?q \<or> rev_ok 2 ?q"
    using rev_cases [of "get16 ?q 2"] sector_length [OF assms(1), of s] by (auto simp: rev_ok_def)
  then consider (bad) "get16 ?q 0 \<noteq> nvrec_dev_magic \<or> 2 < get16 ?q 2" | (rev1) "rev_ok 1 ?q"
    | (rev2) w where "rev_ok w ?q" "w = 0 \<or> w = 2" by blast
  then show ?thesis
  proof cases
    case bad
    from data_open_bad [OF bad] assms(2) show ?thesis by auto
  next
    case rev1
    from data_open_rev1 [OF rev1] assms(2) show ?thesis by (auto simp: Let_def)
  next
    case rev2
    have "ucast w \<in> {0, 1, 2 :: u8}" using rev2(2) by auto
    then show ?thesis
      using data_open_rev2 [OF rev2] data_open_long [OF rev2] assms(2)
      by (cases "unat (rev2_len ?q) \<le> 3788") (auto simp: Let_def split: if_splits)
  qed
qed

lemma data_open_typed:
  "factory_laws env \<Longrightarrow> factory_typed s \<Longrightarrow> nvrec_dev_data_open env s = FsRet (b, s') \<Longrightarrow> factory_typed s'"
  by (drule (1) data_open_frame) (auto simp: factory_typed_def)

lemma name_frame:
  assumes "nvrec_dev_localname_addr_init env dev s = FsRet (b, dev', s')"
  shows "s' = s \<or> (\<exists>off n st. n < 27 \<and> off \<le> 316 \<and>
    s' = s\<lparr>classics_bt_name := (put_bytes 0 (bytes_at off n (fs_sector env s)) (classics_bt_name s))[n := 0], bt_stack := st\<rparr>)"
proof (cases "dev_sector_valid s")
  case True
  let ?off = "4 * (if bt_dev_rev s = NVREC_DEV_VERSION_1 then dev_index dev_name else rev2_index rev2_dev_name)"
  obtain n where n: "fs_strlen ?off (fs_sector env s) = FsRet n"
    using assms True by (auto simp only: nvrec_dev_localname_addr_init_def if_True Let_def bind_returns)
  let ?n = "if n < 27 then n else 26"
  have "?n < 27" "?off \<le> 316" by simp_all
  moreover have "\<exists>st. s' = s\<lparr>classics_bt_name := (put_bytes 0 (bytes_at ?off ?n (fs_sector env s)) (classics_bt_name s))[?n := 0], bt_stack := st\<rparr>"
    using assms True unfolding nvrec_dev_localname_addr_init_def Let_def n
    by (simp only: if_True fs_bind.simps fs_res.inject prod.inject CLASSIC_BTNAME_LEN_def BLE_NAME_LEN_IN_NV_def) auto
  ultimately show ?thesis by blast
next
  case False
  then show ?thesis using assms by (simp add: nvrec_dev_localname_addr_init_def)
qed

lemma name_typed:
  assumes "factory_laws env" "factory_typed s" "nvrec_dev_localname_addr_init env dev s = FsRet (b, dev', s')"
  shows "factory_typed s'"
proof -
  have l: "length (fs_sector env s) = 4096" using sector_length [OF assms(1)] .
  have "length (put_bytes 0 (bytes_at off n (fs_sector env s)) (classics_bt_name s)) = 27" if "n < 27" "off \<le> 316" for n off
    using that assms(2) l by (simp add: factory_typed_def factory_defs)
  then show ?thesis using name_frame [OF assms(3)] assms(2)
    by (auto simp: factory_typed_def factory_defs intro!: set_update_memI)
qed

lemma step_typed:
  assumes "factory_laws env" "factory_step env s s'" "factory_typed s"
  shows "factory_typed s'"
  using assms(2)
proof cases
  case step_init
  then show ?thesis using assms(3) by (auto simp: factory_section_init_def Let_def case_prod_beta typed_cong split: if_splits)
next
  case (step_set op r)
  then show ?thesis using apply_frame [of env op s r s'] assms(3) by (auto simp: typed_cong)
next
  case (step_xtal t1 t2 mempool v)
  then show ?thesis using xtal_frame [of env t1 t2 mempool v s s'] assms(3) by (auto simp: typed_cong)
next
  case (step_flush mempool)
  then show ?thesis using assms(3) by (auto simp: nvrec_dev_flash_flush_def typed_cong dest!: store_frame split: option.splits)
qed (use assms open_typed data_open_typed name_typed in auto)

lemma takeWhile_shorter: "x \<in> set xs \<Longrightarrow> length (takeWhile (\<lambda>c. c \<noteq> x) xs) < length xs"
  by (induction xs) auto

text \<open>
  C29: the types of the state are kept by every call of \<open>factory_section.c\<close> and of the \<open>nvrec_dev\<close> functions: the addresses have six
  bytes, a set pointer comes with revision 1 or 2, so that the getters point into the sector, and the local name always ends in its buffer.
\<close>

theorem factory_calls_typed:
  assumes "factory_laws env" and "factory_typed s" and "(factory_step env)\<^sup>*\<^sup>* s s'"
  shows "factory_typed s' \<and>
    (case factory_section_get_bt_address s' of None \<Rightarrow> \<not> factory_section_p s' | Some off \<Rightarrow> off + 6 \<le> length (fs_sector env s')) \<and>
    length (takeWhile (\<lambda>c. c \<noteq> 0) (nvrec_dev_get_bt_name s')) < CLASSIC_BTNAME_LEN"
proof -
  have "factory_typed s'" using assms(3,2)
  proof (induction rule: rtranclp_induct)
    case (step y z)
    from step.hyps(2) step.IH [OF step.prems] show ?case by (rule step_typed [OF assms(1)])
  qed
  then show ?thesis using sector_length [OF assms(1), of s'] takeWhile_shorter [of 0 "classics_bt_name s'"]
    by (auto simp: factory_section_get_bt_address_def nvrec_dev_get_bt_name_def factory_typed_def)
qed

section \<open>A driver that satisfies the laws\<close>

text \<open>The flash holds its bytes, the checksum is the number of bytes, and the stack has a name of three letters.\<close>

definition fsim_env :: "(bytes, unit) factory_env" where
  "fsim_env = \<lparr>fs_crc32_c = \<lambda>bs. of_nat (length bs), fs_register = \<lambda>f. (NORFLASH_API_OK, f),
     fs_erase = \<lambda>a f. (NORFLASH_API_OK, replicate 4096 0xff), fs_write = \<lambda>a m f. (NORFLASH_API_OK, m),
     fs_flush_all = id, fs_mapped = \<lambda>f. take 4096 (f @ replicate 4096 0xff), factory_start = 0x3C0FF000,
     rand_nth = \<lambda>seed n. seed, BT_LOCAL_NAME = 1, BLE_DEFAULT_NAME = 2,
     bt_get_local_name = \<lambda>b. [0x42, 0x45, 0x53], bt_get_ble_local_name = \<lambda>b. replicate 32 0,
     bt_set_local_name = \<lambda>nm b. b, bt_set_local_address = \<lambda>a b. b, bt_set_ble_local_name = \<lambda>nm b. b,
     bt_set_ble_local_address = \<lambda>a b. b, store_local_address = \<lambda>a b. b, store_ble_local_address = \<lambda>a b. b\<rparr>"

definition fsim_state :: "bytes \<Rightarrow> (bytes, unit) factory" where
  "fsim_state m = \<lparr>fs_flash = m, factory_section_p = False, nv_record_dev_rev = 2, bt_global_addr = replicate 6 0,
     ble_global_addr = replicate 6 0, dev_sector_valid = False, bt_dev_rev = 2,
     classics_bt_name = [0x42, 0x45, 0x53] @ replicate 24 0, bt_stack = ()\<rparr>"

definition fsim_rev1 :: bytes where
  "fsim_rev1 = put_bytes 4 (le32 288) (put_bytes 0 (le32 0x1ba80) (replicate 4096 0))"

definition fsim_rev2 :: "u32 \<Rightarrow> bytes" where
  "fsim_rev2 n = put_bytes 304 (le32 n) (put_bytes 300 (le32 n) (put_bytes 0 (le32 0x2ba80) (replicate 4096 0)))"

lemma fsim_laws: "factory_laws fsim_env" "driver_ok fsim_env"
  by (auto simp: factory_laws_def driver_ok_def fsim_env_def factory_defs min_def)

lemma fsim_sector: "length m = 4096 \<Longrightarrow> fs_sector fsim_env (fsim_state m) = m"
  by (simp add: fs_sector_def fsim_env_def fsim_state_def)

lemma fsim_crc: "fs_crc32_c fsim_env bs = of_nat (length bs)"
  by (simp add: fsim_env_def)

lemma fsim_rev1_ok: "rev_ok 1 fsim_rev1" "sealed1 fsim_env fsim_rev1"
proof -
  let ?z = "put_bytes 0 (le32 0x1ba80) (replicate 4096 0)"
  have z: "length ?z = 4096" "get16 ?z 0 = 0xba80" "get16 ?z 2 = 1"
    by (simp_all add: get16_def nth_put_bytes le32_def)
  have l: "length fsim_rev1 = 4096" using z by (simp add: fsim_rev1_def)
  show "rev_ok 1 fsim_rev1" using z l by (simp add: rev_ok_def fsim_rev1_def get16_put_other factory_defs)
  have "get32 fsim_rev1 4 = 288" using z by (simp add: fsim_rev1_def get32_put_same)
  then show "sealed1 fsim_env fsim_rev1" using l by (simp add: sealed1_def rev1_sum_def fsim_crc)
qed

lemma fsim_rev2_ok:
  "rev_ok 2 (fsim_rev2 n)" "rev2_len (fsim_rev2 n) = n" "length (fsim_rev2 n) = 4096"
  "unat n \<le> 3788 \<Longrightarrow> rev2_ok (fsim_rev2 n)" "unat n \<le> 3788 \<Longrightarrow> sealed2 fsim_env (fsim_rev2 n)"
proof -
  let ?z = "put_bytes 0 (le32 0x2ba80) (replicate 4096 0)"
  have z: "length ?z = 4096" "get16 ?z 0 = 0xba80" "get16 ?z 2 = 2"
    by (simp_all add: get16_def nth_put_bytes le32_def)
  show l: "length (fsim_rev2 n) = 4096" using z by (simp add: fsim_rev2_def)
  show r: "rev_ok 2 (fsim_rev2 n)" using z l by (simp add: rev_ok_def fsim_rev2_def get16_put_other factory_defs)
  show n: "rev2_len (fsim_rev2 n) = n" using z by (simp add: rev2_len_def fsim_rev2_def get32_put_other get32_put_same)
  show "rev2_ok (fsim_rev2 n)" if "unat n \<le> 3788" using r n that by (simp add: rev2_ok_def)
  have "get32 (fsim_rev2 n) 304 = n" using z by (simp add: fsim_rev2_def get32_put_same)
  then show "sealed2 fsim_env (fsim_rev2 n)" if "unat n \<le> 3788" using l n that by (simp add: sealed2_def rev2_sum_def fsim_crc)
qed

lemma fsim_opened2:
  "\<exists>s. factory_section_open fsim_env (fsim_state (fsim_rev2 320)) = FsRet (0, s) \<and> nv_record_dev_rev s = 2"
  using open_rev2 [of fsim_env "fsim_state (fsim_rev2 320)"] fsim_rev2_ok [of 320] by (simp add: fsim_sector)

lemma fsim_opened1:
  "\<exists>s. factory_section_open fsim_env (fsim_state fsim_rev1) = FsRet (0, s) \<and> nv_record_dev_rev s = 1"
  using open_rev1 [of fsim_env "fsim_state fsim_rev1"] fsim_rev1_ok rev_ok_length(1) [of 1 fsim_rev1] by (simp add: fsim_sector)

lemma fsim_typed: "factory_typed (fsim_state m)"
  by (simp add: factory_typed_def fsim_state_def factory_defs)

section \<open>Witnesses\<close>

text \<open>A new address and a new trim, read back after the next open.\<close>

theorem factory_rev2_sets_witness:
  "\<exists>s s' s''. factory_section_open fsim_env (fsim_state (fsim_rev2 320)) = FsRet (0, s) \<and>
     factory_sets fsim_env [Set_Bt [1, 2, 3, 4, 5, 6], Set_Xtal 0x66] s = FsRet ([0, 0], s') \<and>
     factory_section_xtal_fcap_get fsim_env s' = (0, Some 0x66) \<and>
     factory_section_open fsim_env s' = FsRet (0, s'') \<and> bt_global_addr s'' = [1, 2, 3, 4, 5, 6]"
proof -
  obtain s where s: "factory_section_open fsim_env (fsim_state (fsim_rev2 320)) = FsRet (0, s)" "nv_record_dev_rev s = 2"
    using fsim_opened2 by blast
  have "get32 (le32 0x66) 0 = 0x66" by (simp add: get32_def le32_def)
  then show ?thesis
    using factory_rev2_sets [OF fsim_laws s, of "[Set_Bt [1, 2, 3, 4, 5, 6], Set_Xtal 0x66]" "fold set_spec [Set_Bt [1, 2, 3, 4, 5, 6], Set_Xtal 0x66] (fields_of fsim_env s)"] s(1)
    by (auto simp: set_spec_def get32_def nth_append)
qed

text \<open>A new trim in a revision 1 sector, which the next open rejects.\<close>

theorem factory_rev1_setter_breaks_witness:
  "\<exists>s s' s''. factory_section_open fsim_env (fsim_state fsim_rev1) = FsRet (0, s) \<and>
     factory_apply fsim_env (Set_Xtal 0x66) s = FsRet (0, s') \<and> factory_section_open fsim_env s' = FsRet (-1, s'')"
proof -
  obtain s where s: "factory_section_open fsim_env (fsim_state fsim_rev1) = FsRet (0, s)" "nv_record_dev_rev s = 1"
    using fsim_opened1 by blast
  then show ?thesis using factory_rev1_setter_breaks [OF fsim_laws s, of "Set_Xtal 0x66"] sector_length [OF fsim_laws(1)]
    by (auto simp: fsim_crc)
qed

theorem factory_length_check_witness:
  "factory_section_open fsim_env (fsim_state (fsim_rev2 0xFFFFFFFF)) = FsFault"
  using factory_length_check [OF fsim_laws(1) refl, of "fsim_state (fsim_rev2 0xFFFFFFFF)"] fsim_rev2_ok [of "0xFFFFFFFF"]
  by (simp add: fsim_sector rev_ok_def rev2_len_def)

theorem factory_opens_agree_witness:
  "\<exists>s1 s2. factory_section_open fsim_env (fsim_state (fsim_rev2 320)) = FsRet (0, s1) \<and>
     nvrec_dev_data_open fsim_env (fsim_state (fsim_rev2 320)) = FsRet (True, s2) \<and> same_view fsim_env s1 s2"
proof -
  let ?s = "fsim_state (fsim_rev2 320)"
  have r: "get16 (fsim_rev2 320) 2 = 2" "fs_sector fsim_env ?s = fsim_rev2 320"
    using fsim_rev2_ok [of 320] by (simp_all add: rev_ok_def fsim_sector)
  obtain s1 where "factory_section_open fsim_env ?s = FsRet (0, s1)" using fsim_opened2 by blast
  then show ?thesis using factory_opens_agree [OF fsim_laws(1) refl, of ?s] r by (auto split: fs_res.splits)
qed

theorem dev_xtal_roundtrip_witness:
  "\<exists>s' s1 s2. nvrec_dev_set_xtal_fcap fsim_env 3 4 (replicate 4096 7) 0x55 (fsim_state []) = FsRet s' \<and>
     nvrec_dev_data_open fsim_env s' = FsRet (True, s1) \<and> nvrec_dev_get_xtal_fcap fsim_env False s1 = (0, Some 0x55) \<and>
     factory_section_open fsim_env s' = FsRet (0, s2) \<and> factory_section_xtal_fcap_get fsim_env s2 = (0, Some 0x55)"
  using dev_xtal_roundtrip [OF fsim_laws, of "fsim_state []" undefined "replicate 4096 7" 3 4 "0x55"]
  by (auto simp: fsim_state_def fsim_env_def factory_defs)

theorem factory_calls_typed_witness:
  "\<exists>s. factory_step fsim_env (fsim_state (fsim_rev2 320)) s \<and> factory_typed s \<and> factory_section_get_bt_address s \<noteq> None"
proof -
  obtain s where s: "factory_section_open fsim_env (fsim_state (fsim_rev2 320)) = FsRet (0, s)" using fsim_opened2 by blast
  then have st: "factory_step fsim_env (fsim_state (fsim_rev2 320)) s" by (rule step_open)
  then have "factory_typed s" using factory_calls_typed [OF fsim_laws(1) fsim_typed r_into_rtranclp [of "factory_step fsim_env", OF st]] by blast
  then show ?thesis using st open_opened(1) [OF fsim_laws(1) s] by (auto simp: factory_section_get_bt_address_def)
qed

end
