(* ===== verification/Spec2Isabelle.thy ===== *)
theory Spec2Isabelle
  imports BesPrelude RecordTable Volume NvTypes NvBt NvBtSafety NvEnv NvFlush NvFlushSafety NvBle NvBleSafety NvBoot NvBootSafety NvFuel
    NvFlashSim NvRun NvCrash NvProgress Cmu Sysfreq HalTimer HalKey HalKeySafety HalKeyRun HalKeyClick HalKeyProps AppKey AppKeyProps
    FactorySection NvFactory FactoryProps
begin

text \<open>
  The firmware of the \<open>best1307\<close> Bluetooth earbuds (\<open>src\<close>): what it keeps across a loss of power, how it
  reads its keys, and how it runs its clock.

  \<^bold>\<open>Parts and how they interact.\<close> The user-data record (\<open>src/apps/nv_section/userdata_section\<close>) lives in a RAM
  mirror. The tables in it (paired devices, BLE bonds, environment) are changed inside a write window and
  mark the mirror; the flush writes marked mirrors to two flash sectors, main and backup, one driver
  call at a time in the background or waiting in a loop; at start-up the better copy is loaded. The factory sector
  holds names, addresses and the crystal trim of the device; two files read and write it. The keys
  (\<open>src/platform/hal/hal_key.c\<close>) are interrupts and a timer whose handler debounces the pins and calls the
  application back with key events; their thresholds are ticks of the calibrated timer
  (\<open>src/platform/hal/hal_timer.c\<close>). The frequency manager (\<open>src/platform/hal/hal_sysfreq.c\<close>) collects the
  requests of its users and sets the system clock (\<open>src/platform/hal/best1307/hal_cmu_best1307.c\<close>).

  \<^bold>\<open>Theories.\<close>
  \<^item> \<open>BesPrelude\<close>: C integer types at their width, register bits, the moving loops over arrays.
  \<^item> \<open>RecordTable\<close>: the locales \<open>keyed_table\<close> and \<open>mru_table\<close>, the contract of a bounded table with distinct keys,
    latest first; interpreted for both tables.
  \<^item> \<open>NvTypes\<close>: the record's sections and the shared state \<open>nv\<close> with the write window (\<open>nvrecord_extension.h\<close>
    and the headers it uses).
  \<^item> \<open>NvBt\<close>, \<open>NvBtSafety\<close>: the paired-device table of \<open>nvrecord_bt.c\<close>. Adding is move-to-front with eviction of the
    eighth; ordering, deletion, stash and restore, callbacks; the invariant of every sequence of calls.
  \<^item> \<open>NvBle\<close>, \<open>NvBleSafety\<close>: the bonds of \<open>nvrecord_ble.c\<close>, its GATT caches and the exchange of identities.
  \<^item> \<open>FactorySection\<close>, \<open>NvFactory\<close>: the factory sector as bytes, through \<open>factory_section.c\<close> and through the \<open>nvrec_dev\<close> functions of
    \<open>nvrecord_bt.c\<close>. \<open>FactoryProps\<close>: updates are independent and survive the next start in revision 2 and do not in revision 1,
    how the two ways of opening a sector agree, the crystal trim is read back, all calls keep the types of the state. The locale
    \<open>sealed_store\<close> is the contract of fields under a checksum.
  \<^item> \<open>NvEnv\<close>: environment, TWS name, factory test data and application mode (\<open>nvrecord_env.c\<close>, \<open>nvrecord_appmode.c\<close>).
  \<^item> \<open>NvFlush\<close>, \<open>NvFlushSafety\<close>, \<open>NvFuel\<close>: the flush of \<open>nvrecord_extension.c\<close> as a state machine over the flash
    driver, its invariant (a valid record exists at every moment) and its termination.
  \<^item> \<open>NvBoot\<close>, \<open>NvBootSafety\<close>: defaults, validity, start-up and factory reset.
  \<^item> \<open>NvFlashSim\<close>: a driver that satisfies the assumed laws, used by the witnesses.
  \<^item> \<open>NvRun\<close>, \<open>NvCrash\<close>, \<open>NvProgress\<close>: all operations as one step relation; recovery after a loss of power between any two
    driver calls; the background flush drains and the waiting flush ends with the marked mirror in both sectors; the
    sleep hook tells the truth. An own BLE address that \<open>nv_record_blerec_init\<close> fills in is not marked, so a flush may leave it
    out of flash; \<open>flushed\<close> states this exception.
  \<^item> \<open>Cmu\<close>, \<open>Sysfreq\<close>: the system clock registers and the frequency manager, which implements the maximum of the
    requests and, above 26M, never runs the clock above the configured supply.
  \<^item> \<open>Volume\<close>: the volume scales of AVRCP and HFP.
  \<^item> \<open>HalTimer\<close>: calibration and the roundings of the conversions between time and ticks.
  \<^item> \<open>HalKey\<close>: every handler of \<open>hal_key.c\<close>. \<open>HalKeySafety\<close>: pin maps are finite sets (locale \<open>pin_set\<close>), the loops visit each
    pin or key once. \<open>HalKeyRun\<close>: the invariant of all interleavings of interrupts and timer expiries.
    \<open>HalKeyClick\<close>: the automaton of one key that the handler refines. \<open>HalKeyProps\<close>: no assertion fails and no
    key goes unwatched, presses are debounced, events alternate, clicks are counted, the boot order, and
    two sequences in which the reported event is not the one meant.
  \<^item> \<open>AppKey\<close>: the functions of \<open>src/apps/key/app_key.cpp\<close> and the mailbox and thread of \<open>src/apps/common/app_thread.c\<close>.
    \<open>AppKeyProps\<close>: registration is a finite map, messages are counted and handled in order, and what an unprotected
    counter and a freed list do. Below, the driver and the application are put together.

  \<^bold>\<open>State and errors.\<close> C structs are records, enums are datatypes, integers are words at their width with
  wrap-around; a null dereference is the value \<open>NullDeref\<close>, a failing assertion of the keys the field
  \<open>key_assert\<close>, an error code the returned number.

  \<^bold>\<open>Loops.\<close> Loops over arrays are structural. The polling loops of the waiting flush have fuel, the number of
  rounds: \<open>NvFuel\<close> shows that a result does not change with more rounds and the termination theorems
  that enough rounds exist for a driver that completes its queue. The loops of the key handler carry a
  bound above every pin, which is never what ends them.

  \<^bold>\<open>Parameters.\<close> The flash driver, checksum, memory layout, clock and random numbers of the record store are the
  record \<open>nv_env\<close>, with the driver's documented results as the predicate \<open>norflash_laws\<close>; \<open>NvFlashSim\<close> satisfies
  it. The table of GPIO keys and the readings of pins and timers are arguments; a run of the keys has one
  opening. The mail queue, memory pool and list library of the application are the record \<open>app_env\<close> with \<open>mail_laws\<close> and \<open>pool_laws\<close>; \<open>sim_env\<close> satisfies them.
  The driver, checksum and stack behind the factory sector are the record \<open>factory_env\<close> with \<open>factory_laws\<close>, and \<open>driver_ok\<close> where a
  claim needs that every erase and write succeeds; \<open>fsim_env\<close> satisfies them.

  \<^bold>\<open>Not modelled.\<close> Builds with two flash chips or with the records in RAM; other sections of the record
  that no modelled function touches; ADC keys, which the build leaves out; the other clocks and peripheral
  drivers; audio, host stack and applications, which are register sequences, signal processing or glue
  around binary libraries; third-party and generated code.
\<close>


section \<open>Keys, callback and mailbox together\<close>

lemma press_step_length: "length (fst (press_step hw b p)) \<le> 3"
  by (induction hw b p rule: press_step.induct) (simp_all add: Let_def)

text \<open>
  C19: the events that one call of the debounce handler sends for a single key all reach an idle application:
  \<open>key_event_process\<close> queues them in their order, and none is dropped by the limit on pending key messages.
\<close>

theorem key_events_delivered:
  assumes "cfg_ok cfg" and "key_run cfg s" and "debounce_timer s = Some Debounce_Handler"
    and "i < 32" and "thresholds_ok hw" and "press_abs (BIT i) (key_status s) p"
    and "code_down (key_status (hal_key_debounce_handler cfg hw s)) = (if b then BIT i else 0)"
    and "mail_laws env" and "app_ready env a"
  shows "\<exists>es a'. key_sent (hal_key_debounce_handler cfg hw s) = rev es @ key_sent s \<and> deliver env es a = Done a' \<and>
    map (\<lambda>m. msg_status (msg_body m)) (pend env (app_mailbox a')) = map event_status es \<and>
    key_event_cnt a' = of_nat (length es)"
proof -
  let ?es = "map (\<lambda>e. (BIT i, event_num e)) (fst (press_step hw b p))"
  have n: "length ?es \<le> 3" using press_step_length by simp
  have k: "key_sent (hal_key_debounce_handler cfg hw s) = rev ?es @ key_sent s"
    using handler_refines [OF assms(1-7)] by blast
  have I: "app_inv env a [] []" using assms(9) by (simp add: app_ready_def app_inv_def level_ok_def pend_def)
  have z: "pend env (app_mailbox a) = []" using assms(9) by (simp add: app_ready_def pend_def)
  obtain a' where "deliver env ?es a = Done a'" "app_inv env a' (map event_status ?es) []"
    using deliver_queues [OF assms(8) I, of ?es] assms(9) n z by (auto simp: app_ready_def)
  then show ?thesis using k by (auto simp: app_inv_def dest: arg_cong [where f = length])
qed

theorem key_events_delivered_witness:
  "\<exists>es a'. key_sent (hal_key_debounce_handler [] (sample_hw 1120 False)
       (play [] [(1000, True), (1040, True), (1080, True)] (demo_open False))) = rev es @ [(1, 2), (1, 1)] \<and>
     deliver sim_env es sim_app = Done a' \<and> key_event_cnt a' = of_nat (length es)"
  using key_events_delivered [OF demo_cfg_ok(2) demo_run demo_held(1) _ sample_ok demo_held(2,4) sim_mail_laws sim_ready]
    demo_held(3) by fastforce

end
